(* ===== verification/Prelude.thy ===== *)
theory Prelude
  imports Main
begin

text \<open>
  Shared material of the development: the theorem collections the component theories fill, the
  generic operations on tables (a table is the list of its rows), the facts about sums over updated
  tables that every stock argument uses, and runs of a transition system.
\<close>

named_theorems in_transaction_intro \<open>operations that neither commit nor end the transaction\<close>
named_theorems effects \<open>what a run of an operation says about its states\<close>
named_theorems invariant_intro \<open>steps that keep an invariant\<close>

subsection \<open>Scalars\<close>

type_synonym ident = string      \<comment> \<open>primary keys, for example \<open>order_9b1d\<close>\<close>
type_synonym money = int         \<comment> \<open>a \<open>Numeric(12, 2)\<close>, in hundredths\<close>
type_synonym time = int          \<comment> \<open>an instant, in microseconds\<close>

definition int4 :: "int \<Rightarrow> bool" where
  "int4 n \<longleftrightarrow> - (2 ^ 31) \<le> n \<and> n < 2 ^ 31"

definition varchar :: "nat \<Rightarrow> string \<Rightarrow> bool" where
  "varchar n s \<longleftrightarrow> length s \<le> n"

definition numeric_12_2 :: "money \<Rightarrow> bool" where
  "numeric_12_2 m \<longleftrightarrow> - (10 ^ 12) < m \<and> m < 10 ^ 12"

lemma int4_mono: "int4 b \<Longrightarrow> 0 \<le> a \<Longrightarrow> a \<le> b \<Longrightarrow> int4 a"
  by (auto simp: int4_def)

subsection \<open>Tables as lists of rows\<close>

definition update_where :: "('r \<Rightarrow> bool) \<Rightarrow> ('r \<Rightarrow> 'r) \<Rightarrow> 'r list \<Rightarrow> 'r list" where
  "update_where p f t = map (\<lambda>r. if p r then f r else r) t"

lemma update_where_Nil [simp]: "update_where p f [] = []"
  and update_where_Cons [simp]:
    "update_where p f (r # t) = (if p r then f r else r) # update_where p f t"
  by (simp_all add: update_where_def)

lemma length_update_where [simp]: "length (update_where p f t) = length t"
  by (simp add: update_where_def)

lemma set_update_where:
  "set (update_where p f t) = f ` {r \<in> set t. p r} \<union> {r \<in> set t. \<not> p r}"
  by (auto simp: update_where_def)

lemma ball_update_where:
  "(\<forall>r\<in>set (update_where p f t). Q r) \<longleftrightarrow> (\<forall>r\<in>set t. Q (if p r then f r else r))"
  by (auto simp: update_where_def)

lemma update_where_none: "\<forall>r\<in>set t. \<not> p r \<Longrightarrow> update_where p f t = t"
  by (induction t) auto

lemma map_update_where:
  "(\<And>r. g (f r) = g r) \<Longrightarrow> map g (update_where p f t) = map g t"
  by (induction t) auto

text \<open>A key column no update writes keeps its values, hence its uniqueness.\<close>

lemma distinct_update_where:
  "(\<And>r. g (f r) = g r) \<Longrightarrow> distinct (map g (update_where p f t)) = distinct (map g t)"
  by (simp add: map_update_where)

lemma unique_row:
  "distinct (map g t) \<Longrightarrow> x \<in> set t \<Longrightarrow> y \<in> set t \<Longrightarrow> g x = g y \<Longrightarrow> x = y"
  by (metis distinct_map inj_onD)

lemma filter_unique:
  assumes "distinct (map g t)" and "x \<in> set t" and "p x" and "\<And>y. p y \<Longrightarrow> g y = g x"
  shows "filter p t = [x]"
  using assms(1,2)
proof (induction t)
  case (Cons a t)
  show ?case
  proof (cases "a = x")
    case True
    have "\<not> p y" if "y \<in> set t" for y
      using that Cons.prems(1) True assms(4) by (metis distinct.simps(2) image_eqI list.map(2) list.set_map)
    then have "filter p t = []" by (simp add: filter_empty_conv)
    with True assms(3) show ?thesis by simp
  next
    case False
    with Cons.prems(2) have x: "x \<in> set t" by simp
    then have "g a \<noteq> g x" using Cons.prems(1) by (metis distinct.simps(2) image_eqI list.map(2) list.set_map)
    then have "\<not> p a" using assms(4) by auto
    with Cons.IH Cons.prems(1) x show ?thesis by simp
  qed
qed simp

lemma length_filter_unique:
  assumes "distinct (map g t)" and "\<And>x y. p x \<Longrightarrow> p y \<Longrightarrow> g x = g y"
  shows "length (filter p t) \<le> 1"
proof (cases "\<exists>x\<in>set t. p x")
  case True
  then obtain x where x: "x \<in> set t" "p x" by blast
  have "filter p t = [x]"
    by (rule filter_unique [where p = p and x = x, OF assms(1) x]) (rule assms(2) [OF _ x(2)])
  then show ?thesis by simp
qed (simp add: filter_empty_conv)

subsection \<open>Column sums\<close>

definition sum_where :: "('r \<Rightarrow> bool) \<Rightarrow> ('r \<Rightarrow> int) \<Rightarrow> 'r list \<Rightarrow> int" where
  "sum_where p v t = sum_list (map v (filter p t))"

lemma sum_where_Nil [simp]: "sum_where p v [] = 0"
  and sum_where_Cons [simp]:
    "sum_where p v (r # t) = (if p r then v r else 0) + sum_where p v t"
  and sum_where_append [simp]: "sum_where p v (t @ u) = sum_where p v t + sum_where p v u"
  by (simp_all add: sum_where_def)

lemma sum_where_cong:
  "(\<And>r. r \<in> set t \<Longrightarrow> p r = q r) \<Longrightarrow> (\<And>r. r \<in> set t \<Longrightarrow> p r \<Longrightarrow> v r = w r) \<Longrightarrow>
    sum_where p v t = sum_where q w t"
  by (induction t) auto

lemma sum_where_nonneg:
  "(\<And>r. r \<in> set t \<Longrightarrow> p r \<Longrightarrow> 0 \<le> v r) \<Longrightarrow> 0 \<le> sum_where p v t"
  by (induction t) (auto intro: add_nonneg_nonneg)

lemma sum_where_member_le:
  assumes "\<And>r. r \<in> set t \<Longrightarrow> p r \<Longrightarrow> 0 \<le> v r" and "x \<in> set t" and "p x"
  shows "v x \<le> sum_where p v t"
  using assms
proof (induction t)
  case (Cons a t)
  then have "0 \<le> sum_where p v t" by (auto intro: sum_where_nonneg)
  with Cons show ?case by (cases "a = x") (auto, fastforce)
qed simp

text \<open>Rows an update takes out of a sum, and the sum split along a predicate.\<close>

lemma sum_where_update_out:
  "(\<And>r. q r \<Longrightarrow> \<not> p (f r)) \<Longrightarrow>
    sum_where p v (update_where q f t) = sum_where (\<lambda>r. p r \<and> \<not> q r) v t"
  by (induction t) auto

lemma sum_where_split:
  "sum_where p v t = sum_where (\<lambda>r. p r \<and> q r) v t + sum_where (\<lambda>r. p r \<and> \<not> q r) v t"
  by (induction t) auto

lemma sum_where_filter: "sum_where p v (filter q t) = sum_where (\<lambda>r. p r \<and> q r) v t"
  by (induction t) auto

lemma sum_where_map: "sum_where p v (map f t) = sum_where (\<lambda>r. p (f r)) (\<lambda>r. v (f r)) t"
  by (induction t) auto

lemma sum_where_update_same:
  "(\<And>r. r \<in> set t \<Longrightarrow> q r \<Longrightarrow> p (f r) = p r) \<Longrightarrow>
   (\<And>r. r \<in> set t \<Longrightarrow> q r \<Longrightarrow> p r \<Longrightarrow> v (f r) = v r) \<Longrightarrow>
    sum_where p v (update_where q f t) = sum_where p v t"
  by (induction t) auto

lemma sum_where_none: "(\<And>r. r \<in> set t \<Longrightarrow> \<not> p r) \<Longrightarrow> sum_where p v t = 0"
  by (induction t) auto

subsection \<open>Runs of a transition system\<close>

inductive steps_to :: "('s \<Rightarrow> 's \<Rightarrow> bool) \<Rightarrow> 's \<Rightarrow> 's \<Rightarrow> bool" for step :: "'s \<Rightarrow> 's \<Rightarrow> bool" where
  here: "steps_to step s s"
| after: "steps_to step s s' \<Longrightarrow> step s' s'' \<Longrightarrow> steps_to step s s''"

lemma steps_to_trans: "steps_to step b c \<Longrightarrow> steps_to step a b \<Longrightarrow> steps_to step a c"
  by (induction rule: steps_to.induct) (auto intro: steps_to.after)

text \<open>A transition system with an inductive invariant, and a relation every good step keeps.\<close>

locale transition_system =
  fixes step :: "'s \<Rightarrow> 's \<Rightarrow> bool" and inv :: "'s \<Rightarrow> bool" and rel :: "'s \<Rightarrow> 's \<Rightarrow> bool"
  assumes step_inv: "inv s \<Longrightarrow> step s s' \<Longrightarrow> inv s'"
    and rel_refl: "rel s s"
    and rel_trans: "rel s s' \<Longrightarrow> rel s' s'' \<Longrightarrow> rel s s''"
    and step_rel: "inv s \<Longrightarrow> step s s' \<Longrightarrow> rel s s'"
begin

lemma run_inv: "steps_to step s s' \<Longrightarrow> inv s \<Longrightarrow> inv s'"
  by (induction rule: steps_to.induct) (auto intro: step_inv)

lemma run_rel: "steps_to step s s' \<Longrightarrow> inv s \<Longrightarrow> rel s s'"
proof (induction rule: steps_to.induct)
  case (after s s' s'')
  from after.IH [OF after.prems] step_rel [OF run_inv [OF after.hyps(1) after.prems] after.hyps(2)]
  show ?case by (rule rel_trans)
qed (rule rel_refl)

end

end
