(* ===== verification/Enums.thy ===== *)
theory Enums
  imports Prelude
begin

text \<open>
  The enumerations of \<open>src/models/enums.py\<close>. Constructors keep the source's names; where two
  enumerations share a member name (\<open>PENDING\<close>, \<open>COMPLETED\<close>, \<open>FAILED\<close>), the smaller one carries a
  prefix. \<open>order_status\<close> is ordered as the PostgreSQL enum type is, by declaration.
\<close>

datatype user_role = ADMIN | CLIENT

datatype order_status =
  PENDING | RESERVED | PROCESSING | COMPLETED | FAILED | CANCELLED | EXPIRED

datatype reservation_status = ACTIVE | RELEASED | CONSUMED

datatype audit_event_type =
  STOCK_ADDED | STOCK_REMOVED | INVENTORY_RESERVED | RESERVATION_RELEASED
| ORDER_COMPLETED | MANUAL_ADJUSTMENT

datatype idempotency_status = IDEM_IN_PROGRESS | IDEM_COMPLETED

datatype outbox_status = OUTBOX_PENDING | OUTBOX_PUBLISHED

datatype payment_result = PAY_SUCCESS | PAY_FAILED

subsection \<open>Member values (\<open>.value\<close>)\<close>

fun user_role_value :: "user_role \<Rightarrow> string" where
  "user_role_value ADMIN = ''ADMIN''"
| "user_role_value CLIENT = ''CLIENT''"

fun order_status_value :: "order_status \<Rightarrow> string" where
  "order_status_value PENDING = ''PENDING''"
| "order_status_value RESERVED = ''RESERVED''"
| "order_status_value PROCESSING = ''PROCESSING''"
| "order_status_value COMPLETED = ''COMPLETED''"
| "order_status_value FAILED = ''FAILED''"
| "order_status_value CANCELLED = ''CANCELLED''"
| "order_status_value EXPIRED = ''EXPIRED''"

lemma order_status_value_inj: "inj order_status_value"
proof (rule injI)
  fix a b assume "order_status_value a = order_status_value b"
  then show "a = b" by (cases a; cases b) simp_all
qed

subsection \<open>Order statuses: declaration order, finiteness\<close>

fun order_status_rank :: "order_status \<Rightarrow> nat" where
  "order_status_rank PENDING = 0"
| "order_status_rank RESERVED = 1"
| "order_status_rank PROCESSING = 2"
| "order_status_rank COMPLETED = 3"
| "order_status_rank FAILED = 4"
| "order_status_rank CANCELLED = 5"
| "order_status_rank EXPIRED = 6"

lemma order_status_rank_eq_iff: "order_status_rank a = order_status_rank b \<longleftrightarrow> a = b"
  by (cases a; cases b) simp_all

instantiation order_status :: linorder
begin

definition less_eq_order_status :: "order_status \<Rightarrow> order_status \<Rightarrow> bool" where
  "less_eq_order_status a b \<longleftrightarrow> order_status_rank a \<le> order_status_rank b"

definition less_order_status :: "order_status \<Rightarrow> order_status \<Rightarrow> bool" where
  "less_order_status a b \<longleftrightarrow> order_status_rank a < order_status_rank b"

instance
  by standard (auto simp: less_eq_order_status_def less_order_status_def order_status_rank_eq_iff)

end

instantiation order_status :: enum
begin

definition enum_order_status :: "order_status list" where
  "enum_order_status = [PENDING, RESERVED, PROCESSING, COMPLETED, FAILED, CANCELLED, EXPIRED]"

definition enum_all_order_status :: "(order_status \<Rightarrow> bool) \<Rightarrow> bool" where
  "enum_all_order_status P \<longleftrightarrow> list_all P enum_class.enum"

definition enum_ex_order_status :: "(order_status \<Rightarrow> bool) \<Rightarrow> bool" where
  "enum_ex_order_status P \<longleftrightarrow> list_ex P enum_class.enum"

instance
proof
  have all: "x \<in> set [PENDING, RESERVED, PROCESSING, COMPLETED, FAILED, CANCELLED, EXPIRED]" for x
    by (cases x) simp_all
  then show univ: "(UNIV :: order_status set) = set enum_class.enum"
    unfolding enum_order_status_def by blast
  show "distinct (enum_class.enum :: order_status list)"
    by (simp add: enum_order_status_def)
  show "enum_class.enum_all P \<longleftrightarrow> Ball UNIV P" for P :: "order_status \<Rightarrow> bool"
    using univ by (auto simp: enum_all_order_status_def list_all_iff)
  show "enum_class.enum_ex P \<longleftrightarrow> Bex UNIV P" for P :: "order_status \<Rightarrow> bool"
    using univ by (auto simp: enum_ex_order_status_def list_ex_iff)
qed

end

definition CANCELLABLE_ORDER_STATUSES :: "order_status set" where
  "CANCELLABLE_ORDER_STATUSES = {PENDING, RESERVED}"

definition TERMINAL_ORDER_STATUSES :: "order_status set" where
  "TERMINAL_ORDER_STATUSES = {COMPLETED, FAILED, CANCELLED, EXPIRED}"

lemma terminal_iff: "s \<in> TERMINAL_ORDER_STATUSES \<longleftrightarrow> COMPLETED \<le> s"
  by (cases s) (auto simp: TERMINAL_ORDER_STATUSES_def less_eq_order_status_def)

lemma cancellable_not_terminal: "s \<in> CANCELLABLE_ORDER_STATUSES \<Longrightarrow> s \<notin> TERMINAL_ORDER_STATUSES"
  by (auto simp: CANCELLABLE_ORDER_STATUSES_def TERMINAL_ORDER_STATUSES_def)

end
