(* ===== verification/Errors.thy ===== *)
theory Errors
  imports Enums
begin

text \<open>
  JSON values and the exceptions of the program: the \<open>AppError\<close> hierarchy of
  \<open>src/core/exceptions.py\<close>, the database driver's errors, the worker's \<open>RetryablePaymentError\<close>, the
  Python errors a branch of the code can raise, and their rendering by
  \<open>src/middleware/error_handler.py\<close>.
\<close>

text \<open>
  A \<open>dict\<close> is an association list in insertion order. \<open>JDec\<close> is a decimal with two places, in
  hundredths; \<open>JTime\<close> an instant, rendered by pydantic as an ISO string.
\<close>

datatype json =
  JNull | JBool bool | JInt int | JDec money | JStr string | JTime time
| JArr "json list" | JObj "(string \<times> json) list"

datatype error_class =
  InvalidRequestError | UnauthorizedError | ForbiddenError | ProductNotFoundError
| WarehouseNotFoundError | OrderNotFoundError | InsufficientInventoryError | DuplicateSkuError
| OrderCannotBeCancelledError | IdempotencyConflictError | InternalError

fun status_code :: "error_class \<Rightarrow> int" where
  "status_code InvalidRequestError = 400"
| "status_code UnauthorizedError = 401"
| "status_code ForbiddenError = 403"
| "status_code ProductNotFoundError = 404"
| "status_code WarehouseNotFoundError = 404"
| "status_code OrderNotFoundError = 404"
| "status_code InsufficientInventoryError = 409"
| "status_code DuplicateSkuError = 409"
| "status_code OrderCannotBeCancelledError = 409"
| "status_code IdempotencyConflictError = 409"
| "status_code InternalError = 500"

fun error_code :: "error_class \<Rightarrow> string" where
  "error_code InvalidRequestError = ''INVALID_REQUEST''"
| "error_code UnauthorizedError = ''UNAUTHORIZED''"
| "error_code ForbiddenError = ''FORBIDDEN''"
| "error_code ProductNotFoundError = ''PRODUCT_NOT_FOUND''"
| "error_code WarehouseNotFoundError = ''WAREHOUSE_NOT_FOUND''"
| "error_code OrderNotFoundError = ''ORDER_NOT_FOUND''"
| "error_code InsufficientInventoryError = ''INSUFFICIENT_INVENTORY''"
| "error_code DuplicateSkuError = ''DUPLICATE_SKU''"
| "error_code OrderCannotBeCancelledError = ''ORDER_CANNOT_BE_CANCELLED''"
| "error_code IdempotencyConflictError = ''IDEMPOTENCY_KEY_IN_PROGRESS''"
| "error_code InternalError = ''INTERNAL_ERROR''"

record app_error =
  err_class :: error_class
  err_message :: string
  err_details :: "(string \<times> json) list"

definition to_dict :: "app_error \<Rightarrow> json" where
  "to_dict e = JObj [(''error'', JObj [(''code'', JStr (error_code (err_class e))),
     (''message'', JStr (err_message e)), (''details'', JObj (err_details e))])]"

datatype exn =
  AppError app_error
| IntegrityError string                  \<comment> \<open>a violated constraint, by name\<close>
| DataError string                       \<comment> \<open>a value its column cannot hold\<close>
| MultipleResultsFound                   \<comment> \<open>\<open>scalar_one_or_none\<close> over several rows\<close>
| RetryablePaymentError string int       \<comment> \<open>message and countdown\<close>
| RefreshError                           \<comment> \<open>\<open>db.refresh\<close> of a row that is gone\<close>
| IndexError
| AttributeError                         \<comment> \<open>an attribute of \<open>None\<close>\<close>
| ValueError
| KeyError

abbreviation app_err :: "error_class \<Rightarrow> string \<Rightarrow> (string \<times> json) list \<Rightarrow> exn" where
  "app_err c m d \<equiv> AppError \<lparr>err_class = c, err_message = m, err_details = d\<rparr>"

text \<open>A value between single quotes, as the f-strings of the messages write it.\<close>

definition quoted :: "string \<Rightarrow> string" where
  "quoted s = CHR 0x27 # s @ [CHR 0x27]"

subsection \<open>The exception handlers: status and body of an error response\<close>

record http_response =
  http_status :: int
  http_body :: json

definition handle_app_error :: "app_error \<Rightarrow> http_response" where
  "handle_app_error e = \<lparr>http_status = status_code (err_class e), http_body = to_dict e\<rparr>"

definition handle_validation_error :: "json \<Rightarrow> http_response" where
  "handle_validation_error errors = \<lparr>http_status = 400,
     http_body = JObj [(''error'', JObj [(''code'', JStr ''INVALID_REQUEST''),
       (''message'', JStr ''Request validation failed''),
       (''details'', JObj [(''errors'', errors)])])]\<rparr>"

definition handle_unexpected_error :: http_response where
  "handle_unexpected_error = \<lparr>http_status = 500,
     http_body = JObj [(''error'', JObj [(''code'', JStr ''INTERNAL_ERROR''),
       (''message'', JStr ''An unexpected error occurred''), (''details'', JObj [])])]\<rparr>"

fun handle_exception :: "exn \<Rightarrow> http_response" where
  "handle_exception (AppError e) = handle_app_error e"
| "handle_exception _ = handle_unexpected_error"

lemma status_code_is_error: "400 \<le> status_code c \<and> status_code c \<le> 500"
  by (cases c) simp_all

text \<open>Every response of a handler carries the envelope \<open>{"error": {code, message, details}}\<close>.\<close>

definition error_envelope :: "json \<Rightarrow> bool" where
  "error_envelope j = (case j of
     JObj [(k, JObj [(k1, JStr _), (k2, JStr _), (k3, JObj _)])] \<Rightarrow>
       k = ''error'' \<and> k1 = ''code'' \<and> k2 = ''message'' \<and> k3 = ''details''
   | _ \<Rightarrow> False)"

lemma handle_exception_envelope: "error_envelope (http_body (handle_exception e))"
  by (cases e) (simp_all add: error_envelope_def handle_app_error_def handle_unexpected_error_def
      to_dict_def)

end
