(* ===== verification/Models.thy ===== *)
theory Models
  imports Config
begin

text \<open>
  The tables of \<open>src/models/\<close>: one record per row type, with the columns in the order of the class,
  and \<open>db\<close>, the contents of the database. A table is the list of its rows in scan order, which SQL
  leaves open unless a query orders its result; every theorem holds for every order. The
  \<open>check_*\<close> functions are what PostgreSQL verifies of a new or updated row: column types, CHECK
  constraints, primary keys, unique constraints and foreign keys, in that order. Generated ids
  (a prefix and 32 hexadecimal digits) always fit their \<open>String(64)\<close> columns and are not checked.
\<close>

record user =
  user_id :: ident
  user_email :: string
  user_hashed_password :: string
  user_role :: user_role
  user_created_at :: time

record product =
  prod_id :: ident
  prod_sku :: string
  prod_name :: string
  prod_price :: money
  prod_created_at :: time
  prod_updated_at :: time

record warehouse =
  wh_id :: ident
  wh_name :: string
  wh_location :: string
  wh_created_at :: time

record inventory_row =
  inv_id :: ident
  inv_product_id :: ident
  inv_warehouse_id :: ident
  available_quantity :: int
  reserved_quantity :: int
  low_stock_threshold :: "int option"
  is_low_stock :: bool
  inv_updated_at :: time

record order_row =
  ord_id :: ident
  ord_status :: order_status
  ord_total :: money
  ord_created_by_user_id :: ident
  ord_payment_token :: string
  ord_processing_attempts :: int
  ord_idempotency_key :: "string option"
  ord_created_at :: time
  ord_updated_at :: time

record order_item =
  item_id :: ident
  item_order_id :: ident
  item_product_id :: ident
  item_warehouse_id :: ident
  item_quantity :: int
  item_unit_price :: money

record reservation =
  resv_id :: ident
  resv_order_id :: ident
  resv_product_id :: ident
  resv_warehouse_id :: ident
  resv_quantity :: int
  resv_status :: reservation_status
  resv_expires_at :: time
  resv_created_at :: time
  resv_released_at :: "time option"

record audit_log =
  audit_id :: ident
  audit_product_id :: ident
  audit_warehouse_id :: ident
  audit_change :: int
  audit_type :: audit_event_type
  audit_reference_id :: string
  audit_created_at :: time

record idempotency_key =
  idem_key :: string
  idem_request_hash :: string
  idem_order_id :: "ident option"
  idem_status :: idempotency_status
  idem_response_body :: "json option"
  idem_created_at :: time

record outbox_event =
  evt_id :: ident
  evt_aggregate_type :: string
  evt_aggregate_id :: ident
  evt_event_type :: string
  evt_payload :: json
  evt_status :: outbox_status
  evt_created_at :: time
  evt_published_at :: "time option"

record dead_letter =
  dlq_id :: ident
  dlq_order_id :: ident
  dlq_reason :: string
  dlq_attempts :: int
  dlq_created_at :: time

record low_stock_alert =
  lsa_id :: ident
  lsa_product_id :: ident
  lsa_warehouse_id :: ident
  lsa_quantity_at_alert :: int
  lsa_threshold :: int
  lsa_created_at :: time

record db =
  users :: "user list"
  products :: "product list"
  warehouses :: "warehouse list"
  inventory :: "inventory_row list"
  orders :: "order_row list"
  order_items :: "order_item list"
  reservations :: "reservation list"
  audit_logs :: "audit_log list"
  idempotency_keys :: "idempotency_key list"
  outbox_events :: "outbox_event list"
  dead_letters :: "dead_letter list"
  low_stock_alerts :: "low_stock_alert list"

definition empty_db :: db where
  "empty_db = \<lparr>users = [], products = [], warehouses = [], inventory = [], orders = [],
     order_items = [], reservations = [], audit_logs = [], idempotency_keys = [],
     outbox_events = [], dead_letters = [], low_stock_alerts = []\<rparr>"

subsection \<open>Row checks\<close>

fun first_failure :: "(bool \<times> exn) list \<Rightarrow> exn option" where
  "first_failure [] = None"
| "first_failure ((ok, e) # cs) = (if ok then first_failure cs else Some e)"

lemma first_failure_None: "first_failure cs = None \<longleftrightarrow> (\<forall>(ok, e) \<in> set cs. ok)"
  by (induction cs rule: first_failure.induct) auto

abbreviation inv_key :: "inventory_row \<Rightarrow> ident \<times> ident" where
  "inv_key r \<equiv> (inv_product_id r, inv_warehouse_id r)"

abbreviation resv_key :: "reservation \<Rightarrow> ident \<times> ident" where
  "resv_key r \<equiv> (resv_product_id r, resv_warehouse_id r)"

definition has_user :: "db \<Rightarrow> ident \<Rightarrow> bool" where
  "has_user d i \<longleftrightarrow> i \<in> set (map user_id (users d))"

definition has_product :: "db \<Rightarrow> ident \<Rightarrow> bool" where
  "has_product d i \<longleftrightarrow> i \<in> set (map prod_id (products d))"

definition has_warehouse :: "db \<Rightarrow> ident \<Rightarrow> bool" where
  "has_warehouse d i \<longleftrightarrow> i \<in> set (map wh_id (warehouses d))"

definition has_order :: "db \<Rightarrow> ident \<Rightarrow> bool" where
  "has_order d i \<longleftrightarrow> i \<in> set (map ord_id (orders d))"

definition check_user :: "db \<Rightarrow> user \<Rightarrow> exn option" where
  "check_user d r = first_failure [
     (varchar 64 (user_id r), DataError ''users.id''),
     (varchar 255 (user_email r), DataError ''users.email''),
     (varchar 255 (user_hashed_password r), DataError ''users.hashed_password''),
     (user_id r \<notin> set (map user_id (users d)), IntegrityError ''users_pkey''),
     (user_email r \<notin> set (map user_email (users d)), IntegrityError ''ix_users_email'')]"

definition check_product :: "db \<Rightarrow> product \<Rightarrow> exn option" where
  "check_product d r = first_failure [
     (varchar 64 (prod_id r), DataError ''products.id''),
     (varchar 64 (prod_sku r), DataError ''products.sku''),
     (varchar 255 (prod_name r), DataError ''products.name''),
     (numeric_12_2 (prod_price r), DataError ''products.price''),
     (prod_id r \<notin> set (map prod_id (products d)), IntegrityError ''products_pkey''),
     (prod_sku r \<notin> set (map prod_sku (products d)), IntegrityError ''ix_products_sku'')]"

definition check_warehouse :: "db \<Rightarrow> warehouse \<Rightarrow> exn option" where
  "check_warehouse d r = first_failure [
     (varchar 64 (wh_id r), DataError ''warehouses.id''),
     (varchar 255 (wh_name r), DataError ''warehouses.name''),
     (varchar 255 (wh_location r), DataError ''warehouses.location''),
     (wh_id r \<notin> set (map wh_id (warehouses d)), IntegrityError ''warehouses_pkey'')]"

definition threshold_ok :: "(int \<Rightarrow> bool) \<Rightarrow> inventory_row \<Rightarrow> bool" where
  "threshold_ok p r = (case low_stock_threshold r of None \<Rightarrow> True | Some t \<Rightarrow> p t)"

definition check_inventory_row :: "inventory_row \<Rightarrow> exn option" where
  "check_inventory_row r = first_failure [
     (int4 (available_quantity r), DataError ''inventory.available_quantity''),
     (int4 (reserved_quantity r), DataError ''inventory.reserved_quantity''),
     (threshold_ok int4 r, DataError ''inventory.low_stock_threshold''),
     (0 \<le> available_quantity r, IntegrityError ''ck_inventory_available_nonnegative''),
     (0 \<le> reserved_quantity r, IntegrityError ''ck_inventory_reserved_nonnegative''),
     (threshold_ok (\<lambda>t. 0 \<le> t) r,
      IntegrityError ''ck_inventory_low_stock_threshold_nonnegative'')]"

definition check_inventory :: "db \<Rightarrow> inventory_row \<Rightarrow> exn option" where
  "check_inventory d r = (case check_inventory_row r of Some e \<Rightarrow> Some e | None \<Rightarrow> first_failure [
     (varchar 64 (inv_id r), DataError ''inventory.id''),
     (inv_id r \<notin> set (map inv_id (inventory d)), IntegrityError ''inventory_pkey''),
     (inv_key r \<notin> set (map inv_key (inventory d)), IntegrityError ''uq_inventory_product_warehouse''),
     (has_product d (inv_product_id r), IntegrityError ''inventory_product_id_fkey''),
     (has_warehouse d (inv_warehouse_id r), IntegrityError ''inventory_warehouse_id_fkey'')])"

definition check_order_row :: "order_row \<Rightarrow> exn option" where
  "check_order_row r = first_failure [
     (numeric_12_2 (ord_total r), DataError ''orders.total''),
     (varchar 32 (ord_payment_token r), DataError ''orders.payment_token''),
     (int4 (ord_processing_attempts r), DataError ''orders.processing_attempts''),
     (case ord_idempotency_key r of None \<Rightarrow> True | Some k \<Rightarrow> varchar 255 k,
      DataError ''orders.idempotency_key'')]"

definition check_order :: "db \<Rightarrow> order_row \<Rightarrow> exn option" where
  "check_order d r = (case check_order_row r of Some e \<Rightarrow> Some e | None \<Rightarrow> first_failure [
     (ord_id r \<notin> set (map ord_id (orders d)), IntegrityError ''orders_pkey''),
     (case ord_idempotency_key r of None \<Rightarrow> True
      | Some k \<Rightarrow> Some k \<notin> set (map ord_idempotency_key (orders d)),
      IntegrityError ''ix_orders_idempotency_key''),
     (has_user d (ord_created_by_user_id r), IntegrityError ''orders_created_by_user_id_fkey'')])"

definition check_order_item :: "db \<Rightarrow> order_item \<Rightarrow> exn option" where
  "check_order_item d r = first_failure [
     (int4 (item_quantity r), DataError ''order_items.quantity''),
     (numeric_12_2 (item_unit_price r), DataError ''order_items.unit_price''),
     (item_id r \<notin> set (map item_id (order_items d)), IntegrityError ''order_items_pkey''),
     (has_order d (item_order_id r), IntegrityError ''order_items_order_id_fkey''),
     (has_product d (item_product_id r), IntegrityError ''order_items_product_id_fkey''),
     (has_warehouse d (item_warehouse_id r), IntegrityError ''order_items_warehouse_id_fkey'')]"

definition check_reservation :: "db \<Rightarrow> reservation \<Rightarrow> exn option" where
  "check_reservation d r = first_failure [
     (int4 (resv_quantity r), DataError ''inventory_reservations.quantity''),
     (resv_id r \<notin> set (map resv_id (reservations d)), IntegrityError ''inventory_reservations_pkey''),
     (has_order d (resv_order_id r), IntegrityError ''inventory_reservations_order_id_fkey''),
     (has_product d (resv_product_id r), IntegrityError ''inventory_reservations_product_id_fkey''),
     (has_warehouse d (resv_warehouse_id r),
      IntegrityError ''inventory_reservations_warehouse_id_fkey'')]"

definition check_audit_log :: "db \<Rightarrow> audit_log \<Rightarrow> exn option" where
  "check_audit_log d r = first_failure [
     (int4 (audit_change r), DataError ''inventory_audit_logs.change''),
     (varchar 64 (audit_reference_id r), DataError ''inventory_audit_logs.reference_id''),
     (audit_id r \<notin> set (map audit_id (audit_logs d)), IntegrityError ''inventory_audit_logs_pkey''),
     (has_product d (audit_product_id r), IntegrityError ''inventory_audit_logs_product_id_fkey''),
     (has_warehouse d (audit_warehouse_id r),
      IntegrityError ''inventory_audit_logs_warehouse_id_fkey'')]"

definition check_idempotency_key :: "db \<Rightarrow> idempotency_key \<Rightarrow> exn option" where
  "check_idempotency_key d r = first_failure [
     (varchar 255 (idem_key r), DataError ''idempotency_keys.key''),
     (varchar 64 (idem_request_hash r), DataError ''idempotency_keys.request_hash''),
     (idem_key r \<notin> set (map idem_key (idempotency_keys d)), IntegrityError ''idempotency_keys_pkey'')]"

definition check_outbox_event :: "db \<Rightarrow> outbox_event \<Rightarrow> exn option" where
  "check_outbox_event d r = first_failure [
     (evt_id r \<notin> set (map evt_id (outbox_events d)), IntegrityError ''outbox_events_pkey'')]"

definition check_dead_letter :: "db \<Rightarrow> dead_letter \<Rightarrow> exn option" where
  "check_dead_letter d r = first_failure [
     (int4 (dlq_attempts r), DataError ''dead_letter_orders.attempts''),
     (dlq_id r \<notin> set (map dlq_id (dead_letters d)), IntegrityError ''dead_letter_orders_pkey''),
     (has_order d (dlq_order_id r), IntegrityError ''dead_letter_orders_order_id_fkey'')]"

definition check_low_stock_alert :: "db \<Rightarrow> low_stock_alert \<Rightarrow> exn option" where
  "check_low_stock_alert d r = first_failure [
     (int4 (lsa_quantity_at_alert r), DataError ''low_stock_alerts.quantity_at_alert''),
     (int4 (lsa_threshold r), DataError ''low_stock_alerts.threshold''),
     (lsa_id r \<notin> set (map lsa_id (low_stock_alerts d)), IntegrityError ''low_stock_alerts_pkey''),
     (has_product d (lsa_product_id r), IntegrityError ''low_stock_alerts_product_id_fkey''),
     (has_warehouse d (lsa_warehouse_id r),
      IntegrityError ''low_stock_alerts_warehouse_id_fkey'')]"

lemmas row_checks = check_user_def check_product_def check_warehouse_def check_inventory_def
  check_inventory_row_def check_order_def check_order_row_def check_order_item_def
  check_reservation_def check_audit_log_def check_idempotency_key_def check_outbox_event_def
  check_dead_letter_def check_low_stock_alert_def

lemmas references = has_user_def has_product_def has_warehouse_def has_order_def

lemma check_inventory_row_None:
  "check_inventory_row r = None \<longleftrightarrow>
     int4 (available_quantity r) \<and> int4 (reserved_quantity r) \<and> threshold_ok int4 r \<and>
     0 \<le> available_quantity r \<and> 0 \<le> reserved_quantity r \<and> threshold_ok (\<lambda>t. 0 \<le> t) r"
  by (simp add: check_inventory_row_def)

end
