(* ===== verification/Session.thy ===== *)
theory Session
  imports Models
begin

text \<open>
  The SQLAlchemy session (\<open>src/database.py\<close>) and the statements the repositories issue on it.

  A session holds the committed database and its own uncommitted view of it. A program step is an
  operation: a function from sessions to a result (\<open>Inl\<close> an exception, \<open>Inr\<close> a value) and the next
  session. \<open>and_then\<close> is sequencing: an exception skips the rest. \<open>clock\<close> is the present instant
  (\<open>datetime.now\<close> and the server's \<open>now()\<close>); \<open>uuid_stream\<close> holds the values \<open>uuid.uuid4().hex\<close>
  returns, \<open>uuid_pos\<close> how many were drawn. A rollback restores the tables, not the draws.
\<close>

record session =
  committed :: db
  working :: db
  clock :: time
  uuid_stream :: "nat \<Rightarrow> string"
  uuid_pos :: nat

type_synonym 'a op = "session \<Rightarrow> (exn + 'a) \<times> session"

subsection \<open>Sequencing, exceptions, loops\<close>

definition return :: "'a \<Rightarrow> 'a op" where
  "return x s = (Inr x, s)"

definition raise :: "exn \<Rightarrow> 'a op" where
  "raise e s = (Inl e, s)"

definition and_then :: "'a op \<Rightarrow> ('a \<Rightarrow> 'b op) \<Rightarrow> 'b op" where
  "and_then m f s = (case m s of (Inl e, s') \<Rightarrow> (Inl e, s') | (Inr x, s') \<Rightarrow> f x s')"

definition try_except :: "'a op \<Rightarrow> (exn \<Rightarrow> 'a op) \<Rightarrow> 'a op" where
  "try_except m h s = (case m s of (Inl e, s') \<Rightarrow> h e s' | (Inr x, s') \<Rightarrow> (Inr x, s'))"

definition query :: "(db \<Rightarrow> 'a) \<Rightarrow> 'a op" where
  "query q s = (Inr (q (working s)), s)"

definition now :: "time op" where
  "now s = (Inr (clock s), s)"

primrec for_each :: "('a \<Rightarrow> unit op) \<Rightarrow> 'a list \<Rightarrow> unit op" where
  "for_each f [] = return ()"
| "for_each f (x # xs) = and_then (f x) (\<lambda>_. for_each f xs)"

primrec fold_op :: "('a \<Rightarrow> 'b \<Rightarrow> 'b op) \<Rightarrow> 'a list \<Rightarrow> 'b \<Rightarrow> 'b op" where
  "fold_op f [] acc = return acc"
| "fold_op f (x # xs) acc = and_then (f x acc) (fold_op f xs)"

definition commit :: "unit op" where
  "commit s = (Inr (), s\<lparr>committed := working s\<rparr>)"

definition rollback :: "unit op" where
  "rollback s = (Inr (), s\<lparr>working := committed s\<rparr>)"

definition generate_id :: "string \<Rightarrow> ident op" where
  "generate_id prefix s =
     (Inr (prefix @ ''_'' @ uuid_stream s (uuid_pos s)), s\<lparr>uuid_pos := Suc (uuid_pos s)\<rparr>)"

subsection \<open>Statements\<close>

text \<open>\<open>scalar_one_or_none()\<close>: no row, one row, or an exception.\<close>

fun scalar_one_or_none :: "'r list \<Rightarrow> exn + 'r option" where
  "scalar_one_or_none [] = Inr None"
| "scalar_one_or_none [r] = Inr (Some r)"
| "scalar_one_or_none _ = Inl MultipleResultsFound"

definition select_one :: "(db \<Rightarrow> 'r list) \<Rightarrow> ('r \<Rightarrow> bool) \<Rightarrow> 'r option op" where
  "select_one rows p s = (scalar_one_or_none (filter p (rows (working s))), s)"

text \<open>\<open>db.add(row); db.flush()\<close>: an INSERT, refused when the row check fails.\<close>

definition exec_insert ::
  "(db \<Rightarrow> 'r list) \<Rightarrow> ('r list \<Rightarrow> db \<Rightarrow> db) \<Rightarrow> (db \<Rightarrow> 'r \<Rightarrow> exn option) \<Rightarrow> 'r \<Rightarrow> 'r op" where
  "exec_insert rows put chk r s =
     (case chk (working s) r of
        Some e \<Rightarrow> (Inl e, s)
      | None \<Rightarrow> (Inr r, s\<lparr>working := put (rows (working s) @ [r]) (working s)\<rparr>))"

fun first_error :: "('r \<Rightarrow> exn option) \<Rightarrow> 'r list \<Rightarrow> exn option" where
  "first_error chk [] = None"
| "first_error chk (r # rs) = (case chk r of Some e \<Rightarrow> Some e | None \<Rightarrow> first_error chk rs)"

text \<open>
  \<open>UPDATE ... WHERE p SET f RETURNING *\<close>: the statement sees one state of the table, changes every
  matching row or, if a new row fails its check, none. The result is the list of updated rows;
  its length is the statement's \<open>rowcount\<close>. \<open>f\<close> receives the clock, for \<open>onupdate\<close> columns.
\<close>

definition exec_update ::
  "(db \<Rightarrow> 'r list) \<Rightarrow> ('r list \<Rightarrow> db \<Rightarrow> db) \<Rightarrow> ('r \<Rightarrow> exn option) \<Rightarrow> ('r \<Rightarrow> bool)
    \<Rightarrow> (time \<Rightarrow> 'r \<Rightarrow> 'r) \<Rightarrow> 'r list op" where
  "exec_update rows put chk p f s =
     (let t = rows (working s); g = f (clock s); new = map g (filter p t) in
      case first_error chk new of
        Some e \<Rightarrow> (Inl e, s)
      | None \<Rightarrow> (Inr new, s\<lparr>working := put (update_where p g t) (working s)\<rparr>))"

subsection \<open>Results of composed operations\<close>

lemma return_eq [simp]: "return x s = (r, s') \<longleftrightarrow> r = Inr x \<and> s' = s"
  by (auto simp: return_def)

lemma raise_eq [simp]: "raise e s = (r, s') \<longleftrightarrow> r = Inl e \<and> s' = s"
  by (auto simp: raise_def)

lemma query_eq [simp]: "query q s = (r, s') \<longleftrightarrow> r = Inr (q (working s)) \<and> s' = s"
  by (auto simp: query_def)

lemma now_eq [simp]: "now s = (r, s') \<longleftrightarrow> r = Inr (clock s) \<and> s' = s"
  by (auto simp: now_def)

lemma commit_eq [simp]: "commit s = (r, s') \<longleftrightarrow> r = Inr () \<and> s' = s\<lparr>committed := working s\<rparr>"
  by (auto simp: commit_def)

lemma rollback_eq [simp]: "rollback s = (r, s') \<longleftrightarrow> r = Inr () \<and> s' = s\<lparr>working := committed s\<rparr>"
  by (auto simp: rollback_def)

lemma generate_id_eq [simp]:
  "generate_id prefix s = (r, s') \<longleftrightarrow>
     r = Inr (prefix @ ''_'' @ uuid_stream s (uuid_pos s)) \<and>
     s' = s\<lparr>uuid_pos := Suc (uuid_pos s)\<rparr>"
  by (auto simp: generate_id_def)

lemma and_then_Inr [simp]:
  "and_then m f s = (Inr y, s') \<longleftrightarrow> (\<exists>x t. m s = (Inr x, t) \<and> f x t = (Inr y, s'))"
  by (auto simp: and_then_def split: prod.splits sum.splits)

lemma and_then_Inl:
  "and_then m f s = (Inl e, s') \<longleftrightarrow>
     m s = (Inl e, s') \<or> (\<exists>x t. m s = (Inr x, t) \<and> f x t = (Inl e, s'))"
  by (auto simp: and_then_def split: prod.splits sum.splits)

lemma and_then_step: "m s = (Inr x, t) \<Longrightarrow> and_then m f s = f x t"
  and and_then_stop: "m s = (Inl e, t) \<Longrightarrow> and_then m f s = (Inl e, t)"
  by (simp_all add: and_then_def)

lemma try_except_Inr:
  "try_except m h s = (Inr y, s') \<longleftrightarrow>
     m s = (Inr y, s') \<or> (\<exists>e t. m s = (Inl e, t) \<and> h e t = (Inr y, s'))"
  by (auto simp: try_except_def split: prod.splits sum.splits)

lemma try_except_Inl:
  "try_except m h s = (Inl e, s') \<longleftrightarrow> (\<exists>e' t. m s = (Inl e', t) \<and> h e' t = (Inl e, s'))"
  by (auto simp: try_except_def split: prod.splits sum.splits)

lemma exec_insert_Inr:
  "exec_insert rows put chk r s = (Inr r', s') \<longleftrightarrow>
     chk (working s) r = None \<and> r' = r \<and>
     s' = s\<lparr>working := put (rows (working s) @ [r]) (working s)\<rparr>"
  by (auto simp: exec_insert_def split: option.splits)

lemma exec_insert_Inl:
  "exec_insert rows put chk r s = (Inl e, s') \<longleftrightarrow> chk (working s) r = Some e \<and> s' = s"
  by (auto simp: exec_insert_def split: option.splits)

lemma first_error_None: "first_error chk rs = None \<longleftrightarrow> (\<forall>r\<in>set rs. chk r = None)"
  by (induction rs) (auto split: option.splits)

lemma exec_update_Inr:
  "exec_update rows put chk p f s = (Inr new, s') \<longleftrightarrow>
     new = map (f (clock s)) (filter p (rows (working s))) \<and>
     (\<forall>r\<in>set (rows (working s)). p r \<longrightarrow> chk (f (clock s) r) = None) \<and>
     s' = s\<lparr>working := put (update_where p (f (clock s)) (rows (working s))) (working s)\<rparr>"
proof (cases "first_error chk (map (f (clock s)) (filter p (rows (working s))))")
  case None
  then have "\<forall>r\<in>set (rows (working s)). p r \<longrightarrow> chk (f (clock s) r) = None"
    unfolding first_error_None by auto
  moreover have "exec_update rows put chk p f s =
      (Inr (map (f (clock s)) (filter p (rows (working s)))),
       s\<lparr>working := put (update_where p (f (clock s)) (rows (working s))) (working s)\<rparr>)"
    using None by (simp add: exec_update_def Let_def)
  ultimately show ?thesis by auto
next
  case (Some e)
  then have "first_error chk (map (f (clock s)) (filter p (rows (working s)))) \<noteq> None" by simp
  then have "\<not> (\<forall>r\<in>set (rows (working s)). p r \<longrightarrow> chk (f (clock s) r) = None)"
    unfolding first_error_None by auto
  moreover have "exec_update rows put chk p f s = (Inl e, s)"
    using Some by (simp add: exec_update_def Let_def)
  ultimately show ?thesis by simp
qed

lemma exec_update_Inl:
  "exec_update rows put chk p f s = (Inl e, s') \<Longrightarrow> s' = s"
  by (auto simp: exec_update_def Let_def split: option.splits)

lemma select_one_Inr:
  "select_one rows p s = (Inr x, s') \<longleftrightarrow>
     s' = s \<and> filter p (rows (working s)) = (case x of None \<Rightarrow> [] | Some r \<Rightarrow> [r])"
  by (cases "filter p (rows (working s))" rule: scalar_one_or_none.cases)
    (auto simp: select_one_def split: option.splits)

lemma select_one_Some:
  assumes "select_one rows p s = (Inr (Some r), s')"
  shows "s' = s \<and> r \<in> set (rows (working s)) \<and> p r"
proof -
  have "set (filter p (rows (working s))) = {r}" and "s' = s"
    using assms by (simp_all add: select_one_Inr)
  then show ?thesis by auto
qed

lemma select_one_None:
  "select_one rows p s = (Inr None, s') \<longleftrightarrow> s' = s \<and> (\<forall>r\<in>set (rows (working s)). \<not> p r)"
  by (auto simp: select_one_Inr filter_empty_conv)

lemma select_one_Inl: "select_one rows p s = (Inl e, s') \<Longrightarrow> s' = s"
  by (auto simp: select_one_def)

subsection \<open>Operations inside a transaction\<close>

text \<open>
  An operation runs inside its caller's transaction when it changes neither the committed
  database nor the environment: whether its work is kept is for the caller to decide.
\<close>

definition in_transaction :: "'a op \<Rightarrow> bool" where
  "in_transaction m \<longleftrightarrow>
     (\<forall>s. committed (snd (m s)) = committed s \<and> clock (snd (m s)) = clock s \<and>
          uuid_stream (snd (m s)) = uuid_stream s)"

lemma in_transactionI:
  "(\<And>s r s'. m s = (r, s') \<Longrightarrow>
      committed s' = committed s \<and> clock s' = clock s \<and> uuid_stream s' = uuid_stream s)
    \<Longrightarrow> in_transaction m"
  unfolding in_transaction_def by (metis prod.collapse)

lemma in_transactionD:
  "in_transaction m \<Longrightarrow> m s = (r, s') \<Longrightarrow>
     committed s' = committed s \<and> clock s' = clock s \<and> uuid_stream s' = uuid_stream s"
  unfolding in_transaction_def by (metis snd_conv)

lemma in_transaction_return [in_transaction_intro]: "in_transaction (return x)"
  and in_transaction_raise [in_transaction_intro]: "in_transaction (raise e)"
  and in_transaction_query [in_transaction_intro]: "in_transaction (query q)"
  and in_transaction_now [in_transaction_intro]: "in_transaction now"
  and in_transaction_generate_id [in_transaction_intro]: "in_transaction (generate_id prefix)"
  and in_transaction_select_one [in_transaction_intro]: "in_transaction (select_one rows p)"
  by (simp_all add: in_transaction_def return_def raise_def query_def now_def generate_id_def
      select_one_def)

lemma in_transaction_insert [in_transaction_intro]: "in_transaction (exec_insert rows put chk r)"
  by (simp add: in_transaction_def exec_insert_def split: option.splits)

lemma in_transaction_update [in_transaction_intro]: "in_transaction (exec_update rows put chk p f)"
  by (simp add: in_transaction_def exec_update_def Let_def split: option.splits)

lemma in_transaction_and_then [in_transaction_intro]:
  assumes "in_transaction m" and "\<And>x. in_transaction (f x)"
  shows "in_transaction (and_then m f)"
proof (rule in_transactionI)
  fix s r s' assume run: "and_then m f s = (r, s')"
  obtain q t where m: "m s = (q, t)" by (cases "m s")
  then show "committed s' = committed s \<and> clock s' = clock s \<and> uuid_stream s' = uuid_stream s"
    using run in_transactionD [OF assms(1) m] in_transactionD [OF assms(2)]
    by (cases q) (auto simp: and_then_def)
qed

lemma in_transaction_try_except [in_transaction_intro]:
  assumes "in_transaction m" and "\<And>e. in_transaction (h e)"
  shows "in_transaction (try_except m h)"
proof (rule in_transactionI)
  fix s r s' assume run: "try_except m h s = (r, s')"
  obtain q t where m: "m s = (q, t)" by (cases "m s")
  then show "committed s' = committed s \<and> clock s' = clock s \<and> uuid_stream s' = uuid_stream s"
    using run in_transactionD [OF assms(1) m] in_transactionD [OF assms(2)]
    by (cases q) (auto simp: try_except_def)
qed

lemma in_transaction_for_each [in_transaction_intro]:
  "(\<And>x. in_transaction (f x)) \<Longrightarrow> in_transaction (for_each f xs)"
  by (induction xs) (auto intro: in_transaction_intro)

lemma in_transaction_fold_op [in_transaction_intro]:
  "(\<And>x a. in_transaction (f x a)) \<Longrightarrow> in_transaction (fold_op f xs acc)"
  by (induction xs arbitrary: acc) (auto intro: in_transaction_intro)

lemma in_transaction_if [in_transaction_intro]:
  "in_transaction m \<Longrightarrow> in_transaction n \<Longrightarrow> in_transaction (if b then m else n)"
  by simp

lemma in_transaction_case_option [in_transaction_intro]:
  "in_transaction m \<Longrightarrow> (\<And>x. in_transaction (f x)) \<Longrightarrow>
    in_transaction (case opt of None \<Rightarrow> m | Some x \<Rightarrow> f x)"
  by (cases opt) simp_all

text \<open>A unit of work: a transaction whose exception rolls everything back before it propagates.\<close>

definition rolling_back :: "'a op \<Rightarrow> 'a op" where
  "rolling_back m = try_except m (\<lambda>e. and_then rollback (\<lambda>_. raise e))"

lemma rolling_back_Inr: "rolling_back m s = (Inr x, s') \<longleftrightarrow> m s = (Inr x, s')"
  by (auto simp: rolling_back_def try_except_Inr)

lemma rolling_back_Inl:
  "rolling_back m s = (Inl e, s') \<longleftrightarrow>
     (\<exists>t. m s = (Inl e, t) \<and> s' = t\<lparr>working := committed t\<rparr>)"
  by (auto simp: rolling_back_def try_except_Inl and_then_Inl)

text \<open>
  An operation that commits at most as its last step, after everything that can fail: when it
  raises, nothing was committed.
\<close>

definition fails_clean :: "'a op \<Rightarrow> bool" where
  "fails_clean m \<longleftrightarrow> (\<forall>s e s'. m s = (Inl e, s') \<longrightarrow>
     committed s' = committed s \<and> clock s' = clock s \<and> uuid_stream s' = uuid_stream s)"

lemma fails_cleanD:
  "fails_clean m \<Longrightarrow> m s = (Inl e, s') \<Longrightarrow>
     committed s' = committed s \<and> clock s' = clock s \<and> uuid_stream s' = uuid_stream s"
  unfolding fails_clean_def by blast

lemma fails_clean_in_transaction: "in_transaction m \<Longrightarrow> fails_clean m"
  unfolding fails_clean_def by (blast dest: in_transactionD)

lemma fails_clean_commit_return: "fails_clean (and_then commit (\<lambda>_. return x))"
  by (simp add: fails_clean_def and_then_Inl)

lemma fails_clean_and_then:
  assumes "in_transaction m" and "\<And>x. fails_clean (f x)"
  shows "fails_clean (and_then m f)"
  unfolding fails_clean_def and_then_Inl
proof (intro allI impI)
  fix s e s' assume "m s = (Inl e, s') \<or> (\<exists>x t. m s = (Inr x, t) \<and> f x t = (Inl e, s'))"
  then show "committed s' = committed s \<and> clock s' = clock s \<and> uuid_stream s' = uuid_stream s"
    using in_transactionD [OF assms(1)] fails_cleanD [OF assms(2)] by (elim disjE exE conjE) metis+
qed

lemma fails_clean_if: "fails_clean m \<Longrightarrow> fails_clean n \<Longrightarrow> fails_clean (if b then m else n)"
  by simp

lemma fails_clean_case_option:
  "fails_clean m \<Longrightarrow> (\<And>x. fails_clean (f x)) \<Longrightarrow> fails_clean (case opt of None \<Rightarrow> m | Some x \<Rightarrow> f x)"
  by (cases opt) simp_all

lemmas fails_clean_intro = fails_clean_commit_return fails_clean_if fails_clean_case_option
  fails_clean_and_then

lemma rolling_back_clean:
  assumes "fails_clean m" and "rolling_back m s = (Inl e, s')"
  shows "committed s' = committed s \<and> working s' = committed s \<and> clock s' = clock s \<and>
    uuid_stream s' = uuid_stream s"
  using assms by (auto simp: rolling_back_Inl dest: fails_cleanD)

text \<open>A unit of work, its commit, and a read of what was committed.\<close>

lemma commit_then_read:
  assumes run: "and_then m (\<lambda>x. and_then commit (\<lambda>_. f x)) s = (res, s')"
    and "in_transaction m" and "\<And>x. in_transaction (f x)"
  shows "(committed s' = committed s \<and> (\<exists>e. m s = (Inl e, s') \<and> res = Inl e)) \<or>
    (\<exists>x t. m s = (Inr x, t) \<and> committed s' = working t \<and> f x (t\<lparr>committed := working t\<rparr>) = (res, s'))"
proof (cases "m s")
  case (Pair q t)
  show ?thesis
  proof (cases q)
    case (Inl e)
    with Pair run in_transactionD [OF assms(2) Pair] show ?thesis by (auto simp: and_then_def)
  next
    case (Inr x)
    with Pair run have "f x (t\<lparr>committed := working t\<rparr>) = (res, s')" by (simp add: and_then_def commit_def)
    with Pair Inr in_transactionD [OF assms(3) this] show ?thesis by auto
  qed
qed

text \<open>
  \<open>db = SessionLocal()\<close> with \<open>finally: db.close()\<close>: the block starts from the committed database,
  and what it leaves uncommitted is discarded.
\<close>

definition with_session :: "'a op \<Rightarrow> 'a op" where
  "with_session m s = (case m (s\<lparr>working := committed s\<rparr>) of
     (r, s') \<Rightarrow> (r, s'\<lparr>working := committed s'\<rparr>))"

lemma with_session_eq:
  "with_session m s = (r, s') \<longleftrightarrow>
     (\<exists>t. m (s\<lparr>working := committed s\<rparr>) = (r, t) \<and> s' = t\<lparr>working := committed t\<rparr>)"
  by (auto simp: with_session_def split: prod.splits)

subsection \<open>The interface of a table\<close>

text \<open>
  What a repository relies on: a column that identifies rows, and an INSERT that is refused
  when the key is taken. The laws make the statements above behave as on a keyed table.
\<close>

locale keyed_table =
  fixes rows :: "db \<Rightarrow> 'r list" and put :: "'r list \<Rightarrow> db \<Rightarrow> db"
    and chk :: "db \<Rightarrow> 'r \<Rightarrow> exn option" and key :: "'r \<Rightarrow> 'k"
  assumes rows_put: "rows (put t d) = t"
    and fresh_key: "chk d r = None \<Longrightarrow> key r \<notin> key ` set (rows d)"
begin

lemma insert_rows:
  "exec_insert rows put chk r s = (Inr r', s') \<Longrightarrow> rows (working s') = rows (working s) @ [r]"
  by (auto simp: exec_insert_Inr rows_put)

lemma insert_keeps_keys:
  "exec_insert rows put chk r s = (Inr r', s') \<Longrightarrow> distinct (map key (rows (working s))) \<Longrightarrow>
    distinct (map key (rows (working s')))"
  by (auto simp: exec_insert_Inr rows_put dest!: fresh_key)

lemma insert_then_select:
  assumes "exec_insert rows put chk r s = (Inr r', s')"
  shows "select_one rows (\<lambda>x. key x = key r) s' = (Inr (Some r), s')"
proof -
  from assms have "key r \<notin> key ` set (rows (working s))"
    by (auto simp: exec_insert_Inr dest: fresh_key)
  then have "\<forall>x\<in>set (rows (working s)). key x \<noteq> key r" by (metis image_eqI)
  then have "filter (\<lambda>x. key x = key r) (rows (working s)) = []" by simp
  then show ?thesis by (simp add: select_one_Inr insert_rows [OF assms])
qed

lemma duplicate_refused:
  "key r \<in> key ` set (rows (working s)) \<Longrightarrow> \<exists>e. exec_insert rows put chk r s = (Inl e, s)"
  using fresh_key [of "working s" r] by (cases "chk (working s) r") (auto simp: exec_insert_def)

lemma update_keeps_keys:
  "exec_update rows put c p f s = (Inr new, s') \<Longrightarrow> (\<And>n r. key (f n r) = key r) \<Longrightarrow>
    map key (rows (working s')) = map key (rows (working s))"
  by (simp add: exec_update_Inr rows_put map_update_where)

lemma update_rowcount:
  assumes "exec_update rows put c p f s = (Inr new, s')"
    and "distinct (map key (rows (working s)))" and "\<And>x y. p x \<Longrightarrow> p y \<Longrightarrow> key x = key y"
  shows "length new \<le> 1"
proof -
  have "length (filter p (rows (working s))) \<le> 1"
    using assms(2) by (rule length_filter_unique) (rule assms(3))
  then show ?thesis using assms(1) by (simp add: exec_update_Inr)
qed

lemma select_by_key:
  assumes "distinct (map key (rows (working s)))" and "r \<in> set (rows (working s))"
  shows "select_one rows (\<lambda>x. key x = key r) s = (Inr (Some r), s)"
proof -
  have "filter (\<lambda>x. key x = key r) (rows (working s)) = [r]"
    by (rule filter_unique [where p = "\<lambda>x. key x = key r", OF assms]) simp_all
  then show ?thesis by (simp add: select_one_Inr)
qed

end

interpretation users_tbl: keyed_table users "\<lambda>t d. d\<lparr>users := t\<rparr>" check_user user_id
  by unfold_locales (auto simp: row_checks split: if_splits)

interpretation products_tbl: keyed_table products "\<lambda>t d. d\<lparr>products := t\<rparr>" check_product prod_id
  by unfold_locales (auto simp: row_checks split: if_splits)

interpretation warehouses_tbl:
  keyed_table warehouses "\<lambda>t d. d\<lparr>warehouses := t\<rparr>" check_warehouse wh_id
  by unfold_locales (auto simp: row_checks split: if_splits)

interpretation inventory_tbl:
  keyed_table inventory "\<lambda>t d. d\<lparr>inventory := t\<rparr>" check_inventory inv_key
  by unfold_locales (auto simp: row_checks split: if_splits)

interpretation orders_tbl: keyed_table orders "\<lambda>t d. d\<lparr>orders := t\<rparr>" check_order ord_id
  by unfold_locales (auto simp: row_checks split: if_splits)

interpretation order_items_tbl:
  keyed_table order_items "\<lambda>t d. d\<lparr>order_items := t\<rparr>" check_order_item item_id
  by unfold_locales (auto simp: row_checks split: if_splits)

interpretation reservations_tbl:
  keyed_table reservations "\<lambda>t d. d\<lparr>reservations := t\<rparr>" check_reservation resv_id
  by unfold_locales (auto simp: row_checks split: if_splits)

interpretation audit_logs_tbl:
  keyed_table audit_logs "\<lambda>t d. d\<lparr>audit_logs := t\<rparr>" check_audit_log audit_id
  by unfold_locales (auto simp: row_checks split: if_splits)

interpretation idempotency_tbl:
  keyed_table idempotency_keys "\<lambda>t d. d\<lparr>idempotency_keys := t\<rparr>" check_idempotency_key idem_key
  by unfold_locales (auto simp: row_checks split: if_splits)

interpretation outbox_tbl:
  keyed_table outbox_events "\<lambda>t d. d\<lparr>outbox_events := t\<rparr>" check_outbox_event evt_id
  by unfold_locales (auto simp: row_checks split: if_splits)

interpretation dead_letters_tbl:
  keyed_table dead_letters "\<lambda>t d. d\<lparr>dead_letters := t\<rparr>" check_dead_letter dlq_id
  by unfold_locales (auto simp: row_checks split: if_splits)

interpretation low_stock_alerts_tbl:
  keyed_table low_stock_alerts "\<lambda>t d. d\<lparr>low_stock_alerts := t\<rparr>" check_low_stock_alert lsa_id
  by unfold_locales (auto simp: row_checks split: if_splits)

end
