(* ===== verification/Catalog.thy ===== *)
theory Catalog
  imports Session Complex_Main
begin

text \<open>
  Products and warehouses: \<open>product_repository.py\<close> and \<open>warehouse_repository.py\<close>, the services
  \<open>product_service.py\<close> and \<open>warehouse_service.py\<close>, and the request schemas they receive. A price
  arrives as a float; its decimal representation is a rational here, and the \<open>Numeric(12, 2)\<close>
  column rounds it to hundredths, half away from zero.
\<close>

record product_create_request =
  pcr_sku :: string
  pcr_name :: string
  pcr_price :: rat

record warehouse_create_request =
  wcr_name :: string
  wcr_location :: string

definition valid_product_request :: "product_create_request \<Rightarrow> bool" where
  "valid_product_request p \<longleftrightarrow> 1 \<le> length (pcr_sku p) \<and> length (pcr_sku p) \<le> 64 \<and>
     1 \<le> length (pcr_name p) \<and> length (pcr_name p) \<le> 255 \<and> 0 < pcr_price p"

definition valid_warehouse_request :: "warehouse_create_request \<Rightarrow> bool" where
  "valid_warehouse_request p \<longleftrightarrow> 1 \<le> length (wcr_name p) \<and> length (wcr_name p) \<le> 255 \<and>
     1 \<le> length (wcr_location p) \<and> length (wcr_location p) \<le> 255"

definition to_numeric :: "rat \<Rightarrow> money" where
  "to_numeric x = (if x < 0 then - \<lfloor>100 * (- x) + 1 / 2\<rfloor> else \<lfloor>100 * x + 1 / 2\<rfloor>)"

subsection \<open>Repositories\<close>

definition product_get_by_id :: "ident \<Rightarrow> product option op" where
  "product_get_by_id product_id = select_one products (\<lambda>p. prod_id p = product_id)"

definition product_get_by_sku :: "string \<Rightarrow> product option op" where
  "product_get_by_sku sku = select_one products (\<lambda>p. prod_sku p = sku)"

text \<open>The dict \<open>{p.id: p for p in rows}\<close>: a later row wins.\<close>

definition product_get_many_by_ids :: "ident list \<Rightarrow> (ident \<rightharpoonup> product) op" where
  "product_get_many_by_ids product_ids = query (\<lambda>d.
     map_of (rev (map (\<lambda>p. (prod_id p, p)) (filter (\<lambda>p. prod_id p \<in> set product_ids) (products d)))))"

definition product_create :: "product \<Rightarrow> product op" where
  "product_create = exec_insert products (\<lambda>t d. d\<lparr>products := t\<rparr>) check_product"

definition warehouse_get_by_id :: "ident \<Rightarrow> warehouse option op" where
  "warehouse_get_by_id warehouse_id = select_one warehouses (\<lambda>w. wh_id w = warehouse_id)"

definition warehouse_create :: "warehouse \<Rightarrow> warehouse op" where
  "warehouse_create = exec_insert warehouses (\<lambda>t d. d\<lparr>warehouses := t\<rparr>) check_warehouse"

lemmas catalog_statements = product_get_by_id_def product_get_by_sku_def
  product_get_many_by_ids_def product_create_def warehouse_get_by_id_def warehouse_create_def

lemma in_transaction_catalog [in_transaction_intro]:
  "in_transaction (product_get_by_id i)" "in_transaction (product_get_by_sku i)"
  "in_transaction (product_get_many_by_ids l)" "in_transaction (product_create p)"
  "in_transaction (warehouse_get_by_id i)" "in_transaction (warehouse_create w)"
  unfolding catalog_statements by - (intro in_transaction_intro)+

text \<open>The bulk lookup finds a product exactly for the requested ids that exist.\<close>

lemma product_get_many_by_ids_dom:
  assumes "product_get_many_by_ids ids s = (Inr m, s')"
  shows "s' = s" and "dom m = set ids \<inter> set (map prod_id (products (working s)))"
    and "m i = Some p \<Longrightarrow> p \<in> set (products (working s)) \<and> prod_id p = i"
  using assms by (auto simp: product_get_many_by_ids_def dom_map_of_conv_image_fst image_image dest!: map_of_SomeD)

subsection \<open>Product service\<close>

definition duplicate_sku :: "string \<Rightarrow> exn" where
  "duplicate_sku sku = app_err DuplicateSkuError
     (''A product with sku '' @ quoted sku @ '' already exists'') [(''sku'', JStr sku)]"

text \<open>The pre-check of \<open>create_product\<close>, then its INSERT and commit.\<close>

definition create_product_precheck :: "product_create_request \<Rightarrow> unit op" where
  "create_product_precheck payload = and_then (product_get_by_sku (pcr_sku payload)) (\<lambda>found.
     if found \<noteq> None then raise (duplicate_sku (pcr_sku payload)) else return ())"

definition create_product_insert :: "product_create_request \<Rightarrow> product op" where
  "create_product_insert payload =
     and_then (generate_id ''prod'') (\<lambda>i. and_then now (\<lambda>n.
     and_then (product_create \<lparr>prod_id = i, prod_sku = pcr_sku payload, prod_name = pcr_name payload,
        prod_price = to_numeric (pcr_price payload), prod_created_at = n, prod_updated_at = n\<rparr>) (\<lambda>p.
     and_then (try_except commit (\<lambda>e. case e of
          IntegrityError _ \<Rightarrow> and_then rollback (\<lambda>_. raise (duplicate_sku (pcr_sku payload)))
        | _ \<Rightarrow> raise e)) (\<lambda>_.
     return p))))"

definition create_product :: "product_create_request \<Rightarrow> product op" where
  "create_product payload = and_then (create_product_precheck payload)
     (\<lambda>_. create_product_insert payload)"

definition product_not_found :: "ident \<Rightarrow> exn" where
  "product_not_found product_id = app_err ProductNotFoundError
     (''Product '' @ quoted product_id @ '' was not found'') [(''product_id'', JStr product_id)]"

definition get_product_or_404 :: "ident \<Rightarrow> product op" where
  "get_product_or_404 product_id = and_then (product_get_by_id product_id) (\<lambda>p.
     case p of None \<Rightarrow> raise (product_not_found product_id) | Some p \<Rightarrow> return p)"

subsection \<open>Warehouse service\<close>

definition create_warehouse :: "warehouse_create_request \<Rightarrow> warehouse op" where
  "create_warehouse payload =
     and_then (generate_id ''wh'') (\<lambda>i. and_then now (\<lambda>n.
     and_then (warehouse_create \<lparr>wh_id = i, wh_name = wcr_name payload,
        wh_location = wcr_location payload, wh_created_at = n\<rparr>) (\<lambda>w.
     and_then commit (\<lambda>_. return w))))"

definition warehouse_not_found :: "ident \<Rightarrow> exn" where
  "warehouse_not_found warehouse_id = app_err WarehouseNotFoundError
     (''Warehouse '' @ quoted warehouse_id @ '' was not found'') [(''warehouse_id'', JStr warehouse_id)]"

definition get_warehouse_or_404 :: "ident \<Rightarrow> warehouse op" where
  "get_warehouse_or_404 warehouse_id = and_then (warehouse_get_by_id warehouse_id) (\<lambda>w.
     case w of None \<Rightarrow> raise (warehouse_not_found warehouse_id) | Some w \<Rightarrow> return w)"

subsection \<open>Effects\<close>

lemma create_product_insert_Inr:
  assumes "create_product_insert payload s = (Inr p, s')"
  shows "committed s' = (working s)\<lparr>products := products (working s) @ [p]\<rparr>"
    and "working s' = committed s'"
    and "prod_sku p = pcr_sku payload" "prod_name p = pcr_name payload"
    and "prod_price p = to_numeric (pcr_price payload)" "check_product (working s) p = None"
  using assms
  by (auto simp: create_product_insert_def product_create_def exec_insert_Inr try_except_Inr commit_def)

lemma create_product_Inr:
  assumes "create_product payload s = (Inr p, s')"
  shows "create_product_insert payload s = (Inr p, s')"
    and "pcr_sku payload \<notin> set (map prod_sku (products (working s)))"
  using assms
  by (auto simp: create_product_def create_product_precheck_def product_get_by_sku_def
      select_one_None split: if_splits)

lemma create_warehouse_Inr:
  assumes "create_warehouse payload s = (Inr w, s')"
  shows "committed s' = (working s)\<lparr>warehouses := warehouses (working s) @ [w]\<rparr>"
    and "working s' = committed s'"
    and "wh_name w = wcr_name payload" "wh_location w = wcr_location payload"
    and "check_warehouse (working s) w = None"
  using assms by (auto simp: create_warehouse_def warehouse_create_def exec_insert_Inr)

lemma create_product_insert_Inl:
  "create_product_insert payload s = (Inl e, s') \<Longrightarrow> committed s' = committed s \<and> working s' = working s"
  by (auto simp: create_product_insert_def and_then_Inl product_create_def exec_insert_Inl
      try_except_Inl commit_def)

lemma create_product_Inl:
  "create_product payload s = (Inl e, s') \<Longrightarrow> committed s' = committed s \<and> working s' = working s"
  by (auto simp: create_product_def and_then_Inl create_product_precheck_def product_get_by_sku_def
      dest!: create_product_insert_Inl select_one_Inl split: if_splits)
    (auto simp: select_one_Inr)

lemma create_warehouse_Inl:
  "create_warehouse payload s = (Inl e, s') \<Longrightarrow> committed s' = committed s \<and> working s' = working s"
  by (auto simp: create_warehouse_def and_then_Inl warehouse_create_def exec_insert_Inl)

end
