(* ===== verification/Inventory_Repository.thy ===== *)
theory Inventory_Repository
  imports Session
begin

text \<open>
  \<open>src/repositories/inventory_repository.py\<close>: the guarded UPDATE statements on the \<open>inventory\<close>
  table. Each mutating function reports whether exactly one row matched its WHERE clause. The
  abstract account of a (product, warehouse) pair is the pair of its available and reserved
  quantities; the locale \<open>stock_operation\<close> says that a statement implements a partial function
  on that account, and is interpreted for the four statements that move stock.
\<close>

definition update_inventory ::
  "(inventory_row \<Rightarrow> bool) \<Rightarrow> (inventory_row \<Rightarrow> inventory_row) \<Rightarrow> inventory_row list op" where
  "update_inventory p f = exec_update inventory (\<lambda>t d. d\<lparr>inventory := t\<rparr>) check_inventory_row p
     (\<lambda>n r. (f r)\<lparr>inv_updated_at := n\<rparr>)"

definition inventory_get :: "ident \<Rightarrow> ident \<Rightarrow> inventory_row option op" where
  "inventory_get product_id warehouse_id = select_one inventory
     (\<lambda>r. inv_product_id r = product_id \<and> inv_warehouse_id r = warehouse_id)"

definition inventory_list_for_product :: "ident \<Rightarrow> inventory_row list op" where
  "inventory_list_for_product product_id =
     query (\<lambda>d. filter (\<lambda>r. inv_product_id r = product_id) (inventory d))"

definition find_best_warehouse :: "ident \<Rightarrow> int \<Rightarrow> inventory_row option op" where
  "find_best_warehouse product_id quantity s =
     (scalar_one_or_none (take 1 (sort_key (\<lambda>r. - available_quantity r)
        (filter (\<lambda>r. inv_product_id r = product_id \<and> quantity \<le> available_quantity r)
           (inventory (working s))))), s)"

definition total_available :: "ident \<Rightarrow> int op" where
  "total_available product_id = and_then (inventory_list_for_product product_id)
     (\<lambda>rows. return (sum_list (map available_quantity rows)))"

definition try_reserve :: "ident \<Rightarrow> ident \<Rightarrow> int \<Rightarrow> bool op" where
  "try_reserve product_id warehouse_id quantity = and_then
     (update_inventory
        (\<lambda>r. inv_product_id r = product_id \<and> inv_warehouse_id r = warehouse_id \<and>
             available_quantity r \<ge> quantity)
        (\<lambda>r. r\<lparr>available_quantity := available_quantity r - quantity,
               reserved_quantity := reserved_quantity r + quantity\<rparr>))
     (\<lambda>result. return (length result = 1))"

definition inventory_release :: "ident \<Rightarrow> ident \<Rightarrow> int \<Rightarrow> bool op" where
  "inventory_release product_id warehouse_id quantity = and_then
     (update_inventory
        (\<lambda>r. inv_product_id r = product_id \<and> inv_warehouse_id r = warehouse_id \<and>
             reserved_quantity r \<ge> quantity)
        (\<lambda>r. r\<lparr>available_quantity := available_quantity r + quantity,
               reserved_quantity := reserved_quantity r - quantity\<rparr>))
     (\<lambda>result. return (length result = 1))"

definition inventory_consume :: "ident \<Rightarrow> ident \<Rightarrow> int \<Rightarrow> bool op" where
  "inventory_consume product_id warehouse_id quantity = and_then
     (update_inventory
        (\<lambda>r. inv_product_id r = product_id \<and> inv_warehouse_id r = warehouse_id \<and>
             reserved_quantity r \<ge> quantity)
        (\<lambda>r. r\<lparr>reserved_quantity := reserved_quantity r - quantity\<rparr>))
     (\<lambda>result. return (length result = 1))"

definition adjust_available :: "ident \<Rightarrow> ident \<Rightarrow> int \<Rightarrow> bool op" where
  "adjust_available product_id warehouse_id delta = and_then
     (update_inventory
        (\<lambda>r. inv_product_id r = product_id \<and> inv_warehouse_id r = warehouse_id \<and>
             available_quantity r + delta \<ge> 0)
        (\<lambda>r. r\<lparr>available_quantity := available_quantity r + delta\<rparr>))
     (\<lambda>result. return (length result = 1))"

definition inventory_create :: "inventory_row \<Rightarrow> inventory_row op" where
  "inventory_create = exec_insert inventory (\<lambda>t d. d\<lparr>inventory := t\<rparr>) check_inventory"

definition inventory_set_threshold :: "ident \<Rightarrow> ident \<Rightarrow> int \<Rightarrow> bool op" where
  "inventory_set_threshold product_id warehouse_id threshold = and_then
     (update_inventory
        (\<lambda>r. inv_product_id r = product_id \<and> inv_warehouse_id r = warehouse_id)
        (\<lambda>r. r\<lparr>low_stock_threshold := Some threshold,
               is_low_stock := (available_quantity r \<le> threshold)\<rparr>))
     (\<lambda>result. return (length result = 1))"

text \<open>SQL comparisons with a NULL threshold are not true.\<close>

definition at_or_below_threshold :: "inventory_row \<Rightarrow> bool" where
  "at_or_below_threshold r =
     (case low_stock_threshold r of None \<Rightarrow> False | Some t \<Rightarrow> available_quantity r \<le> t)"

definition above_threshold :: "inventory_row \<Rightarrow> bool" where
  "above_threshold r =
     (case low_stock_threshold r of None \<Rightarrow> False | Some t \<Rightarrow> available_quantity r > t)"

text \<open>\<open>RETURNING available_quantity, low_stock_threshold\<close>, first row or \<open>None\<close>.\<close>

definition try_flip_low_stock :: "ident \<Rightarrow> ident \<Rightarrow> (int \<times> int) option op" where
  "try_flip_low_stock product_id warehouse_id = and_then
     (update_inventory
        (\<lambda>r. inv_product_id r = product_id \<and> inv_warehouse_id r = warehouse_id \<and>
             \<not> is_low_stock r \<and> low_stock_threshold r \<noteq> None \<and> at_or_below_threshold r)
        (\<lambda>r. r\<lparr>is_low_stock := True\<rparr>))
     (\<lambda>result. return (case result of [] \<Rightarrow> None
        | r # _ \<Rightarrow> map_option (\<lambda>t. (available_quantity r, t)) (low_stock_threshold r)))"

definition try_reset_low_stock :: "ident \<Rightarrow> ident \<Rightarrow> bool op" where
  "try_reset_low_stock product_id warehouse_id = and_then
     (update_inventory
        (\<lambda>r. inv_product_id r = product_id \<and> inv_warehouse_id r = warehouse_id \<and>
             is_low_stock r \<and> above_threshold r)
        (\<lambda>r. r\<lparr>is_low_stock := False\<rparr>))
     (\<lambda>result. return (length result = 1))"

lemmas inventory_statements = inventory_get_def inventory_list_for_product_def
  total_available_def try_reserve_def inventory_release_def inventory_consume_def
  adjust_available_def inventory_create_def inventory_set_threshold_def try_flip_low_stock_def
  try_reset_low_stock_def update_inventory_def

lemma in_transaction_find_best_warehouse [in_transaction_intro]:
  "in_transaction (find_best_warehouse p q)"
  by (simp add: in_transaction_def find_best_warehouse_def)

lemma in_transaction_inventory [in_transaction_intro]:
  "in_transaction (inventory_get p w)" "in_transaction (inventory_list_for_product p)"
  "in_transaction (total_available p)"
  "in_transaction (try_reserve p w q)" "in_transaction (inventory_release p w q)"
  "in_transaction (inventory_consume p w q)" "in_transaction (adjust_available p w q)"
  "in_transaction (inventory_create r)" "in_transaction (inventory_set_threshold p w t)"
  "in_transaction (try_flip_low_stock p w)" "in_transaction (try_reset_low_stock p w)"
  unfolding inventory_statements
  by - (intro in_transaction_intro)+

subsection \<open>Warehouse selection\<close>

lemma find_best_warehouse_Some:
  assumes "find_best_warehouse p q s = (Inr (Some r), s')"
  shows "s' = s" "r \<in> set (inventory (working s))" "inv_product_id r = p" "q \<le> available_quantity r"
    "\<And>x. x \<in> set (inventory (working s)) \<Longrightarrow> inv_product_id x = p \<Longrightarrow>
       available_quantity x \<le> available_quantity r"
proof -
  let ?c = "filter (\<lambda>r. inv_product_id r = p \<and> q \<le> available_quantity r) (inventory (working s))"
  let ?o = "sort_key (\<lambda>r. - available_quantity r) ?c"
  from assms obtain rs where o: "?o = r # rs" and s: "s' = s"
    by (cases ?o) (auto simp: find_best_warehouse_def)
  from s show "s' = s" .
  have "r \<in> set ?o" using o by simp
  then have r: "r \<in> set ?c" by simp
  then show "r \<in> set (inventory (working s))" "inv_product_id r = p" "q \<le> available_quantity r"
    by simp_all
  fix x assume x: "x \<in> set (inventory (working s))" "inv_product_id x = p"
  show "available_quantity x \<le> available_quantity r"
  proof (cases "q \<le> available_quantity x")
    case True
    with x have "x \<in> set ?o" by simp
    moreover have "sorted (map (\<lambda>r. - available_quantity r) ?o)" by simp
    ultimately show ?thesis unfolding o by auto
  next
    case False
    with r show ?thesis by simp
  qed
qed

lemma find_best_warehouse_None:
  "find_best_warehouse p q s = (Inr None, s') \<longleftrightarrow> s' = s \<and>
     (\<forall>r\<in>set (inventory (working s)). inv_product_id r = p \<longrightarrow> available_quantity r < q)"
proof -
  let ?c = "filter (\<lambda>r. inv_product_id r = p \<and> q \<le> available_quantity r) (inventory (working s))"
  let ?o = "sort_key (\<lambda>r. - available_quantity r) ?c"
  have "scalar_one_or_none (take 1 ?o) = Inr None \<longleftrightarrow> ?o = []" by (cases ?o) auto
  also have "\<dots> \<longleftrightarrow> set ?o = {}" by (simp only: set_empty)
  also have "\<dots> \<longleftrightarrow> (\<forall>r\<in>set (inventory (working s)). inv_product_id r = p \<longrightarrow> available_quantity r < q)"
    by (auto simp: not_le)
  finally show ?thesis by (auto simp: find_best_warehouse_def)
qed

lemma find_best_warehouse_no_error: "find_best_warehouse p q s \<noteq> (Inl e, s')"
proof -
  have "scalar_one_or_none (take 1 xs) \<noteq> Inl e" for xs :: "inventory_row list"
    by (cases xs) auto
  then show ?thesis by (simp add: find_best_warehouse_def)
qed

subsection \<open>The stock account of a pair\<close>

type_synonym account = "int \<times> int"   \<comment> \<open>available and reserved quantity\<close>

definition row_account :: "inventory_row \<Rightarrow> account" where
  "row_account r = (available_quantity r, reserved_quantity r)"

definition row_ok :: "inventory_row \<Rightarrow> bool" where
  "row_ok r \<longleftrightarrow> check_inventory_row r = None"

text \<open>Two versions of a row that differ in their quantities at most.\<close>

definition same_pair :: "inventory_row \<Rightarrow> inventory_row \<Rightarrow> bool" where
  "same_pair r r' \<longleftrightarrow> inv_id r' = inv_id r \<and> inv_key r' = inv_key r \<and>
     low_stock_threshold r' = low_stock_threshold r \<and> is_low_stock r' = is_low_stock r"

definition account :: "db \<Rightarrow> ident \<times> ident \<Rightarrow> account option" where
  "account d k = map_option row_account (find (\<lambda>r. inv_key r = k) (inventory d))"

definition unique_pairs :: "db \<Rightarrow> bool" where
  "unique_pairs d \<longleftrightarrow> distinct (map inv_key (inventory d))"

lemma find_by_key:
  "distinct (map g t) \<Longrightarrow> r \<in> set t \<Longrightarrow> find (\<lambda>x. g x = g r) t = Some r"
  by (induction t) auto

lemma find_none_key: "k \<notin> g ` set t \<Longrightarrow> find (\<lambda>x. g x = k) t = None"
  by (induction t) auto

lemma account_row:
  "unique_pairs d \<Longrightarrow> r \<in> set (inventory d) \<Longrightarrow> account d (inv_key r) = Some (row_account r)"
  using find_by_key [of inv_key "inventory d" r] by (simp add: unique_pairs_def account_def)

lemma account_none_iff: "account d k = None \<longleftrightarrow> k \<notin> inv_key ` set (inventory d)"
  by (auto simp: account_def find_None_iff)

lemma find_key_Some: "find (\<lambda>r. g r = k) t = Some r \<Longrightarrow> r \<in> set t \<and> g r = k"
  by (auto simp: find_Some_iff)

lemma account_SomeE:
  assumes "account d k = Some a"
  obtains r where "r \<in> set (inventory d)" "inv_key r = k" "row_account r = a"
  using assms find_key_Some [of inv_key k "inventory d"] by (auto simp: account_def)

lemma find_map_key:
  "(\<And>r. r \<in> set t \<Longrightarrow> g (h r) = g r) \<Longrightarrow>
     find (\<lambda>r. g r = k) (map h t) = map_option h (find (\<lambda>r. g r = k) t)"
  by (induction t) auto

lemma account_map:
  assumes "inventory d' = map h (inventory d)"
    and "\<And>r. r \<in> set (inventory d) \<Longrightarrow> inv_key (h r) = inv_key r"
  shows "account d' k = map_option (\<lambda>r. row_account (h r)) (find (\<lambda>r. inv_key r = k) (inventory d))"
  using find_map_key [of "inventory d" inv_key h k] assms
  by (simp add: account_def option.map_comp comp_def)

lemma unique_pairs_map:
  assumes "inventory d' = map h (inventory d)"
    and "\<And>r. r \<in> set (inventory d) \<Longrightarrow> inv_key (h r) = inv_key r" and "unique_pairs d"
  shows "unique_pairs d'"
proof -
  have "map inv_key (inventory d') = map inv_key (inventory d)" using assms(1,2) by simp
  then show ?thesis using assms(3) by (simp add: unique_pairs_def)
qed


fun reserve_spec :: "int \<Rightarrow> account \<Rightarrow> account option" where
  "reserve_spec q (a, v) = (if q \<le> a then Some (a - q, v + q) else None)"

fun release_spec :: "int \<Rightarrow> account \<Rightarrow> account option" where
  "release_spec q (a, v) = (if q \<le> v then Some (a + q, v - q) else None)"

fun consume_spec :: "int \<Rightarrow> account \<Rightarrow> account option" where
  "consume_spec q (a, v) = (if q \<le> v then Some (a, v - q) else None)"

fun adjust_spec :: "int \<Rightarrow> account \<Rightarrow> account option" where
  "adjust_spec q (a, v) = (if 0 \<le> a + q then Some (a + q, v) else None)"

definition set_account :: "account \<Rightarrow> inventory_row \<Rightarrow> inventory_row" where
  "set_account av r = r\<lparr>available_quantity := fst av, reserved_quantity := snd av\<rparr>"

definition stock_update :: "ident \<Rightarrow> ident \<Rightarrow> (account \<Rightarrow> account option) \<Rightarrow> inventory_row list op" where
  "stock_update p w f = update_inventory
     (\<lambda>r. inv_key r = (p, w) \<and> f (row_account r) \<noteq> None)
     (\<lambda>r. case f (row_account r) of None \<Rightarrow> r | Some av \<Rightarrow> set_account av r)"

lemma exec_update_cong:
  assumes "\<And>r. p r = p' r" and "\<And>n r. p r \<Longrightarrow> f n r = f' n r"
  shows "exec_update rows put chk p f = exec_update rows put chk p' f'"
proof
  fix s :: session
  have p: "p = p'" using assms(1) by blast
  have "map (f (clock s)) (filter p t) = map (f' (clock s)) (filter p' t)" for t
    using assms(2) p by (induction t) auto
  moreover have "update_where p (f (clock s)) t = update_where p' (f' (clock s)) t" for t
    using assms(2) p by (induction t) auto
  ultimately show "exec_update rows put chk p f s = exec_update rows put chk p' f' s"
    by (simp add: exec_update_def Let_def cong: option.case_cong)
qed

locale stock_operation =
  fixes step :: "ident \<Rightarrow> ident \<Rightarrow> int \<Rightarrow> bool op"
    and spec :: "int \<Rightarrow> account \<Rightarrow> account option"
  assumes implements:
    "step p w q = and_then (stock_update p w (spec q)) (\<lambda>rs. return (length rs = 1))"
begin

lemma failed: "step p w q s = (Inl e, s') \<Longrightarrow> s' = s"
  by (auto simp: implements and_then_Inl stock_update_def update_inventory_def
      dest: exec_update_Inl)

lemma moved:
  assumes "step p w q s = (Inr True, s')" and u: "unique_pairs (working s)"
  shows "\<exists>h. s' = s\<lparr>working := (working s)\<lparr>inventory := map h (inventory (working s))\<rparr>\<rparr> \<and>
     (p, w) \<in> inv_key ` set (inventory (working s)) \<and>
     (\<forall>r\<in>set (inventory (working s)). same_pair r (h r) \<and>
        (if inv_key r = (p, w) then spec q (row_account r) = Some (row_account (h r)) \<and> row_ok (h r)
         else h r = r))"
proof -
  let ?t = "inventory (working s)"
  let ?p = "\<lambda>r. inv_key r = (p, w) \<and> spec q (row_account r) \<noteq> None"
  let ?g = "\<lambda>r. (case spec q (row_account r) of None \<Rightarrow> r | Some av \<Rightarrow> set_account av r)
    \<lparr>inv_updated_at := clock s\<rparr>"
  let ?h = "\<lambda>r. if ?p r then ?g r else r"
  from assms(1) have s': "s' = s\<lparr>working := (working s)\<lparr>inventory := map ?h ?t\<rparr>\<rparr>"
    and ok: "\<forall>r\<in>set ?t. ?p r \<longrightarrow> row_ok (?g r)"
    and one: "length (filter ?p ?t) = 1"
    by (auto simp: implements stock_update_def update_inventory_def exec_update_Inr
        update_where_def row_ok_def)
  from one obtain x where x: "filter ?p ?t = [x]" by (auto simp: length_Suc_conv)
  then have "x \<in> set (filter ?p ?t)" by simp
  then have xt: "x \<in> set ?t" and px: "?p x" by auto
  have all: "?p r" if "r \<in> set ?t" "inv_key r = (p, w)" for r
    using unique_row [OF u [unfolded unique_pairs_def] that(1) xt] that(2) px by simp
  have "same_pair r (?h r)" for r
    by (auto simp: same_pair_def set_account_def split: option.splits)
  moreover have "spec q (row_account r) = Some (row_account (?h r)) \<and> row_ok (?h r)"
    if "r \<in> set ?t" "inv_key r = (p, w)" for r
    using all [OF that] ok that(1) by (auto simp: set_account_def row_account_def)
  ultimately show ?thesis using s' xt px by (intro exI [of _ ?h]) auto
qed

lemma refused:
  assumes "step p w q s = (Inr False, s')" and u: "unique_pairs (working s)"
  shows "s' = s \<and> (\<forall>r\<in>set (inventory (working s)). inv_key r = (p, w) \<longrightarrow> spec q (row_account r) = None)"
proof -
  let ?t = "inventory (working s)"
  let ?p = "\<lambda>r. inv_key r = (p, w) \<and> spec q (row_account r) \<noteq> None"
  have "length (filter ?p ?t) \<le> 1"
    using u unfolding unique_pairs_def by (rule length_filter_unique) auto
  moreover from assms(1) have "length (filter ?p ?t) \<noteq> 1"
    by (auto simp: implements stock_update_def update_inventory_def exec_update_Inr)
  ultimately have none: "\<forall>r\<in>set ?t. \<not> ?p r" by (auto simp: filter_empty_conv le_Suc_eq)
  then have "s' = s"
    using assms(1) by (auto simp: implements stock_update_def update_inventory_def exec_update_Inr
        update_where_none)
  with none show ?thesis by blast
qed

text \<open>The statement refines the specification: the pair's account moves as specified, no other does.\<close>

lemma account_step:
  assumes run: "step p w q s = (Inr b, s')" and u: "unique_pairs (working s)"
  shows "account (working s') = (if b then (account (working s))
           ((p, w) := Option.bind (account (working s) (p, w)) (spec q)) else account (working s))"
    and "b \<longleftrightarrow> Option.bind (account (working s) (p, w)) (spec q) \<noteq> None"
proof -
  have "account (working s') = (account (working s))
           ((p, w) := Option.bind (account (working s) (p, w)) (spec q)) \<and>
        Option.bind (account (working s) (p, w)) (spec q) \<noteq> None" if b
  proof -
    let ?t = "inventory (working s)"
    from run that have "step p w q s = (Inr True, s')" by simp
    from moved [OF this u] obtain h where
      s': "s' = s\<lparr>working := (working s)\<lparr>inventory := map h ?t\<rparr>\<rparr>"
      and pw: "(p, w) \<in> inv_key ` set ?t"
      and h: "\<forall>r\<in>set ?t. same_pair r (h r) \<and>
        (if inv_key r = (p, w) then spec q (row_account r) = Some (row_account (h r)) \<and> row_ok (h r)
         else h r = r)"
      by blast
    have key: "inv_key (h r) = inv_key r" if "r \<in> set ?t" for r
      using h that by (simp add: same_pair_def)
    have hit: "spec q (row_account r) = Some (row_account (h r))"
      if "r \<in> set ?t" "inv_key r = (p, w)" for r using h that by auto
    have miss: "h r = r" if "r \<in> set ?t" "inv_key r \<noteq> (p, w)" for r using h that by auto
    have acc: "account (working s') k = map_option (\<lambda>r. row_account (h r)) (find (\<lambda>r. inv_key r = k) ?t)"
      for k using key by (intro account_map) (simp_all add: s')
    have other: "account (working s') k = account (working s) k" if "k \<noteq> (p, w)" for k
    proof (cases "find (\<lambda>r. inv_key r = k) ?t")
      case (Some x)
      with find_key_Some [OF Some] that have "h x = x" by (intro miss) auto
      with Some show ?thesis unfolding acc by (simp add: account_def)
    qed (simp add: acc, simp add: account_def)
    have this_pair: "account (working s') (p, w) = Option.bind (account (working s) (p, w)) (spec q) \<and>
        account (working s') (p, w) \<noteq> None"
    proof -
      have "account (working s) (p, w) \<noteq> None" using pw by (simp only: account_none_iff) simp
      then obtain x where x: "find (\<lambda>r. inv_key r = (p, w)) ?t = Some x"
        unfolding account_def by fastforce
      with find_key_Some [OF x] have "spec q (row_account x) = Some (row_account (h x))"
        by (intro hit) auto
      with x show ?thesis unfolding acc by (simp add: account_def)
    qed
    have "account (working s') = (account (working s))
        ((p, w) := Option.bind (account (working s) (p, w)) (spec q))"
    proof
      fix k
      show "account (working s') k = ((account (working s))
          ((p, w) := Option.bind (account (working s) (p, w)) (spec q))) k"
        using other [of k] this_pair by (cases "k = (p, w)") simp_all
    qed
    with this_pair show ?thesis by simp
  qed
  moreover have "s' = s \<and> Option.bind (account (working s) (p, w)) (spec q) = None" if "\<not> b"
  proof -
    from run that have "step p w q s = (Inr False, s')" by simp
    from refused [OF this u] show ?thesis
      by (cases "account (working s) (p, w)") (auto elim!: account_SomeE)
  qed
  ultimately show "account (working s') = (if b then (account (working s))
           ((p, w) := Option.bind (account (working s) (p, w)) (spec q)) else account (working s))"
    and "b \<longleftrightarrow> Option.bind (account (working s) (p, w)) (spec q) \<noteq> None"
    by (cases b; simp)+
qed

end

interpretation reserving: stock_operation try_reserve reserve_spec
proof
  fix p w q
  show "try_reserve p w q =
      and_then (stock_update p w (reserve_spec q)) (\<lambda>rs. return (length rs = 1))"
    unfolding try_reserve_def stock_update_def update_inventory_def
    by (rule arg_cong [where f = "\<lambda>m. and_then m _"], rule exec_update_cong)
      (auto simp: row_account_def set_account_def)
qed

interpretation releasing: stock_operation inventory_release release_spec
proof
  fix p w q
  show "inventory_release p w q =
      and_then (stock_update p w (release_spec q)) (\<lambda>rs. return (length rs = 1))"
    unfolding inventory_release_def stock_update_def update_inventory_def
    by (rule arg_cong [where f = "\<lambda>m. and_then m _"], rule exec_update_cong)
      (auto simp: row_account_def set_account_def)
qed

interpretation consuming: stock_operation inventory_consume consume_spec
proof
  fix p w q
  show "inventory_consume p w q =
      and_then (stock_update p w (consume_spec q)) (\<lambda>rs. return (length rs = 1))"
    unfolding inventory_consume_def stock_update_def update_inventory_def
    by (rule arg_cong [where f = "\<lambda>m. and_then m _"], rule exec_update_cong)
      (auto simp: row_account_def set_account_def)
qed

interpretation adjusting: stock_operation adjust_available adjust_spec
proof
  fix p w q
  show "adjust_available p w q =
      and_then (stock_update p w (adjust_spec q)) (\<lambda>rs. return (length rs = 1))"
    unfolding adjust_available_def stock_update_def update_inventory_def
    by (rule arg_cong [where f = "\<lambda>m. and_then m _"], rule exec_update_cong)
      (auto simp: row_account_def set_account_def)
qed

subsection \<open>Flag updates\<close>

text \<open>Versions of a row that differ in the low-stock flag at most.\<close>

definition same_stock :: "inventory_row \<Rightarrow> inventory_row \<Rightarrow> bool" where
  "same_stock r r' \<longleftrightarrow> inv_id r' = inv_id r \<and> inv_key r' = inv_key r \<and>
     row_account r' = row_account r \<and> low_stock_threshold r' = low_stock_threshold r"

lemma try_flip_low_stock_None:
  assumes "try_flip_low_stock p w s = (Inr None, s')"
  shows "s' = s \<and> (\<forall>r\<in>set (inventory (working s)).
    inv_key r = (p, w) \<longrightarrow> is_low_stock r \<or> \<not> at_or_below_threshold r)"
proof -
  let ?p = "\<lambda>r. inv_product_id r = p \<and> inv_warehouse_id r = w \<and>
    \<not> is_low_stock r \<and> low_stock_threshold r \<noteq> None \<and> at_or_below_threshold r"
  have "filter ?p (inventory (working s)) = []"
  proof (cases "filter ?p (inventory (working s))")
    case (Cons x xs)
    then have "x \<in> set (filter ?p (inventory (working s)))" by simp
    then have "low_stock_threshold x \<noteq> None" by simp
    with Cons assms show ?thesis
      by (auto simp: try_flip_low_stock_def update_inventory_def exec_update_Inr)
  qed simp
  then have none: "\<forall>r\<in>set (inventory (working s)). \<not> ?p r" by (simp add: filter_empty_conv)
  then have "s' = s"
    using assms by (auto simp: try_flip_low_stock_def update_inventory_def exec_update_Inr
        update_where_none)
  with none show ?thesis by (auto simp: at_or_below_threshold_def split: option.splits)
qed

lemma try_flip_low_stock_Some:
  assumes run: "try_flip_low_stock p w s = (Inr (Some (a, t)), s')" and u: "unique_pairs (working s)"
  shows "\<exists>h. s' = s\<lparr>working := (working s)\<lparr>inventory := map h (inventory (working s))\<rparr>\<rparr> \<and>
     (p, w) \<in> inv_key ` set (inventory (working s)) \<and>
     (\<forall>r\<in>set (inventory (working s)). same_stock r (h r) \<and>
        (if inv_key r = (p, w)
         then \<not> is_low_stock r \<and> is_low_stock (h r) \<and> low_stock_threshold r = Some t \<and>
              available_quantity r = a \<and> a \<le> t
         else h r = r))"
proof -
  let ?t = "inventory (working s)"
  let ?p = "\<lambda>r. inv_product_id r = p \<and> inv_warehouse_id r = w \<and>
    \<not> is_low_stock r \<and> low_stock_threshold r \<noteq> None \<and> at_or_below_threshold r"
  let ?g = "\<lambda>r. r\<lparr>is_low_stock := True, inv_updated_at := clock s\<rparr>"
  let ?h = "\<lambda>r. if ?p r then ?g r else r"
  from run have s': "s' = s\<lparr>working := (working s)\<lparr>inventory := map ?h ?t\<rparr>\<rparr>"
    and res: "(case map ?g (filter ?p ?t) of [] \<Rightarrow> None
        | r # _ \<Rightarrow> map_option (\<lambda>t. (available_quantity r, t)) (low_stock_threshold r)) = Some (a, t)"
    by (auto simp: try_flip_low_stock_def update_inventory_def exec_update_Inr update_where_def)
  from res obtain x xs where x: "filter ?p ?t = x # xs" and av: "available_quantity x = a"
    and th: "low_stock_threshold x = Some t"
    by (auto split: list.splits)
  from x have "x \<in> set (filter ?p ?t)" by simp
  then have xt: "x \<in> set ?t" and px: "?p x" by auto
  have all: "r = x" if "r \<in> set ?t" "inv_key r = (p, w)" for r
    using unique_row [OF u [unfolded unique_pairs_def] that(1) xt] that(2) px by simp
  have "(p, w) \<in> inv_key ` set ?t" using xt px by force
  moreover have "same_stock r (?h r)" for r
    by (auto simp: same_stock_def row_account_def)
  moreover have "a \<le> t" using px av th by (simp add: at_or_below_threshold_def)
  moreover have "if inv_key r = (p, w)
         then \<not> is_low_stock r \<and> is_low_stock (?h r) \<and> low_stock_threshold r = Some t \<and>
              available_quantity r = a \<and> a \<le> t
         else ?h r = r" if "r \<in> set ?t" for r
  proof (cases "inv_key r = (p, w)")
    case True
    with all that have "r = x" by blast
    with px av th \<open>a \<le> t\<close> show ?thesis by simp
  qed auto
  ultimately show ?thesis using s' by (intro exI [of _ ?h]) blast
qed

lemma try_flip_low_stock_failed: "try_flip_low_stock p w s = (Inl e, s') \<Longrightarrow> s' = s"
  by (auto simp: try_flip_low_stock_def and_then_Inl update_inventory_def dest: exec_update_Inl)

lemma try_reset_low_stock_effect:
  assumes "try_reset_low_stock p w s = (Inr b, s')"
  shows "\<exists>h. s' = s\<lparr>working := (working s)\<lparr>inventory := map h (inventory (working s))\<rparr>\<rparr> \<and>
     (\<forall>r\<in>set (inventory (working s)). same_stock r (h r) \<and>
        (if inv_key r = (p, w)
         then is_low_stock (h r) = (is_low_stock r \<and> \<not> above_threshold r)
         else h r = r))"
proof -
  let ?t = "inventory (working s)"
  let ?p = "\<lambda>r. inv_product_id r = p \<and> inv_warehouse_id r = w \<and> is_low_stock r \<and> above_threshold r"
  let ?h = "\<lambda>r. if ?p r then r\<lparr>is_low_stock := False, inv_updated_at := clock s\<rparr> else r"
  from assms have s': "s' = s\<lparr>working := (working s)\<lparr>inventory := map ?h ?t\<rparr>\<rparr>"
    by (auto simp: try_reset_low_stock_def update_inventory_def exec_update_Inr update_where_def)
  have "same_stock r (?h r)" for r by (auto simp: same_stock_def row_account_def)
  with s' show ?thesis by (intro exI [of _ ?h]) auto
qed

lemma try_reset_low_stock_failed: "try_reset_low_stock p w s = (Inl e, s') \<Longrightarrow> s' = s"
  by (auto simp: try_reset_low_stock_def and_then_Inl update_inventory_def dest: exec_update_Inl)

end
