(* ===== verification/Reservation_Repository.thy ===== *)
theory Reservation_Repository
  imports Session
begin

text \<open>
  \<open>src/repositories/reservation_repository.py\<close>. Every transition is guarded by \<open>status = ACTIVE\<close>,
  except the second statement of \<open>claim_expired_batch\<close>, which updates the rows the first one
  selected (and locked). \<open>held\<close> is the stock the active reservations of a pair hold.
\<close>

definition update_reservations ::
  "(reservation \<Rightarrow> bool) \<Rightarrow> (time \<Rightarrow> reservation \<Rightarrow> reservation) \<Rightarrow> reservation list op" where
  "update_reservations = exec_update reservations (\<lambda>t d. d\<lparr>reservations := t\<rparr>) (\<lambda>_. None)"

definition reservation_get_by_id :: "ident \<Rightarrow> reservation option op" where
  "reservation_get_by_id reservation_id =
     select_one reservations (\<lambda>r. resv_id r = reservation_id)"

definition list_active_for_order :: "ident \<Rightarrow> reservation list op" where
  "list_active_for_order order_id = query (\<lambda>d.
     filter (\<lambda>r. resv_order_id r = order_id \<and> resv_status r = ACTIVE) (reservations d))"

definition reservation_create :: "reservation \<Rightarrow> reservation op" where
  "reservation_create = exec_insert reservations (\<lambda>t d. d\<lparr>reservations := t\<rparr>) check_reservation"

definition mark_released :: "ident \<Rightarrow> bool op" where
  "mark_released reservation_id = and_then
     (update_reservations (\<lambda>r. resv_id r = reservation_id \<and> resv_status r = ACTIVE)
        (\<lambda>n r. r\<lparr>resv_status := RELEASED, resv_released_at := Some n\<rparr>))
     (\<lambda>result. return (length result = 1))"

definition mark_consumed :: "ident \<Rightarrow> bool op" where
  "mark_consumed reservation_id = and_then
     (update_reservations (\<lambda>r. resv_id r = reservation_id \<and> resv_status r = ACTIVE)
        (\<lambda>n r. r\<lparr>resv_status := CONSUMED\<rparr>))
     (\<lambda>result. return (length result = 1))"

text \<open>SQL leaves the choice of the batch open when more than \<open>limit\<close> rows qualify; here the first of the table are
  taken, and no row is skipped as locked.\<close>

definition claim_expired_batch :: "time \<Rightarrow> nat \<Rightarrow> reservation list op" where
  "claim_expired_batch n limit = and_then
     (query (\<lambda>d. map resv_id (take limit
        (filter (\<lambda>r. resv_status r = ACTIVE \<and> resv_expires_at r < n) (reservations d)))))
     (\<lambda>claimed_ids.
        if claimed_ids = [] then return []
        else update_reservations (\<lambda>r. resv_id r \<in> set claimed_ids)
               (\<lambda>_ r. r\<lparr>resv_status := RELEASED, resv_released_at := Some n\<rparr>))"

lemmas reservation_statements = reservation_get_by_id_def list_active_for_order_def
  reservation_create_def mark_released_def mark_consumed_def claim_expired_batch_def
  update_reservations_def

lemma in_transaction_reservations [in_transaction_intro]:
  "in_transaction (reservation_get_by_id i)" "in_transaction (list_active_for_order i)"
  "in_transaction (reservation_create r)" "in_transaction (mark_released i)"
  "in_transaction (mark_consumed i)" "in_transaction (claim_expired_batch n l)"
  unfolding reservation_statements by - (intro in_transaction_intro)+

subsection \<open>Stock held by active reservations\<close>

definition quantity_of :: "ident \<times> ident \<Rightarrow> reservation list \<Rightarrow> int" where
  "quantity_of k = sum_where (\<lambda>r. resv_key r = k) resv_quantity"

definition held :: "db \<Rightarrow> ident \<times> ident \<Rightarrow> int" where
  "held d k = sum_where (\<lambda>r. resv_status r = ACTIVE \<and> resv_key r = k) resv_quantity (reservations d)"

lemma quantity_of_simps [simp]:
  "quantity_of k [] = 0"
  "quantity_of k (r # rs) = (if resv_key r = k then resv_quantity r else 0) + quantity_of k rs"
  "quantity_of k (rs @ rs') = quantity_of k rs + quantity_of k rs'"
  by (simp_all add: quantity_of_def)

lemma quantity_of_nonneg: "\<forall>r\<in>set rs. 0 < resv_quantity r \<Longrightarrow> 0 \<le> quantity_of k rs"
  by (induction rs) auto

lemma held_nonneg: "\<forall>r\<in>set (reservations d). 0 < resv_quantity r \<Longrightarrow> 0 \<le> held d k"
  unfolding held_def by (rule sum_where_nonneg) auto

text \<open>
  Settling one reservation: the \<open>ACTIVE\<close> guard makes the transition happen at most once, and the
  row leaves the held stock by exactly its quantity.
\<close>

definition settled_as :: "(reservation \<Rightarrow> reservation) \<Rightarrow> bool" where
  "settled_as f \<longleftrightarrow> (\<forall>r. resv_status (f r) \<noteq> ACTIVE \<and> resv_id (f r) = resv_id r \<and>
     resv_order_id (f r) = resv_order_id r \<and> resv_key (f r) = resv_key r \<and>
     resv_quantity (f r) = resv_quantity r)"

lemma held_settle:
  assumes "settled_as f" and "reservations d' = update_where q f (reservations d)"
  shows "held d k = held d' k +
    sum_where (\<lambda>r. resv_status r = ACTIVE \<and> resv_key r = k \<and> q r) resv_quantity (reservations d)"
proof -
  have "held d' k = sum_where (\<lambda>r. (resv_status r = ACTIVE \<and> resv_key r = k) \<and> \<not> q r) resv_quantity
      (reservations d)"
    unfolding held_def assms(2) using assms(1)
    by (intro sum_where_update_out) (simp add: settled_as_def)
  moreover have "held d k =
      sum_where (\<lambda>r. (resv_status r = ACTIVE \<and> resv_key r = k) \<and> q r) resv_quantity (reservations d) +
      sum_where (\<lambda>r. (resv_status r = ACTIVE \<and> resv_key r = k) \<and> \<not> q r) resv_quantity (reservations d)"
    unfolding held_def by (rule sum_where_split)
  ultimately show ?thesis by (simp add: conj_assoc)
qed

lemma settle_active:
  assumes run: "and_then (update_reservations (\<lambda>r. resv_id r = i \<and> resv_status r = ACTIVE) f)
      (\<lambda>result. return (length result = 1)) s = (Inr b, s')"
    and dist: "distinct (map resv_id (reservations (working s)))"
    and settled: "settled_as (f (clock s))"
  shows "if b then \<exists>x\<in>set (reservations (working s)). resv_id x = i \<and> resv_status x = ACTIVE \<and>
           s' = s\<lparr>working := (working s)\<lparr>reservations :=
              update_where (\<lambda>r. resv_id r = i) (f (clock s)) (reservations (working s))\<rparr>\<rparr> \<and>
           (\<forall>k. held (working s) k = held (working s') k + quantity_of k [x])
         else s' = s \<and> (\<forall>r\<in>set (reservations (working s)). resv_id r = i \<longrightarrow> resv_status r \<noteq> ACTIVE)"
proof -
  let ?t = "reservations (working s)"
  let ?q = "\<lambda>r. resv_id r = i \<and> resv_status r = ACTIVE"
  from run have s': "s' = s\<lparr>working := (working s)\<lparr>reservations := update_where ?q (f (clock s)) ?t\<rparr>\<rparr>"
    and b: "b \<longleftrightarrow> length (filter ?q ?t) = 1"
    by (auto simp: update_reservations_def exec_update_Inr)
  show ?thesis
  proof (cases b)
    case True
    with b obtain x where "filter ?q ?t = [x]" by (auto simp: length_Suc_conv)
    then have "x \<in> set (filter ?q ?t)" by simp
    then have x: "x \<in> set ?t" "?q x" by auto
    have only: "r = x" if "r \<in> set ?t" "resv_id r = i" for r
      using unique_row [OF dist that(1) x(1)] that(2) x(2) by simp
    have "update_where ?q (f (clock s)) ?t = update_where (\<lambda>r. resv_id r = i) (f (clock s)) ?t"
      using only x(2) by (auto simp: update_where_def)
    moreover have "held (working s) k = held (working s') k + quantity_of k [x]" for k
    proof -
      have "sum_where (\<lambda>r. resv_status r = ACTIVE \<and> resv_key r = k \<and> ?q r) resv_quantity ?t =
          sum_where (\<lambda>r. resv_key r = k) resv_quantity (filter ?q ?t)"
        unfolding sum_where_filter by (rule sum_where_cong) auto
      then show ?thesis
        using held_settle [OF settled, of "working s'" ?q "working s" k] \<open>filter ?q ?t = [x]\<close>
        by (simp add: s' quantity_of_def)
    qed
    ultimately show ?thesis using True x s' by auto
  next
    case False
    have "length (filter ?q ?t) \<le> 1"
      using dist by (rule length_filter_unique) simp
    with False b have none: "\<forall>r\<in>set ?t. \<not> ?q r" by (auto simp: le_Suc_eq filter_empty_conv)
    then have "s' = s" by (simp add: s' update_where_none)
    with False none show ?thesis by auto
  qed
qed

lemma settled_released: "settled_as (\<lambda>r. r\<lparr>resv_status := RELEASED, resv_released_at := Some n\<rparr>)"
  and settled_consumed: "settled_as (\<lambda>r. r\<lparr>resv_status := CONSUMED\<rparr>)"
  by (simp_all add: settled_as_def)

lemmas mark_released_effect = settle_active [where f =
    "\<lambda>n r. r\<lparr>resv_status := RELEASED, resv_released_at := Some n\<rparr>", folded mark_released_def,
    OF _ _ settled_released]

lemmas mark_consumed_effect = settle_active [where f = "\<lambda>n r. r\<lparr>resv_status := CONSUMED\<rparr>",
    folded mark_consumed_def, OF _ _ settled_consumed]

lemma mark_failed: "mark_released i s = (Inl e, s') \<Longrightarrow> s' = s"
  "mark_consumed i s = (Inl e, s') \<Longrightarrow> s' = s"
  by (auto simp: reservation_statements and_then_Inl dest: exec_update_Inl)

subsection \<open>Claiming expired reservations\<close>

lemma claim_expired_batch_effect:
  assumes run: "claim_expired_batch n limit s = (Inr claimed, s')"
    and dist: "distinct (map resv_id (reservations (working s)))"
  defines "ids \<equiv> set (map resv_id (take limit
        (filter (\<lambda>r. resv_status r = ACTIVE \<and> resv_expires_at r < n) (reservations (working s)))))"
  shows "s' = s\<lparr>working := (working s)\<lparr>reservations := update_where (\<lambda>r. resv_id r \<in> ids)
       (\<lambda>r. r\<lparr>resv_status := RELEASED, resv_released_at := Some n\<rparr>) (reservations (working s))\<rparr>\<rparr>"
    and "claimed = map (\<lambda>r. r\<lparr>resv_status := RELEASED, resv_released_at := Some n\<rparr>)
       (filter (\<lambda>r. resv_id r \<in> ids) (reservations (working s)))"
    and "\<And>r. r \<in> set (reservations (working s)) \<Longrightarrow> resv_id r \<in> ids \<Longrightarrow>
       resv_status r = ACTIVE \<and> resv_expires_at r < n"
    and "held (working s) k = held (working s') k + quantity_of k claimed"
proof -
  let ?t = "reservations (working s)"
  let ?c = "take limit (filter (\<lambda>r. resv_status r = ACTIVE \<and> resv_expires_at r < n) ?t)"
  let ?f = "\<lambda>r. r\<lparr>resv_status := RELEASED, resv_released_at := Some n\<rparr>"
  have empty: "ids = {} \<longleftrightarrow> ?c = []" by (auto simp: ids_def)
  show s': "s' = s\<lparr>working := (working s)\<lparr>reservations := update_where (\<lambda>r. resv_id r \<in> ids) ?f ?t\<rparr>\<rparr>"
    using run empty by (auto simp: claim_expired_batch_def update_reservations_def exec_update_Inr
        update_where_none ids_def split: if_splits)
  show c: "claimed = map ?f (filter (\<lambda>r. resv_id r \<in> ids) ?t)"
    using run empty by (auto simp: claim_expired_batch_def update_reservations_def exec_update_Inr
        ids_def filter_empty_conv split: if_splits)
  show act: "resv_status r = ACTIVE \<and> resv_expires_at r < n" if "r \<in> set ?t" "resv_id r \<in> ids" for r
  proof -
    from that(2) obtain x where "x \<in> set ?c" "resv_id x = resv_id r" by (auto simp: ids_def)
    moreover have "x \<in> set ?t" "resv_status x = ACTIVE \<and> resv_expires_at x < n"
      using set_take_subset [of limit] \<open>x \<in> set ?c\<close> by (auto dest: in_set_takeD)
    ultimately show ?thesis using unique_row [OF dist that(1)] by metis
  qed
  have "sum_where (\<lambda>r. resv_status r = ACTIVE \<and> resv_key r = k \<and> resv_id r \<in> ids) resv_quantity ?t =
      quantity_of k claimed"
    unfolding quantity_of_def c sum_where_map sum_where_filter
    using act by (intro sum_where_cong) auto
  then show "held (working s) k = held (working s') k + quantity_of k claimed"
    using held_settle [OF settled_released, of "working s'" "\<lambda>r. resv_id r \<in> ids" n "working s" k]
    by (simp add: s')
qed

lemma claim_failed: "claim_expired_batch n limit s = (Inl e, s') \<Longrightarrow> s' = s"
  by (auto simp: reservation_statements and_then_Inl dest: exec_update_Inl split: if_splits)

end
