(* ===== verification/Log_Repositories.thy ===== *)
theory Log_Repositories
  imports Session
begin

text \<open>
  The append-only tables: \<open>audit_repository.py\<close>, \<open>low_stock_alert_repository.py\<close>,
  \<open>outbox_repository.py\<close> and \<open>dead_letter_repository.py\<close> under \<open>src/repositories/\<close>. Only the
  status of an outbox event is ever updated.
\<close>

definition audit_record ::
  "ident \<Rightarrow> ident \<Rightarrow> int \<Rightarrow> audit_event_type \<Rightarrow> string \<Rightarrow> audit_log op" where
  "audit_record product_id warehouse_id change event_type reference_id =
     and_then (generate_id ''audit'') (\<lambda>i. and_then now (\<lambda>n.
       exec_insert audit_logs (\<lambda>t d. d\<lparr>audit_logs := t\<rparr>) check_audit_log
         \<lparr>audit_id = i, audit_product_id = product_id, audit_warehouse_id = warehouse_id,
          audit_change = change, audit_type = event_type, audit_reference_id = reference_id,
          audit_created_at = n\<rparr>))"

definition audit_list_for_product :: "ident \<Rightarrow> nat \<Rightarrow> audit_log list op" where
  "audit_list_for_product product_id limit = query (\<lambda>d.
     take limit (sort_key (\<lambda>a. - audit_created_at a)
       (filter (\<lambda>a. audit_product_id a = product_id) (audit_logs d))))"

definition low_stock_alert_create :: "ident \<Rightarrow> ident \<Rightarrow> int \<Rightarrow> int \<Rightarrow> low_stock_alert op" where
  "low_stock_alert_create product_id warehouse_id quantity_at_alert threshold =
     and_then (generate_id ''lsa'') (\<lambda>i. and_then now (\<lambda>n.
       exec_insert low_stock_alerts (\<lambda>t d. d\<lparr>low_stock_alerts := t\<rparr>) check_low_stock_alert
         \<lparr>lsa_id = i, lsa_product_id = product_id, lsa_warehouse_id = warehouse_id,
          lsa_quantity_at_alert = quantity_at_alert, lsa_threshold = threshold,
          lsa_created_at = n\<rparr>))"

definition low_stock_alert_list_recent :: "ident option \<Rightarrow> nat \<Rightarrow> low_stock_alert list op" where
  "low_stock_alert_list_recent warehouse_id limit = query (\<lambda>d.
     take limit (sort_key (\<lambda>a. - lsa_created_at a)
       (filter (\<lambda>a. case warehouse_id of None \<Rightarrow> True | Some w \<Rightarrow> lsa_warehouse_id a = w)
         (low_stock_alerts d))))"

definition outbox_create :: "string \<Rightarrow> ident \<Rightarrow> string \<Rightarrow> json \<Rightarrow> outbox_event op" where
  "outbox_create aggregate_type aggregate_id event_type payload =
     and_then (generate_id ''outbox'') (\<lambda>i. and_then now (\<lambda>n.
       exec_insert outbox_events (\<lambda>t d. d\<lparr>outbox_events := t\<rparr>) check_outbox_event
         \<lparr>evt_id = i, evt_aggregate_type = aggregate_type, evt_aggregate_id = aggregate_id,
          evt_event_type = event_type, evt_payload = payload, evt_status = OUTBOX_PENDING,
          evt_created_at = n, evt_published_at = None\<rparr>))"

definition claim_pending_batch :: "nat \<Rightarrow> outbox_event list op" where
  "claim_pending_batch limit = query (\<lambda>d.
     take limit (sort_key evt_created_at
       (filter (\<lambda>e. evt_status e = OUTBOX_PENDING) (outbox_events d))))"

definition mark_published :: "ident \<Rightarrow> unit op" where
  "mark_published event_id = and_then
     (exec_update outbox_events (\<lambda>t d. d\<lparr>outbox_events := t\<rparr>) (\<lambda>_. None)
        (\<lambda>e. evt_id e = event_id)
        (\<lambda>n e. e\<lparr>evt_status := OUTBOX_PUBLISHED, evt_published_at := Some n\<rparr>))
     (\<lambda>_. return ())"

definition dead_letter_record :: "ident \<Rightarrow> string \<Rightarrow> int \<Rightarrow> dead_letter op" where
  "dead_letter_record order_id reason attempts =
     and_then (generate_id ''dlq'') (\<lambda>i. and_then now (\<lambda>n.
       exec_insert dead_letters (\<lambda>t d. d\<lparr>dead_letters := t\<rparr>) check_dead_letter
         \<lparr>dlq_id = i, dlq_order_id = order_id, dlq_reason = reason, dlq_attempts = attempts,
          dlq_created_at = n\<rparr>))"

lemmas log_statements = audit_record_def audit_list_for_product_def low_stock_alert_create_def
  low_stock_alert_list_recent_def outbox_create_def claim_pending_batch_def mark_published_def
  dead_letter_record_def

lemma in_transaction_logs [in_transaction_intro]:
  "in_transaction (audit_record p w c k ref)" "in_transaction (audit_list_for_product p n)"
  "in_transaction (low_stock_alert_create p w q t)" "in_transaction (low_stock_alert_list_recent w' n)"
  "in_transaction (outbox_create at i et j)" "in_transaction (claim_pending_batch n)"
  "in_transaction (mark_published i)" "in_transaction (dead_letter_record i ref q)"
  unfolding log_statements by - (intro in_transaction_intro)+

lemma audit_record_effect:
  assumes "audit_record p w c k ref s = (Inr a, s')"
  shows "working s' = (working s)\<lparr>audit_logs := audit_logs (working s) @ [a]\<rparr>"
    and "audit_product_id a = p" "audit_warehouse_id a = w" "audit_change a = c" "audit_type a = k"
    and "audit_reference_id a = ref" "varchar 64 ref"
  using assms by (auto simp: audit_record_def exec_insert_Inr check_audit_log_def split: if_splits)

lemma low_stock_alert_create_effect:
  assumes "low_stock_alert_create p w q t s = (Inr a, s')"
  shows "working s' = (working s)\<lparr>low_stock_alerts := low_stock_alerts (working s) @ [a]\<rparr>"
    and "lsa_product_id a = p" "lsa_warehouse_id a = w" "lsa_quantity_at_alert a = q"
    and "lsa_threshold a = t"
  using assms by (auto simp: low_stock_alert_create_def exec_insert_Inr)

lemma outbox_create_effect:
  assumes "outbox_create at i et j s = (Inr e, s')"
  shows "working s' = (working s)\<lparr>outbox_events := outbox_events (working s) @ [e]\<rparr>"
    and "evt_aggregate_type e = at" "evt_aggregate_id e = i" "evt_event_type e = et"
    and "evt_payload e = j" "evt_status e = OUTBOX_PENDING"
    and "evt_id e \<notin> evt_id ` set (outbox_events (working s))"
  using assms by (auto simp: outbox_create_def exec_insert_Inr check_outbox_event_def split: if_splits)

lemma dead_letter_record_effect:
  assumes "dead_letter_record i ref n s = (Inr x, s')"
  shows "working s' = (working s)\<lparr>dead_letters := dead_letters (working s) @ [x]\<rparr>"
    and "dlq_order_id x = i" "dlq_reason x = ref" "dlq_attempts x = n"
  using assms by (auto simp: dead_letter_record_def exec_insert_Inr)

end
