(* ===== verification/Inventory_Service.thy ===== *)
theory Inventory_Service
  imports Catalog Inventory_Repository Reservation_Repository Log_Repositories
begin

text \<open>
  \<open>src/services/inventory_service.py\<close>: adjustments, and the reserve / release / consume
  operations that order creation and the workers compose inside their own transactions. Every
  change of stock is a \<open>stock_event\<close>: the account of one pair moves as its specification says, one
  audit record is appended, and the low-stock flag and alerts follow the direction of the change.
\<close>

definition low_stock_payload :: "low_stock_alert \<Rightarrow> json" where
  "low_stock_payload a = JObj [(''alert_id'', JStr (lsa_id a)),
     (''product_id'', JStr (lsa_product_id a)), (''warehouse_id'', JStr (lsa_warehouse_id a)),
     (''quantity_at_alert'', JInt (lsa_quantity_at_alert a)), (''threshold'', JInt (lsa_threshold a))]"

definition check_low_stock_transition :: "ident \<Rightarrow> ident \<Rightarrow> int \<Rightarrow> unit op" where
  "check_low_stock_transition product_id warehouse_id delta =
     (if delta < 0 then
        and_then (try_flip_low_stock product_id warehouse_id) (\<lambda>flip. case flip of
            None \<Rightarrow> return ()
          | Some (available, threshold) \<Rightarrow>
              and_then (low_stock_alert_create product_id warehouse_id available threshold) (\<lambda>alert.
              and_then (outbox_create ''low_stock_alert'' (lsa_id alert) ''LOW_STOCK_ALERT_CREATED''
                 (JObj [(''alert_id'', JStr (lsa_id alert)), (''product_id'', JStr product_id),
                    (''warehouse_id'', JStr warehouse_id), (''quantity_at_alert'', JInt available),
                    (''threshold'', JInt threshold)])) (\<lambda>_.
              return ())))
      else if delta > 0 then
        and_then (try_reset_low_stock product_id warehouse_id) (\<lambda>_. return ())
      else return ())"

definition reserve :: "ident \<Rightarrow> ident \<Rightarrow> int \<Rightarrow> ident \<Rightarrow> bool op" where
  "reserve product_id warehouse_id quantity order_id =
     and_then (try_reserve product_id warehouse_id quantity) (\<lambda>ok.
       if ok then
         and_then (audit_record product_id warehouse_id (- quantity) INVENTORY_RESERVED order_id) (\<lambda>_.
         and_then (check_low_stock_transition product_id warehouse_id (- quantity)) (\<lambda>_.
         return ok))
       else return ok)"

definition release_reservation :: "reservation \<Rightarrow> string \<Rightarrow> bool op" where
  "release_reservation r reference_id =
     and_then (mark_released (resv_id r)) (\<lambda>marked.
       if \<not> marked then return False
       else
         and_then (inventory_release (resv_product_id r) (resv_warehouse_id r) (resv_quantity r)) (\<lambda>_.
         and_then (audit_record (resv_product_id r) (resv_warehouse_id r) (resv_quantity r)
            RESERVATION_RELEASED reference_id) (\<lambda>_.
         and_then (check_low_stock_transition (resv_product_id r) (resv_warehouse_id r)
            (resv_quantity r)) (\<lambda>_.
         return True))))"

definition consume_reservation :: "reservation \<Rightarrow> ident \<Rightarrow> bool op" where
  "consume_reservation r order_id =
     and_then (mark_consumed (resv_id r)) (\<lambda>marked.
       if \<not> marked then return False
       else
         and_then (inventory_consume (resv_product_id r) (resv_warehouse_id r) (resv_quantity r)) (\<lambda>_.
         and_then (audit_record (resv_product_id r) (resv_warehouse_id r) (- resv_quantity r)
            ORDER_COMPLETED order_id) (\<lambda>_.
         return True)))"

subsection \<open>Adjustments and retrieval\<close>

record adjustment_request =
  adj_product_id :: ident
  adj_warehouse_id :: ident
  adj_quantity :: int
  adj_reason :: string

definition valid_adjustment_request :: "adjustment_request \<Rightarrow> bool" where
  "valid_adjustment_request p \<longleftrightarrow> 1 \<le> length (adj_reason p) \<and> length (adj_reason p) \<le> 255"

definition refresh_inventory :: "inventory_row \<Rightarrow> inventory_row op" where
  "refresh_inventory row = and_then (select_one inventory (\<lambda>r. inv_id r = inv_id row)) (\<lambda>found.
     case found of None \<Rightarrow> raise RefreshError | Some r \<Rightarrow> return r)"

definition adjustment_event_type :: "int \<Rightarrow> audit_event_type" where
  "adjustment_event_type quantity = (if quantity \<ge> 0 then STOCK_ADDED else STOCK_REMOVED)"

definition pair_details :: "ident \<Rightarrow> ident \<Rightarrow> (string \<times> json) list" where
  "pair_details p w = [(''product_id'', JStr p), (''warehouse_id'', JStr w)]"

text \<open>The new row of a pair's first adjustment, and the update of an existing one.\<close>

definition adjust_new_pair :: "adjustment_request \<Rightarrow> inventory_row op" where
  "adjust_new_pair p =
     (if adj_quantity p < 0 then
        raise (app_err InvalidRequestError
          ''Cannot apply a negative adjustment to inventory that does not exist yet''
          (pair_details (adj_product_id p) (adj_warehouse_id p)))
      else and_then (generate_id ''inv'') (\<lambda>i. and_then now (\<lambda>n.
        inventory_create \<lparr>inv_id = i, inv_product_id = adj_product_id p,
          inv_warehouse_id = adj_warehouse_id p, available_quantity = adj_quantity p,
          reserved_quantity = 0, low_stock_threshold = None, is_low_stock = False,
          inv_updated_at = n\<rparr>)))"

definition adjust_existing_pair :: "adjustment_request \<Rightarrow> inventory_row \<Rightarrow> inventory_row op" where
  "adjust_existing_pair p row =
     and_then (adjust_available (adj_product_id p) (adj_warehouse_id p) (adj_quantity p)) (\<lambda>ok.
       if \<not> ok then
         raise (app_err InvalidRequestError ''Adjustment would drive available inventory below zero''
           (pair_details (adj_product_id p) (adj_warehouse_id p) @ [(''quantity'', JInt (adj_quantity p))]))
       else
         and_then (check_low_stock_transition (adj_product_id p) (adj_warehouse_id p) (adj_quantity p))
           (\<lambda>_. refresh_inventory row))"

text \<open>Everything up to the commit, and the endpoint's transaction.\<close>

definition apply_adjustment :: "adjustment_request \<Rightarrow> inventory_row op" where
  "apply_adjustment p =
     and_then (product_get_by_id (adj_product_id p)) (\<lambda>product.
     if product = None then raise (product_not_found (adj_product_id p)) else
     and_then (warehouse_get_by_id (adj_warehouse_id p)) (\<lambda>warehouse.
     if warehouse = None then raise (warehouse_not_found (adj_warehouse_id p)) else
     and_then (inventory_get (adj_product_id p) (adj_warehouse_id p)) (\<lambda>found.
     and_then (case found of None \<Rightarrow> adjust_new_pair p | Some row \<Rightarrow> adjust_existing_pair p row) (\<lambda>row.
     and_then (audit_record (adj_product_id p) (adj_warehouse_id p) (adj_quantity p)
        (adjustment_event_type (adj_quantity p)) (adj_reason p)) (\<lambda>_.
     return row)))))"

definition create_adjustment :: "adjustment_request \<Rightarrow> inventory_row op" where
  "create_adjustment p = and_then (apply_adjustment p) (\<lambda>row.
     and_then commit (\<lambda>_. refresh_inventory row))"

record inventory_line =
  line_warehouse_id :: ident
  line_available :: int
  line_reserved :: int

definition get_inventory_for_product :: "ident \<Rightarrow> inventory_line list op" where
  "get_inventory_for_product product_id =
     and_then (product_get_by_id product_id) (\<lambda>product.
     if product = None then raise (product_not_found product_id) else
     and_then (inventory_list_for_product product_id) (\<lambda>rows.
     return (map (\<lambda>r. \<lparr>line_warehouse_id = inv_warehouse_id r, line_available = available_quantity r,
        line_reserved = reserved_quantity r\<rparr>) rows)))"

lemma in_transaction_check_low_stock [in_transaction_intro]:
  "in_transaction (check_low_stock_transition p w q)"
  unfolding check_low_stock_transition_def
  by (intro in_transaction_intro) (auto split: prod.splits intro!: in_transaction_intro)

lemma in_transaction_service [in_transaction_intro]:
  "in_transaction (reserve p w q i)" "in_transaction (release_reservation r i)"
  "in_transaction (consume_reservation r i)" "in_transaction (refresh_inventory row)"
  unfolding reserve_def release_reservation_def consume_reservation_def refresh_inventory_def
  by - (intro in_transaction_intro)+

lemma in_transaction_adjustment [in_transaction_intro]: "in_transaction (apply_adjustment p)"
  unfolding apply_adjustment_def adjust_new_pair_def adjust_existing_pair_def
  by (intro in_transaction_intro)

subsection \<open>The low-stock transition\<close>

text \<open>The flag of a pair after a change in the direction of \<open>delta\<close>, given the new quantity.\<close>

definition flag_after :: "int \<Rightarrow> int option \<Rightarrow> int \<Rightarrow> bool \<Rightarrow> bool" where
  "flag_after delta threshold available low =
     (case threshold of None \<Rightarrow> low
      | Some t \<Rightarrow> if delta < 0 then low \<or> available \<le> t
                 else if delta > 0 then low \<and> \<not> t < available else low)"

text \<open>An entering crossing: the only event that creates an alert.\<close>

definition crosses :: "int \<Rightarrow> int option \<Rightarrow> int \<Rightarrow> bool \<Rightarrow> bool" where
  "crosses delta threshold available low \<longleftrightarrow> delta < 0 \<and> \<not> low \<and>
     (case threshold of None \<Rightarrow> False | Some t \<Rightarrow> available \<le> t)"

definition alert_event :: "low_stock_alert \<Rightarrow> outbox_event \<Rightarrow> bool" where
  "alert_event a e \<longleftrightarrow> evt_aggregate_type e = ''low_stock_alert'' \<and> evt_aggregate_id e = lsa_id a \<and>
     evt_event_type e = ''LOW_STOCK_ALERT_CREATED'' \<and> evt_payload e = low_stock_payload a \<and>
     evt_status e = OUTBOX_PENDING"

text \<open>New events whose ids no earlier event has.\<close>

definition fresh_events :: "outbox_event list \<Rightarrow> outbox_event list \<Rightarrow> bool" where
  "fresh_events old new \<longleftrightarrow> distinct (map evt_id new) \<and> evt_id ` set new \<inter> evt_id ` set old = {}"

definition alert_of :: "inventory_row \<Rightarrow> low_stock_alert \<Rightarrow> bool" where
  "alert_of r a \<longleftrightarrow> lsa_product_id a = inv_product_id r \<and> lsa_warehouse_id a = inv_warehouse_id r \<and>
     lsa_quantity_at_alert a = available_quantity r \<and> low_stock_threshold r = Some (lsa_threshold a)"

abbreviation row_crosses :: "int \<Rightarrow> inventory_row \<Rightarrow> bool" where
  "row_crosses delta r \<equiv>
     crosses delta (low_stock_threshold r) (available_quantity r) (is_low_stock r)"

lemma check_low_stock_transition_effect:
  assumes run: "check_low_stock_transition p w delta s = (Inr u, s')" and u: "unique_pairs (working s)"
  shows "\<exists>h alerts events. working s' = (working s)
       \<lparr>inventory := map h (inventory (working s)),
        low_stock_alerts := low_stock_alerts (working s) @ alerts,
        outbox_events := outbox_events (working s) @ events\<rparr> \<and>
     list_all2 alert_event alerts events \<and> fresh_events (outbox_events (working s)) events \<and>
     (\<forall>r\<in>set (inventory (working s)). same_stock r (h r) \<and>
        (if inv_key r = (p, w)
         then is_low_stock (h r) =
                flag_after delta (low_stock_threshold r) (available_quantity r) (is_low_stock r) \<and>
              (if row_crosses delta r then \<exists>a. alerts = [a] \<and> alert_of r a else alerts = [])
         else h r = r)) \<and>
     ((p, w) \<notin> inv_key ` set (inventory (working s)) \<longrightarrow> alerts = [])"
proof (cases "delta < 0")
  case True
  with run obtain flip t where f: "try_flip_low_stock p w s = (Inr flip, t)"
    by (auto simp: check_low_stock_transition_def)
  show ?thesis
  proof (cases flip)
    case None
    with run f True have "s' = t" by (auto simp: check_low_stock_transition_def)
    moreover from try_flip_low_stock_None [of p w s t] f None
    have "t = s" "\<forall>r\<in>set (inventory (working s)). inv_key r = (p, w) \<longrightarrow>
        is_low_stock r \<or> \<not> at_or_below_threshold r" by auto
    ultimately show ?thesis using True
      by (intro exI [of _ id] exI [of _ "[]"])
        (auto simp: same_stock_def flag_after_def crosses_def at_or_below_threshold_def fresh_events_def
          split: option.splits)
  next
    case (Some ret)
    obtain av th where ret: "ret = (av, th)" by (cases ret)
    from try_flip_low_stock_Some [of p w s av th t] f Some ret u obtain h where
      t: "t = s\<lparr>working := (working s)\<lparr>inventory := map h (inventory (working s))\<rparr>\<rparr>"
      and pw: "(p, w) \<in> inv_key ` set (inventory (working s))"
      and h: "\<forall>r\<in>set (inventory (working s)). same_stock r (h r) \<and>
        (if inv_key r = (p, w)
         then \<not> is_low_stock r \<and> is_low_stock (h r) \<and> low_stock_threshold r = Some th \<and>
              available_quantity r = av \<and> av \<le> th
         else h r = r)" by blast
    from run f Some ret True obtain a t' e where
      a: "low_stock_alert_create p w av th t = (Inr a, t')" and
      e: "outbox_create ''low_stock_alert'' (lsa_id a) ''LOW_STOCK_ALERT_CREATED''
            (JObj [(''alert_id'', JStr (lsa_id a)), (''product_id'', JStr p), (''warehouse_id'', JStr w),
               (''quantity_at_alert'', JInt av), (''threshold'', JInt th)]) t' = (Inr e, s')"
      by (auto simp: check_low_stock_transition_def)
    note a' = low_stock_alert_create_effect [OF a] and e' = outbox_create_effect [OF e]
    have "alert_event a e"
      using a' e' by (simp add: alert_event_def low_stock_payload_def)
    moreover have "fresh_events (outbox_events (working s)) [e]"
      using a' e' t by (simp add: fresh_events_def)
    moreover have "(if row_crosses delta r then \<exists>x. [a] = [x] \<and> alert_of r x else [a] = []) \<and>
        is_low_stock (h r) =
          flag_after delta (low_stock_threshold r) (available_quantity r) (is_low_stock r)"
      if "r \<in> set (inventory (working s))" "inv_key r = (p, w)" for r
      using h that True a' by (auto simp: crosses_def alert_of_def flag_after_def)
    moreover have "working s' = (working s)
       \<lparr>inventory := map h (inventory (working s)),
        low_stock_alerts := low_stock_alerts (working s) @ [a],
        outbox_events := outbox_events (working s) @ [e]\<rparr>"
      using a' e' t by simp
    ultimately show ?thesis using h pw
      by (intro exI [of _ h] exI [of _ "[a]"] exI [of _ "[e]"]) auto
  qed
next
  case False
  show ?thesis
  proof (cases "delta > 0")
    case True
    with run obtain b where "try_reset_low_stock p w s = (Inr b, s')"
      by (auto simp: check_low_stock_transition_def)
    from try_reset_low_stock_effect [OF this] obtain h where
      s': "s' = s\<lparr>working := (working s)\<lparr>inventory := map h (inventory (working s))\<rparr>\<rparr>"
      and h: "\<forall>r\<in>set (inventory (working s)). same_stock r (h r) \<and>
        (if inv_key r = (p, w) then is_low_stock (h r) = (is_low_stock r \<and> \<not> above_threshold r)
         else h r = r)" by blast
    then show ?thesis using True
      by (intro exI [of _ h] exI [of _ "[]"])
        (auto simp: flag_after_def crosses_def above_threshold_def fresh_events_def split: option.splits)
  next
    case nonpos: False
    with run False have "s' = s" by (simp add: check_low_stock_transition_def)
    then show ?thesis using False nonpos
      by (intro exI [of _ id] exI [of _ "[]"])
        (auto simp: same_stock_def flag_after_def crosses_def fresh_events_def split: option.splits)
  qed
qed

end
