(* ===== verification/Stock_Events.thy ===== *)
theory Stock_Events
  imports Inventory_Service
begin

text \<open>
  Every change of stock made by \<open>inventory_service.py\<close> is a \<open>stock_event\<close>: the account of one pair
  moves as its specification says, one audit record is appended, and the low-stock flag, alerts and
  announcements follow the direction of the change. \<open>stock_sound\<close> is the invariant of the stock
  tables; the locale \<open>ledgered_operation\<close> says that a specification and the audit record written
  with it agree, and proves once that such an event keeps the invariant.
\<close>

definition audit_of :: "ident \<times> ident \<Rightarrow> audit_event_type \<Rightarrow> int \<Rightarrow> string \<Rightarrow> audit_log \<Rightarrow> bool" where
  "audit_of k ty c ref a \<longleftrightarrow> (audit_product_id a, audit_warehouse_id a) = k \<and> audit_type a = ty \<and>
     audit_change a = c \<and> audit_reference_id a = ref"

text \<open>The row of the pair follows the specification and the flag rule; no other row changes.\<close>

definition event_row ::
  "ident \<times> ident \<Rightarrow> (account \<Rightarrow> account option) \<Rightarrow> int \<Rightarrow> low_stock_alert list
    \<Rightarrow> inventory_row \<Rightarrow> inventory_row \<Rightarrow> bool" where
  "event_row k f delta alerts r r' \<longleftrightarrow>
     inv_id r' = inv_id r \<and> inv_key r' = inv_key r \<and>
     low_stock_threshold r' = low_stock_threshold r \<and>
     (if inv_key r = k
      then f (row_account r) = Some (row_account r') \<and> row_ok r' \<and>
           is_low_stock r' =
             flag_after delta (low_stock_threshold r) (available_quantity r') (is_low_stock r) \<and>
           (if crosses delta (low_stock_threshold r) (available_quantity r') (is_low_stock r)
            then \<exists>x. alerts = [x] \<and> alert_of r' x else alerts = [])
      else r' = r)"

definition stock_event ::
  "ident \<times> ident \<Rightarrow> (account \<Rightarrow> account option) \<Rightarrow> int \<Rightarrow> audit_event_type \<Rightarrow> int \<Rightarrow> string
    \<Rightarrow> db \<Rightarrow> db \<Rightarrow> bool" where
  "stock_event k f delta ty c ref d d' \<longleftrightarrow> (\<exists>h a alerts events.
     d' = d\<lparr>inventory := map h (inventory d), audit_logs := audit_logs d @ [a],
            low_stock_alerts := low_stock_alerts d @ alerts,
            outbox_events := outbox_events d @ events\<rparr> \<and>
     audit_of k ty c ref a \<and> list_all2 alert_event alerts events \<and>
     fresh_events (outbox_events d) events \<and> k \<in> inv_key ` set (inventory d) \<and>
     (\<forall>r\<in>set (inventory d). event_row k f delta alerts r (h r)))"

lemma event_row_pair: "event_row k f delta alerts r r' \<Longrightarrow> inv_key r = k \<Longrightarrow>
    f (row_account r) = Some (row_account r') \<and> row_ok r' \<and>
    is_low_stock r' =
      flag_after delta (low_stock_threshold r) (available_quantity r') (is_low_stock r) \<and>
    (if crosses delta (low_stock_threshold r) (available_quantity r') (is_low_stock r)
     then \<exists>x. alerts = [x] \<and> alert_of r' x else alerts = [])"
  and event_row_other: "event_row k f delta alerts r r' \<Longrightarrow> inv_key r \<noteq> k \<Longrightarrow> r' = r"
  and event_row_keys: "event_row k f delta alerts r r' \<Longrightarrow>
    inv_id r' = inv_id r \<and> inv_key r' = inv_key r \<and> low_stock_threshold r' = low_stock_threshold r"
  unfolding event_row_def by argo+

lemma stock_eventE:
  assumes "stock_event k f delta ty c ref d d'"
  obtains h a alerts events where
    "d' = d\<lparr>inventory := map h (inventory d), audit_logs := audit_logs d @ [a],
            low_stock_alerts := low_stock_alerts d @ alerts,
            outbox_events := outbox_events d @ events\<rparr>"
    "audit_of k ty c ref a" "list_all2 alert_event alerts events"
    "fresh_events (outbox_events d) events" "k \<in> inv_key ` set (inventory d)"
    "\<forall>r\<in>set (inventory d). event_row k f delta alerts r (h r)"
  using assms unfolding stock_event_def by blast

lemma row_ok_same_stock: "same_stock r r' \<Longrightarrow> row_ok r' = row_ok r"
  by (simp add: same_stock_def row_ok_def check_inventory_row_None threshold_ok_def row_account_def)

text \<open>Moving stock, checking the transition and recording the change make one event, in either order.\<close>

lemma stock_event_compose:
  assumes moved: "d1 = d\<lparr>inventory := map h (inventory d)\<rparr>"
    and pw: "(p, w) \<in> inv_key ` set (inventory d)"
    and h: "\<forall>r\<in>set (inventory d). same_pair r (h r) \<and>
        (if inv_key r = (p, w) then f (row_account r) = Some (row_account (h r)) \<and> row_ok (h r)
         else h r = r)"
    and rest: "d' = d1\<lparr>inventory := map g (inventory d1), audit_logs := audit_logs d1 @ [a],
        low_stock_alerts := low_stock_alerts d1 @ alerts, outbox_events := outbox_events d1 @ events\<rparr>"
    and a: "audit_of (p, w) ty c ref a" and ev: "list_all2 alert_event alerts events"
    and fresh: "fresh_events (outbox_events d) events"
    and g: "\<forall>r\<in>set (inventory d1). same_stock r (g r) \<and>
        (if inv_key r = (p, w)
         then is_low_stock (g r) =
                flag_after delta (low_stock_threshold r) (available_quantity r) (is_low_stock r) \<and>
              (if row_crosses delta r then \<exists>a. alerts = [a] \<and> alert_of r a else alerts = [])
         else g r = r)"
  shows "stock_event (p, w) f delta ty c ref d d'"
proof -
  have "event_row (p, w) f delta alerts r (g (h r))" if r: "r \<in> set (inventory d)" for r
  proof -
    have hr: "same_pair r (h r)"
      "inv_key r = (p, w) \<Longrightarrow> f (row_account r) = Some (row_account (h r)) \<and> row_ok (h r)"
      "inv_key r \<noteq> (p, w) \<Longrightarrow> h r = r" using h r by auto
    have "h r \<in> set (inventory d1)" using r moved by simp
    then have gr: "same_stock (h r) (g (h r))"
      "inv_key (h r) = (p, w) \<Longrightarrow> is_low_stock (g (h r)) =
          flag_after delta (low_stock_threshold (h r)) (available_quantity (h r)) (is_low_stock (h r)) \<and>
        (if row_crosses delta (h r) then \<exists>a. alerts = [a] \<and> alert_of (h r) a else alerts = [])"
      "inv_key (h r) \<noteq> (p, w) \<Longrightarrow> g (h r) = h r" using g by auto
    have acc: "row_account (g (h r)) = row_account (h r)" "row_ok (g (h r)) = row_ok (h r)"
      using gr(1) row_ok_same_stock [OF gr(1)] by (simp_all add: same_stock_def)
    have keys: "inv_id (g (h r)) = inv_id r" "inv_key (g (h r)) = inv_key r"
      "low_stock_threshold (g (h r)) = low_stock_threshold r" "inv_key (h r) = inv_key r"
      "low_stock_threshold (h r) = low_stock_threshold r" "is_low_stock (h r) = is_low_stock r"
      "available_quantity (g (h r)) = available_quantity (h r)"
      using gr(1) hr(1) by (simp_all add: same_stock_def same_pair_def row_account_def)
    have al: "alert_of (g (h r)) x = alert_of (h r) x" for x
      using keys by (simp add: alert_of_def)
    show ?thesis
    proof (cases "inv_key r = (p, w)")
      case True
      then have "inv_key (h r) = (p, w)" using keys by simp
      from gr(2) [OF this] hr(2) [OF True] show ?thesis
        unfolding event_row_def al acc keys True by simp
    next
      case False
      then have "inv_key (h r) \<noteq> (p, w)" using keys by simp
      from gr(3) [OF this] hr(3) [OF False] False show ?thesis by (auto simp: event_row_def)
    qed
  qed
  then show ?thesis
    unfolding stock_event_def using moved rest a ev fresh pw
    by (intro exI [of _ "\<lambda>r. g (h r)"] exI [of _ a] exI [of _ alerts] exI [of _ events])
      (simp add: comp_def)
qed


context stock_operation
begin

text \<open>The order of \<open>reserve\<close>, \<open>release_reservation\<close>, \<open>consume_reservation\<close>: record, then check.\<close>

lemma event:
  assumes step: "step p w q s = (Inr True, t)" and u: "unique_pairs (working s)"
    and log: "audit_record p w c ty ref t = (Inr a, t')"
    and check: "check_low_stock_transition p w delta t' = (Inr x, s')"
  shows "stock_event (p, w) (spec q) delta ty c ref (working s) (working s')"
proof -
  from moved [OF step u] obtain h where
    t: "t = s\<lparr>working := (working s)\<lparr>inventory := map h (inventory (working s))\<rparr>\<rparr>"
    and pw: "(p, w) \<in> inv_key ` set (inventory (working s))"
    and h: "\<forall>r\<in>set (inventory (working s)). same_pair r (h r) \<and>
        (if inv_key r = (p, w) then spec q (row_account r) = Some (row_account (h r)) \<and> row_ok (h r)
         else h r = r)" by blast
  note a = audit_record_effect [OF log]
  have inv: "inventory (working t') = inventory (working t)" using a by simp
  have "unique_pairs (working t)"
    using h by (intro unique_pairs_map [where h = h, OF _ _ u]) (simp_all add: t same_pair_def)
  then have "unique_pairs (working t')" using inv by (simp add: unique_pairs_def)
  from check_low_stock_transition_effect [OF check this] obtain g alerts events where
    s': "working s' = (working t')
       \<lparr>inventory := map g (inventory (working t')),
        low_stock_alerts := low_stock_alerts (working t') @ alerts,
        outbox_events := outbox_events (working t') @ events\<rparr>"
    and ev: "list_all2 alert_event alerts events"
    and fresh: "fresh_events (outbox_events (working t')) events"
    and g: "\<forall>r\<in>set (inventory (working t')). same_stock r (g r) \<and>
        (if inv_key r = (p, w)
         then is_low_stock (g r) =
                flag_after delta (low_stock_threshold r) (available_quantity r) (is_low_stock r) \<and>
              (if row_crosses delta r then \<exists>a. alerts = [a] \<and> alert_of r a else alerts = [])
         else g r = r)" by blast
  show ?thesis
  proof (rule stock_event_compose [OF _ pw h _ _ ev])
    show "working t = (working s)\<lparr>inventory := map h (inventory (working s))\<rparr>" by (simp add: t)
    show "audit_of (p, w) ty c ref a" using a by (simp add: audit_of_def)
    show "working s' = (working t)\<lparr>inventory := map g (inventory (working t)),
        audit_logs := audit_logs (working t) @ [a],
        low_stock_alerts := low_stock_alerts (working t) @ alerts,
        outbox_events := outbox_events (working t) @ events\<rparr>"
      using s' a by simp
    show "fresh_events (outbox_events (working s)) events" using fresh a by (simp add: t)
  qed (use g inv in simp)
qed

text \<open>The order of \<open>create_adjustment\<close>: check, then record.\<close>

lemma event_check_first:
  assumes step: "step p w q s = (Inr True, t)" and u: "unique_pairs (working s)"
    and check: "check_low_stock_transition p w delta t = (Inr x, t')"
    and log: "audit_record p w c ty ref t' = (Inr a, s')"
  shows "stock_event (p, w) (spec q) delta ty c ref (working s) (working s')"
proof -
  from moved [OF step u] obtain h where
    t: "t = s\<lparr>working := (working s)\<lparr>inventory := map h (inventory (working s))\<rparr>\<rparr>"
    and pw: "(p, w) \<in> inv_key ` set (inventory (working s))"
    and h: "\<forall>r\<in>set (inventory (working s)). same_pair r (h r) \<and>
        (if inv_key r = (p, w) then spec q (row_account r) = Some (row_account (h r)) \<and> row_ok (h r)
         else h r = r)" by blast
  note a = audit_record_effect [OF log]
  have "unique_pairs (working t)"
    using h by (intro unique_pairs_map [where h = h, OF _ _ u]) (simp_all add: t same_pair_def)
  from check_low_stock_transition_effect [OF check this] obtain g alerts events where
    t': "working t' = (working t)
       \<lparr>inventory := map g (inventory (working t)),
        low_stock_alerts := low_stock_alerts (working t) @ alerts,
        outbox_events := outbox_events (working t) @ events\<rparr>"
    and ev: "list_all2 alert_event alerts events"
    and fresh: "fresh_events (outbox_events (working t)) events"
    and g: "\<forall>r\<in>set (inventory (working t)). same_stock r (g r) \<and>
        (if inv_key r = (p, w)
         then is_low_stock (g r) =
                flag_after delta (low_stock_threshold r) (available_quantity r) (is_low_stock r) \<and>
              (if row_crosses delta r then \<exists>a. alerts = [a] \<and> alert_of r a else alerts = [])
         else g r = r)" by blast
  show ?thesis
  proof (rule stock_event_compose [OF _ pw h _ _ ev])
    show "working t = (working s)\<lparr>inventory := map h (inventory (working s))\<rparr>" by (simp add: t)
    show "audit_of (p, w) ty c ref a" using a by (simp add: audit_of_def)
    show "working s' = (working t)\<lparr>inventory := map g (inventory (working t)),
        audit_logs := audit_logs (working t) @ [a],
        low_stock_alerts := low_stock_alerts (working t) @ alerts,
        outbox_events := outbox_events (working t) @ events\<rparr>"
      using t' a by simp
    show "fresh_events (outbox_events (working s)) events" using fresh by (simp add: t)
  qed (use g in simp)
qed

text \<open>No check at all: the quantity moves without looking at the threshold.\<close>

lemma event_unchecked:
  assumes "step p w q s = (Inr True, t)" and "unique_pairs (working s)"
    and "audit_record p w c ty ref t = (Inr a, s')"
  shows "stock_event (p, w) (spec q) 0 ty c ref (working s) (working s')"
  by (rule event [OF assms, of 0 "()"]) (simp add: check_low_stock_transition_def)

end

subsection \<open>What a stock event does to the account of each pair\<close>

definition available_of :: "db \<Rightarrow> ident \<times> ident \<Rightarrow> int" where
  "available_of d k = (case account d k of None \<Rightarrow> 0 | Some (a, v) \<Rightarrow> a)"

definition reserved_of :: "db \<Rightarrow> ident \<times> ident \<Rightarrow> int" where
  "reserved_of d k = (case account d k of None \<Rightarrow> 0 | Some (a, v) \<Rightarrow> v)"

lemma account_of_unchanged:
  "inventory d' = inventory d \<Longrightarrow> account d' = account d \<and> available_of d' = available_of d \<and>
    reserved_of d' = reserved_of d"
  by (auto simp: account_def available_of_def reserved_of_def)

lemma stock_event_account:
  assumes ev: "stock_event k f delta ty c ref d d'"
  obtains a v a' v' where "account d k = Some (a, v)" "f (a, v) = Some (a', v')"
    "account d' = (account d)(k \<mapsto> (a', v'))"
proof -
  from ev obtain h b al es where d'': "d' = d\<lparr>inventory := map h (inventory d),
        audit_logs := audit_logs d @ [b], low_stock_alerts := low_stock_alerts d @ al,
        outbox_events := outbox_events d @ es\<rparr>"
    and fresh: "fresh_events (outbox_events d) es"
    and k: "k \<in> inv_key ` set (inventory d)"
    and rows: "\<forall>r\<in>set (inventory d). event_row k f delta al r (h r)"
    by (rule stock_eventE)
  from d'' have d': "inventory d' = map h (inventory d)" by simp
  have keys: "inv_key (h r) = inv_key r" if "r \<in> set (inventory d)" for r
    using event_row_keys rows that by blast
  have hit: "f (row_account r) = Some (row_account (h r))" if "r \<in> set (inventory d)" "inv_key r = k" for r
    using event_row_pair rows that by blast
  have miss: "h r = r" if "r \<in> set (inventory d)" "inv_key r \<noteq> k" for r
    using event_row_other rows that by blast
  have acc: "account d' j = map_option (\<lambda>r. row_account (h r)) (find (\<lambda>r. inv_key r = j) (inventory d))" for j
    by (rule account_map [OF d' keys])
  have other: "account d' j = account d j" if "j \<noteq> k" for j
  proof (cases "find (\<lambda>r. inv_key r = j) (inventory d)")
    case (Some x)
    with find_key_Some [OF Some] that miss have "h x = x" by metis
    with Some show ?thesis unfolding acc by (simp add: account_def)
  qed (simp add: acc, simp add: account_def)
  have "account d k \<noteq> None" using k by (simp only: account_none_iff) simp
  then obtain x where x: "find (\<lambda>r. inv_key r = k) (inventory d) = Some x"
    unfolding account_def by fastforce
  obtain a v a' v' where av: "row_account x = (a, v)" "row_account (h x) = (a', v')"
    by (metis surj_pair)
  have "account d k = Some (a, v)" "account d' k = Some (a', v')"
    using x av unfolding acc by (simp_all add: account_def)
  moreover have "f (a, v) = Some (a', v')" using hit find_key_Some [OF x] av by metis
  moreover have "account d' = (account d)(k \<mapsto> (a', v'))"
    using other calculation(2) by (intro ext) simp
  ultimately show thesis using that by blast
qed

lemma stock_event_quantities:
  assumes "stock_event k f delta ty c ref d d'"
  obtains a v a' v' where "account d k = Some (a, v)" "f (a, v) = Some (a', v')"
    "\<And>j. available_of d' j = available_of d j + (if j = k then a' - a else 0)"
    "\<And>j. reserved_of d' j = reserved_of d j + (if j = k then v' - v else 0)"
proof -
  from assms obtain a v a' v' where *: "account d k = Some (a, v)" "f (a, v) = Some (a', v')"
    "account d' = (account d)(k \<mapsto> (a', v'))" by (rule stock_event_account)
  show thesis
    by (rule that [OF *(1,2)]) (simp_all add: available_of_def reserved_of_def * split: option.splits)
qed

subsection \<open>The ledger, the flags, the announcements\<close>

text \<open>What an audit record says happened to the available and the reserved quantity.\<close>

fun movement :: "audit_event_type \<Rightarrow> int \<Rightarrow> int \<times> int" where
  "movement STOCK_ADDED c = (c, 0)"
| "movement STOCK_REMOVED c = (c, 0)"
| "movement MANUAL_ADJUSTMENT c = (c, 0)"
| "movement INVENTORY_RESERVED c = (c, - c)"
| "movement RESERVATION_RELEASED c = (c, - c)"
| "movement ORDER_COMPLETED c = (0, c)"

definition log_key :: "audit_log \<Rightarrow> ident \<times> ident" where
  "log_key a = (audit_product_id a, audit_warehouse_id a)"

definition ledger :: "(int \<times> int \<Rightarrow> int) \<Rightarrow> audit_log list \<Rightarrow> ident \<times> ident \<Rightarrow> int" where
  "ledger part logs k =
     sum_where (\<lambda>a. log_key a = k) (\<lambda>a. part (movement (audit_type a) (audit_change a))) logs"

definition ledger_balanced :: "db \<Rightarrow> bool" where
  "ledger_balanced d \<longleftrightarrow> (\<forall>k. available_of d k = ledger fst (audit_logs d) k \<and>
     reserved_of d k = ledger snd (audit_logs d) k)"

text \<open>A pair whose flag is down is above its threshold: its next crossing will raise an alert.\<close>

definition flag_safe :: "inventory_row \<Rightarrow> bool" where
  "flag_safe r \<longleftrightarrow> (case low_stock_threshold r of None \<Rightarrow> \<not> is_low_stock r
     | Some t \<Rightarrow> is_low_stock r \<or> t < available_quantity r)"

definition is_alert_event :: "outbox_event \<Rightarrow> bool" where
  "is_alert_event e \<longleftrightarrow> evt_event_type e = ''LOW_STOCK_ALERT_CREATED''"

definition announces :: "low_stock_alert \<Rightarrow> outbox_event \<Rightarrow> bool" where
  "announces a e \<longleftrightarrow> evt_aggregate_type e = ''low_stock_alert'' \<and> evt_aggregate_id e = lsa_id a \<and>
     evt_payload e = low_stock_payload a"

definition alerts_announced :: "db \<Rightarrow> bool" where
  "alerts_announced d \<longleftrightarrow>
     list_all2 announces (low_stock_alerts d) (filter is_alert_event (outbox_events d)) \<and>
     (\<forall>a\<in>set (low_stock_alerts d). lsa_quantity_at_alert a \<le> lsa_threshold a)"

definition stock_base :: "db \<Rightarrow> bool" where
  "stock_base d \<longleftrightarrow> unique_pairs d \<and> (\<forall>r\<in>set (inventory d). row_ok r \<and> flag_safe r) \<and>
     ledger_balanced d \<and> alerts_announced d"

lemma ledger_append [simp]:
  "ledger part (logs @ [a]) k =
     ledger part logs k + (if log_key a = k then part (movement (audit_type a) (audit_change a)) else 0)"
  by (simp add: ledger_def)

lemma alert_event_announces: "alert_event a e \<Longrightarrow> announces a e \<and> is_alert_event e"
  by (simp add: alert_event_def announces_def is_alert_event_def)

lemma alert_events_filter:
  "list_all2 alert_event alerts events \<Longrightarrow>
    filter is_alert_event events = events \<and> list_all2 announces alerts events"
  by (induction rule: list_all2_induct) (auto dest: alert_event_announces)

lemma flag_safe_step:
  assumes "flag_safe r" and "low_stock_threshold r' = low_stock_threshold r"
    and "is_low_stock r' = flag_after delta (low_stock_threshold r) (available_quantity r') (is_low_stock r)"
    and "delta < 0 \<or> available_quantity r \<le> available_quantity r'"
  shows "flag_safe r'"
  using assms by (auto simp: flag_safe_def flag_after_def split: option.splits if_splits)

text \<open>
  The law a stock movement and its audit record share: the record says what happened to the
  account. Every event of a lawful operation keeps the invariant.
\<close>

locale ledgered_operation = stock_operation +
  fixes kind :: "int \<Rightarrow> audit_event_type" and change :: "int \<Rightarrow> int"
  assumes recorded: "spec q (a, v) = Some (a', v') \<Longrightarrow> movement (kind q) (change q) = (a' - a, v' - v)"
begin

lemma event_quantities:
  assumes "stock_event k (spec q) delta (kind q) (change q) ref d d'"
  shows "available_of d' j = available_of d j + (if j = k then fst (movement (kind q) (change q)) else 0)"
    and "reserved_of d' j = reserved_of d j + (if j = k then snd (movement (kind q) (change q)) else 0)"
proof -
  from assms obtain a v a' v' where "account d k = Some (a, v)" and *: "spec q (a, v) = Some (a', v')"
    "\<And>j. available_of d' j = available_of d j + (if j = k then a' - a else 0)"
    "\<And>j. reserved_of d' j = reserved_of d j + (if j = k then v' - v else 0)"
    by (rule stock_event_quantities) blast
  show "available_of d' j = available_of d j + (if j = k then fst (movement (kind q) (change q)) else 0)"
    and "reserved_of d' j = reserved_of d j + (if j = k then snd (movement (kind q) (change q)) else 0)"
    by (simp_all add: recorded [OF *(1)] *(2,3))
qed

lemma event_ledger:
  assumes ev: "stock_event k (spec q) delta (kind q) (change q) ref d d'" and "ledger_balanced d"
  shows "ledger_balanced d'"
proof -
  from ev obtain a where a: "audit_logs d' = audit_logs d @ [a]" "audit_of k (kind q) (change q) ref a"
    by (elim stock_eventE) simp
  show ?thesis
    unfolding ledger_balanced_def
  proof
    fix j
    have "available_of d j = ledger fst (audit_logs d) j" "reserved_of d j = ledger snd (audit_logs d) j"
      using assms(2) unfolding ledger_balanced_def by blast+
    then show "available_of d' j = ledger fst (audit_logs d') j \<and>
        reserved_of d' j = ledger snd (audit_logs d') j"
      using a unfolding event_quantities [OF ev, of j] by (simp add: audit_of_def log_key_def eq_commute [of k])
  qed
qed

lemma event_base:
  assumes ev: "stock_event k (spec q) delta (kind q) (change q) ref d d'" and base: "stock_base d"
    and dir: "\<And>a v a' v'. spec q (a, v) = Some (a', v') \<Longrightarrow> delta < 0 \<or> a \<le> a'"
  shows "stock_base d'"
proof -
  from ev obtain h b al es where d': "d' = d\<lparr>inventory := map h (inventory d),
        audit_logs := audit_logs d @ [b], low_stock_alerts := low_stock_alerts d @ al,
        outbox_events := outbox_events d @ es\<rparr>"
    and es: "list_all2 alert_event al es" and fresh: "fresh_events (outbox_events d) es"
    and k: "k \<in> inv_key ` set (inventory d)"
    and rows: "\<forall>r\<in>set (inventory d). event_row k (spec q) delta al r (h r)"
    by (rule stock_eventE)
  have "unique_pairs d'"
  proof (rule unique_pairs_map)
    show "inventory d' = map h (inventory d)" by (simp add: d')
    show "inv_key (h r) = inv_key r" if "r \<in> set (inventory d)" for r
      using event_row_keys [OF bspec [OF rows that]] by blast
  qed (use base in \<open>simp add: stock_base_def\<close>)
  moreover have "row_ok (h r) \<and> flag_safe (h r)" if r: "r \<in> set (inventory d)" for r
  proof (cases "inv_key r = k")
    case True
    note row = event_row_pair [OF bspec [OF rows r] True]
    have "spec q (available_quantity r, reserved_quantity r) =
        Some (available_quantity (h r), reserved_quantity (h r))"
      using row by (simp add: row_account_def)
    from dir [OF this] have "flag_safe (h r)"
      using row base r event_row_keys [OF bspec [OF rows r]]
      by (intro flag_safe_step [of r "h r" delta]) (auto simp: stock_base_def)
    with row show ?thesis by blast
  next
    case False
    from event_row_other [OF bspec [OF rows r] this] base r show ?thesis by (simp add: stock_base_def)
  qed
  moreover have "lsa_quantity_at_alert x \<le> lsa_threshold x" if x: "x \<in> set al" for x
  proof -
    from k obtain r where r: "r \<in> set (inventory d)" "inv_key r = k" by auto
    note row = event_row_pair [OF bspec [OF rows r(1)] r(2)]
    from row x have "crosses delta (low_stock_threshold r) (available_quantity (h r)) (is_low_stock r)"
      and "alert_of (h r) x" by (auto split: if_splits)
    then show ?thesis using event_row_keys [OF bspec [OF rows r(1)]]
      by (auto simp: crosses_def alert_of_def)
  qed
  then have "alerts_announced d'"
    using base d' alert_events_filter [OF es]
    by (auto simp: stock_base_def alerts_announced_def intro: list_all2_appendI)
  ultimately show ?thesis
    using event_ledger [OF ev] base d' by (auto simp: stock_base_def)
qed

end

interpretation reserving_l: ledgered_operation try_reserve reserve_spec "\<lambda>_. INVENTORY_RESERVED" uminus
  by unfold_locales (auto split: if_splits)

interpretation releasing_l: ledgered_operation inventory_release release_spec "\<lambda>_. RESERVATION_RELEASED" "\<lambda>q. q"
  by unfold_locales (auto split: if_splits)

interpretation consuming_l: ledgered_operation inventory_consume consume_spec "\<lambda>_. ORDER_COMPLETED" uminus
  by unfold_locales (auto split: if_splits)

interpretation adjusting_l: ledgered_operation adjust_available adjust_spec adjustment_event_type "\<lambda>q. q"
  by unfold_locales (auto simp: adjustment_event_type_def split: if_splits)

end
