(* ===== verification/Settlement.thy ===== *)
theory Settlement
  imports Stock_Events
begin

text \<open>
  Reservations and stock together. \<open>stock_sound\<close> is the invariant of the stock tables while a
  transaction is under way: the reserved quantity of each pair is what its active reservations hold
  plus what the list \<open>pending\<close> holds (stock already moved whose reservation row is not written yet,
  or already marked and not moved back yet). The locale \<open>settlement\<close> is the contract that
  \<open>release_reservation\<close> and \<open>consume_reservation\<close> share, and proves the loops of \<open>cancel_order\<close>,
  \<open>_fail_order\<close> and \<open>_complete_order\<close> once.
\<close>

declare split_paired_All [simp del] split_paired_Ex [simp del]

definition reservations_ok :: "db \<Rightarrow> bool" where
  "reservations_ok d \<longleftrightarrow> distinct (map resv_id (reservations d)) \<and>
     (\<forall>r\<in>set (reservations d). 0 < resv_quantity r)"

definition conserved :: "reservation list \<Rightarrow> db \<Rightarrow> bool" where
  "conserved pending d \<longleftrightarrow> (\<forall>k. reserved_of d k = held d k + quantity_of k pending)"

definition stock_sound :: "reservation list \<Rightarrow> db \<Rightarrow> bool" where
  "stock_sound pending d \<longleftrightarrow> stock_base d \<and> reservations_ok d \<and>
     (\<forall>r\<in>set pending. 0 < resv_quantity r) \<and> conserved pending d"

lemma conservedD: "conserved pending d \<Longrightarrow> reserved_of d k = held d k + quantity_of k pending"
  unfolding conserved_def by blast

lemma stock_soundD:
  "stock_sound pending d \<Longrightarrow> stock_base d"
  "stock_sound pending d \<Longrightarrow> reservations_ok d"
  "stock_sound pending d \<Longrightarrow> conserved pending d"
  "stock_sound pending d \<Longrightarrow> unique_pairs d"
  "stock_sound pending d \<Longrightarrow> distinct (map resv_id (reservations d))"
  by (simp_all add: stock_sound_def stock_base_def reservations_ok_def)

subsection \<open>What stock operations leave alone\<close>

definition stock_frame :: "db \<Rightarrow> db \<Rightarrow> bool" where
  "stock_frame d d' \<longleftrightarrow> users d' = users d \<and> products d' = products d \<and>
     warehouses d' = warehouses d \<and> orders d' = orders d \<and> order_items d' = order_items d \<and>
     idempotency_keys d' = idempotency_keys d \<and> dead_letters d' = dead_letters d \<and>
     inv_key ` set (inventory d') = inv_key ` set (inventory d) \<and>
     map inv_id (inventory d') = map inv_id (inventory d) \<and>
     (\<exists>es. outbox_events d' = outbox_events d @ es \<and>
        (\<forall>e\<in>set es. is_alert_event e \<and> evt_status e = OUTBOX_PENDING)) \<and>
     (distinct (map evt_id (outbox_events d)) \<longrightarrow> distinct (map evt_id (outbox_events d'))) \<and>
     (\<exists>al. low_stock_alerts d' = low_stock_alerts d @ al) \<and>
     (\<exists>l. audit_logs d' = audit_logs d @ l)"

lemma stock_frame_refl [simp]: "stock_frame d d"
  by (simp add: stock_frame_def)

lemma stock_frame_trans: "stock_frame d d' \<Longrightarrow> stock_frame d' d'' \<Longrightarrow> stock_frame d d''"
  unfolding stock_frame_def by (elim conjE exE) (auto simp: Ball_def)

lemma stock_frame_reservations: "stock_frame d (d\<lparr>reservations := t\<rparr>)"
  by (simp add: stock_frame_def)

lemma stock_event_frame:
  assumes ev: "stock_event k f delta ty c ref d d'"
  shows "stock_frame d d'" and "reservations d' = reservations d"
proof -
  from ev obtain h b al es where d': "d' = d\<lparr>inventory := map h (inventory d),
        audit_logs := audit_logs d @ [b], low_stock_alerts := low_stock_alerts d @ al,
        outbox_events := outbox_events d @ es\<rparr>"
    and es: "list_all2 alert_event al es" and fresh: "fresh_events (outbox_events d) es"
    and rows: "\<forall>r\<in>set (inventory d). event_row k f delta al r (h r)"
    by (elim stock_eventE) blast
  have "\<forall>e\<in>set es. is_alert_event e \<and> evt_status e = OUTBOX_PENDING"
    using es by (induction rule: list_all2_induct) (auto simp: alert_event_def is_alert_event_def)
  moreover have "inv_key ` h ` set (inventory d) = inv_key ` set (inventory d)"
  proof -
    have "inv_key (h r) = inv_key r" if "r \<in> set (inventory d)" for r
      using event_row_keys [OF bspec [OF rows that]] by blast
    then have "(inv_key \<circ> h) ` set (inventory d) = inv_key ` set (inventory d)"
      by (intro image_cong) simp_all
    then show ?thesis by (simp only: image_comp)
  qed
  moreover have "inv_id (h r) = inv_id r" if "r \<in> set (inventory d)" for r
    using event_row_keys [OF bspec [OF rows that]] by blast
  ultimately show "stock_frame d d'" "reservations d' = reservations d"
    using fresh by (auto simp: stock_frame_def d' fresh_events_def)
qed

subsection \<open>Reserving\<close>

lemma conserved_event:
  assumes "conserved pending d" and "reservations d' = reservations d"
    and "\<And>k. reserved_of d' k = reserved_of d k + (quantity_of k pending' - quantity_of k pending)"
  shows "conserved pending' d'"
  unfolding conserved_def
proof
  fix k
  show "reserved_of d' k = held d' k + quantity_of k pending'"
    using conservedD [OF assms(1), of k] assms(2,3) by (simp add: held_def)
qed

lemma reserve_True:
  assumes run: "reserve p w q i s = (Inr True, s')" and sound: "stock_sound pending (working s)"
    and r: "resv_key r = (p, w)" "resv_quantity r = q" "0 < q"
  shows "stock_event (p, w) (reserve_spec q) (- q) INVENTORY_RESERVED (- q) i (working s) (working s')"
    and "stock_sound (r # pending) (working s')"
proof -
  show ev: "stock_event (p, w) (reserve_spec q) (- q) INVENTORY_RESERVED (- q) i (working s) (working s')"
    using run by (auto simp: reserve_def split: if_splits
        intro!: reserving.event [OF _ stock_soundD(4) [OF sound]])
  have base: "stock_base (working s')"
    by (rule reserving_l.event_base [OF ev stock_soundD(1) [OF sound]]) (use r in \<open>simp split: if_splits\<close>)
  have "conserved (r # pending) (working s')"
    by (rule conserved_event [OF stock_soundD(3) [OF sound] stock_event_frame(2) [OF ev]])
      (use r in \<open>simp add: reserving_l.event_quantities [OF ev] eq_commute\<close>)
  then show "stock_sound (r # pending) (working s')"
    using base sound r stock_event_frame(2) [OF ev] by (simp add: stock_sound_def reservations_ok_def)
qed

lemma reserve_False:
  assumes "reserve p w q i s = (Inr False, s')" and "unique_pairs (working s)"
  shows "s' = s" and "Option.bind (account (working s) (p, w)) (reserve_spec q) = None"
proof -
  from assms(1) have *: "try_reserve p w q s = (Inr False, s')"
    by (auto simp: reserve_def split: if_splits)
  show "s' = s" using reserving.refused [OF * assms(2)] by simp
  show "Option.bind (account (working s) (p, w)) (reserve_spec q) = None"
    using reserving.account_step(2) [OF * assms(2)] by blast
qed

subsection \<open>Settling a reservation\<close>

definition settle_step ::
  "(ident \<Rightarrow> bool op) \<Rightarrow> (ident \<Rightarrow> ident \<Rightarrow> int \<Rightarrow> bool op) \<Rightarrow> (int \<Rightarrow> audit_event_type)
    \<Rightarrow> (int \<Rightarrow> int) \<Rightarrow> (int \<Rightarrow> int) \<Rightarrow> reservation \<Rightarrow> string \<Rightarrow> bool op" where
  "settle_step mark move kind change delta r ref =
     and_then (mark (resv_id r)) (\<lambda>marked.
       if \<not> marked then return False
       else
         and_then (move (resv_product_id r) (resv_warehouse_id r) (resv_quantity r)) (\<lambda>_.
         and_then (audit_record (resv_product_id r) (resv_warehouse_id r) (change (resv_quantity r))
            (kind (resv_quantity r)) ref) (\<lambda>_.
         and_then (check_low_stock_transition (resv_product_id r) (resv_warehouse_id r)
            (delta (resv_quantity r))) (\<lambda>_.
         return True))))"

definition settle_loop :: "(reservation \<Rightarrow> string \<Rightarrow> bool op) \<Rightarrow> string \<Rightarrow> reservation list \<Rightarrow> unit op" where
  "settle_loop settle ref = for_each (\<lambda>r. and_then (settle r ref) (\<lambda>_. return ()))"

lemma settle_loop_simps [simp]:
  "settle_loop settle ref [] = return ()"
  "settle_loop settle ref (r # rs) =
     and_then (and_then (settle r ref) (\<lambda>_. return ())) (\<lambda>_. settle_loop settle ref rs)"
  by (simp_all add: settle_loop_def)

text \<open>Rows an update marks by id, one id after the other.\<close>

lemma update_where_ids:
  assumes "\<And>x. resv_id (f x) = resv_id x" and "i \<notin> I"
  shows "update_where (\<lambda>x. resv_id x \<in> I) f (update_where (\<lambda>x. resv_id x = i) f t) =
    update_where (\<lambda>x. resv_id x \<in> insert i I) f t"
  using assms by (induction t) auto

locale settlement =
  ledgered_operation move spec kind change
  for move :: "ident \<Rightarrow> ident \<Rightarrow> int \<Rightarrow> bool op" and spec kind change +
  fixes settle :: "reservation \<Rightarrow> string \<Rightarrow> bool op" and mark :: "ident \<Rightarrow> bool op"
    and f :: "time \<Rightarrow> reservation \<Rightarrow> reservation" and credit delta :: "int \<Rightarrow> int"
  assumes settle_eq: "settle = settle_step mark move kind change delta"
    and mark_eq: "mark i = and_then (update_reservations (\<lambda>r. resv_id r = i \<and> resv_status r = ACTIVE) f)
        (\<lambda>result. return (length result = 1))"
    and settled: "settled_as (f n)"
    and spec_covered: "q \<le> v \<Longrightarrow> spec q (a, v) \<noteq> None"
    and leaves_reserved: "movement (kind q) (change q) = (credit q, - q)"
    and direction: "0 < q \<Longrightarrow> delta q < 0 \<or> 0 \<le> credit q"
begin

lemma in_transaction_settle: "in_transaction (settle r ref)"
proof -
  have "in_transaction (move p w q)" for p w q
    unfolding implements stock_update_def update_inventory_def by (intro in_transaction_intro)
  moreover have "in_transaction (mark i)" for i
    unfolding mark_eq update_reservations_def by (intro in_transaction_intro)
  ultimately show ?thesis
    unfolding settle_eq settle_step_def by (intro in_transaction_intro) auto
qed

text \<open>A reservation that is no longer active is left alone: settling twice moves stock once.\<close>

lemma settle_inactive:
  assumes "settle r ref s = (Inr b, s')" and "distinct (map resv_id (reservations (working s)))"
    and "\<forall>x\<in>set (reservations (working s)). resv_id x = resv_id r \<longrightarrow> resv_status x \<noteq> ACTIVE"
  shows "s' = s \<and> \<not> b"
proof -
  from assms(1) obtain m t where m: "mark (resv_id r) s = (Inr m, t)"
    and rest: "m \<or> (s' = t \<and> \<not> b)"
    by (auto simp: settle_eq settle_step_def split: if_splits)
  from settle_active [OF m [unfolded mark_eq] assms(2) settled] assms(3) have "\<not> m \<and> t = s"
    by (auto split: if_splits)
  with rest show ?thesis by simp
qed

text \<open>Settling an active reservation succeeds, marks it and moves exactly its quantity.\<close>

lemma settle_sound:
  assumes run: "settle r ref s = (Inr b, s')" and sound: "stock_sound pending (working s)"
    and r: "r \<in> set (reservations (working s))" "resv_status r = ACTIVE"
  shows "b" and "stock_sound pending (working s')" and "stock_frame (working s) (working s')"
    and "reservations (working s') =
      update_where (\<lambda>x. resv_id x = resv_id r) (f (clock s)) (reservations (working s))"
    and "available_of (working s') k = available_of (working s) k +
      (if k = resv_key r then credit (resv_quantity r) else 0)"
    and "reserved_of (working s') k = reserved_of (working s) k -
      (if k = resv_key r then resv_quantity r else 0)"
proof -
  let ?p = "resv_product_id r" and ?w = "resv_warehouse_id r" and ?q = "resv_quantity r"
  note dist = stock_soundD(5) [OF sound]
  from run obtain m t where m: "mark (resv_id r) s = (Inr m, t)"
    and rest: "if m then and_then (move ?p ?w ?q) (\<lambda>_. and_then
        (audit_record ?p ?w (change ?q) (kind ?q) ref) (\<lambda>_. and_then
        (check_low_stock_transition ?p ?w (delta ?q)) (\<lambda>_. return True))) t = (Inr b, s')
      else \<not> b \<and> s' = t"
    by (auto simp: settle_eq settle_step_def split: if_splits)
  note act = settle_active [OF m [unfolded mark_eq] dist settled]
  have m_True: "m" using act r by (auto split: if_splits)
  with act obtain x where x: "x \<in> set (reservations (working s))" "resv_id x = resv_id r"
    and t: "t = s\<lparr>working := (working s)\<lparr>reservations :=
        update_where (\<lambda>x. resv_id x = resv_id r) (f (clock s)) (reservations (working s))\<rparr>\<rparr>"
    and held: "\<forall>k. held (working s) k = held (working t) k + quantity_of k [x]" by auto
  have "x = r" using unique_row [OF dist x(1) r(1) x(2)] .
  have pos: "0 < ?q" using r(1) stock_soundD(2) [OF sound] by (simp add: reservations_ok_def)
  have inv_t: "inventory (working t) = inventory (working s)" by (simp add: t)
  have u: "unique_pairs (working t)" using stock_soundD(4) [OF sound] by (simp add: unique_pairs_def t)
  note acct = account_of_unchanged [OF inv_t]
  have "?q \<le> reserved_of (working s) (?p, ?w)"
  proof -
    have "0 \<le> quantity_of (?p, ?w) pending"
      using sound by (intro quantity_of_nonneg) (simp add: stock_sound_def)
    moreover have "?q \<le> held (working s) (?p, ?w)"
      unfolding held_def using r stock_soundD(2) [OF sound]
      by (intro sum_where_member_le) (auto simp: reservations_ok_def)
    ultimately show ?thesis using conservedD [OF stock_soundD(3) [OF sound], of "(?p, ?w)"] by simp
  qed
  with pos have covered: "Option.bind (account (working t) (?p, ?w)) (spec ?q) \<noteq> None"
    using spec_covered acct by (auto simp: reserved_of_def split: option.splits)
  from rest m_True obtain mv t1 where mv: "move ?p ?w ?q t = (Inr mv, t1)" by auto
  from account_step(2) [OF mv u] covered have "mv" by blast
  with mv have moved: "move ?p ?w ?q t = (Inr True, t1)" by simp
  from rest m_True moved obtain a t2 y where
    log: "audit_record ?p ?w (change ?q) (kind ?q) ref t1 = (Inr a, t2)" and
    check: "check_low_stock_transition ?p ?w (delta ?q) t2 = (Inr y, s')" and b: "b"
    by auto
  show "b" by (rule b)
  note ev = event [OF moved u log check]
  have base_t: "stock_base (working t)"
    using stock_soundD(1) [OF sound] acct
    by (simp add: stock_base_def unique_pairs_def ledger_balanced_def alerts_announced_def t)
  have base: "stock_base (working s')"
  proof (rule event_base [OF ev base_t])
    fix a v a' v' assume "spec ?q (a, v) = Some (a', v')"
    from recorded [OF this] show "delta ?q < 0 \<or> a \<le> a'"
      using direction [OF pos] by (auto simp: leaves_reserved)
  qed
  have resv: "reservations (working s') =
      update_where (\<lambda>x. resv_id x = resv_id r) (f (clock s)) (reservations (working s))"
    using stock_event_frame(2) [OF ev] by (simp add: t)
  then show "reservations (working s') =
      update_where (\<lambda>x. resv_id x = resv_id r) (f (clock s)) (reservations (working s))" .
  show av: "available_of (working s') k = available_of (working s) k +
      (if k = resv_key r then credit ?q else 0)"
    and rs: "reserved_of (working s') k = reserved_of (working s) k -
      (if k = resv_key r then ?q else 0)" for k
    using event_quantities [OF ev, of k] acct by (simp_all add: leaves_reserved)
  have held': "held (working s) k = held (working s') k + quantity_of k [x]" for k
    using spec [OF held, of k] stock_event_frame(2) [OF ev] by (simp add: held_def)
  have "conserved pending (working s')"
    unfolding conserved_def
  proof
    fix k
    show "reserved_of (working s') k = held (working s') k + quantity_of k pending"
      using conservedD [OF stock_soundD(3) [OF sound], of k] rs [of k] held' [of k] \<open>x = r\<close>
      by (auto split: if_splits)
  qed
  moreover have "reservations_ok (working s')"
  proof -
    have f: "resv_id (f n x) = resv_id x" "resv_quantity (f n x) = resv_quantity x" for n x
      using settled by (simp_all add: settled_as_def)
    show ?thesis using stock_soundD(2) [OF sound]
      by (simp add: reservations_ok_def resv map_update_where f(1) ball_update_where f(2) cong: if_cong)
  qed
  ultimately show "stock_sound pending (working s')"
    using base sound by (simp add: stock_sound_def)
  show "stock_frame (working s) (working s')"
    using stock_event_frame(1) [OF ev] stock_frame_reservations [of "working s"]
    by (auto simp: t intro: stock_frame_trans)
qed

text \<open>The loop over a list of active reservations settles each of them.\<close>

lemma settle_done:
  assumes "settle r ref s = (Inr b, s')" and "stock_sound pending (working s)"
    and "r \<in> set (reservations (working s))" and "resv_status r = ACTIVE"
  shows "b \<and> stock_sound pending (working s') \<and>
    (\<forall>x\<in>set (reservations (working s')). resv_id x = resv_id r \<longrightarrow> resv_status x \<noteq> ACTIVE)"
  using settle_sound [OF assms] settled [of "clock s"] by (auto simp: update_where_def settled_as_def)

lemma settle_loop_sound:
  assumes "settle_loop settle ref rs s = (Inr u, s')" and "stock_sound pending (working s)"
    and "\<forall>r\<in>set rs. r \<in> set (reservations (working s)) \<and> resv_status r = ACTIVE"
    and "distinct (map resv_id rs)"
  shows "stock_sound pending (working s') \<and> stock_frame (working s) (working s') \<and>
    reservations (working s') =
      update_where (\<lambda>x. resv_id x \<in> resv_id ` set rs) (f (clock s)) (reservations (working s)) \<and>
    (\<forall>k. available_of (working s') k = available_of (working s) k +
        sum_where (\<lambda>r. resv_key r = k) (\<lambda>r. credit (resv_quantity r)) rs) \<and>
    (\<forall>k. reserved_of (working s') k = reserved_of (working s) k - quantity_of k rs)"
  using assms
proof (induction rs arbitrary: s)
  case Nil
  then show ?case by (simp add: update_where_none)
next
  case (Cons r rs)
  from Cons.prems(1) obtain b t where hd: "settle r ref s = (Inr b, t)"
    and tl: "settle_loop settle ref rs t = (Inr u, s')" by auto
  have r: "r \<in> set (reservations (working s))" "resv_status r = ACTIVE" using Cons.prems(3) by auto
  note step = settle_sound [OF hd Cons.prems(2) r]
  have ck: "clock t = clock s" using in_transactionD [OF in_transaction_settle hd] by simp
  have f_id: "resv_id (f n x) = resv_id x" for n x using settled by (simp add: settled_as_def)
  have "\<forall>x\<in>set rs. x \<in> set (reservations (working t)) \<and> resv_status x = ACTIVE"
  proof
    fix x assume x: "x \<in> set rs"
    then have "resv_id x \<noteq> resv_id r"
      using Cons.prems(4) by (metis distinct.simps(2) image_eqI list.simps(9) list.set_map)
    moreover have "x \<in> set (reservations (working s))" "resv_status x = ACTIVE" using Cons.prems(3) x by auto
    ultimately show "x \<in> set (reservations (working t)) \<and> resv_status x = ACTIVE"
      unfolding step(4) set_update_where by simp
  qed
  with Cons.IH [OF tl step(2)] Cons.prems(4) have IH:
    "stock_sound pending (working s')" "stock_frame (working t) (working s')"
    "reservations (working s') =
      update_where (\<lambda>x. resv_id x \<in> resv_id ` set rs) (f (clock s)) (reservations (working t))"
    "\<And>k. available_of (working s') k = available_of (working t) k +
        sum_where (\<lambda>r. resv_key r = k) (\<lambda>r. credit (resv_quantity r)) rs"
    "\<And>k. reserved_of (working s') k = reserved_of (working t) k - quantity_of k rs"
    unfolding ck by auto
  have "reservations (working s') =
      update_where (\<lambda>x. resv_id x \<in> resv_id ` set (r # rs)) (f (clock s)) (reservations (working s))"
    using IH(3) Cons.prems(4) unfolding step(4) by (simp add: update_where_ids f_id)
  then show ?case
    using IH(1,4,5) stock_frame_trans [OF step(3) IH(2)] step(5,6) by simp
qed

text \<open>All the active reservations of an order, as the callers list them.\<close>

lemma settle_order:
  assumes list: "list_active_for_order i s = (Inr rs, t)"
    and loop: "settle_loop settle ref rs t = (Inr u, s')" and sound: "stock_sound pending (working s)"
  shows "stock_sound pending (working s')" and "stock_frame (working s) (working s')"
    and "reservations (working s') =
      update_where (\<lambda>x. resv_order_id x = i \<and> resv_status x = ACTIVE) (f (clock s)) (reservations (working s))"
    and "available_of (working s') k = available_of (working s) k +
        sum_where (\<lambda>r. resv_key r = k) (\<lambda>r. credit (resv_quantity r)) rs"
    and "reserved_of (working s') k = reserved_of (working s) k - quantity_of k rs"
proof -
  let ?t = "reservations (working s)"
  from list have rs: "rs = filter (\<lambda>r. resv_order_id r = i \<and> resv_status r = ACTIVE) ?t" and t: "t = s"
    by (auto simp: list_active_for_order_def)
  note dist = stock_soundD(5) [OF sound]
  have "distinct (map resv_id rs)" unfolding rs by (rule distinct_map_filter [OF dist])
  moreover have "\<forall>r\<in>set rs. r \<in> set ?t \<and> resv_status r = ACTIVE" by (auto simp: rs)
  ultimately have loop: "stock_sound pending (working s') \<and> stock_frame (working s) (working s') \<and>
    reservations (working s') =
      update_where (\<lambda>x. resv_id x \<in> resv_id ` set rs) (f (clock s)) ?t \<and>
    (\<forall>k. available_of (working s') k = available_of (working s) k +
        sum_where (\<lambda>r. resv_key r = k) (\<lambda>r. credit (resv_quantity r)) rs) \<and>
    (\<forall>k. reserved_of (working s') k = reserved_of (working s) k - quantity_of k rs)"
    using settle_loop_sound [OF loop [unfolded t] sound] by blast
  have "update_where (\<lambda>x. resv_id x \<in> resv_id ` set rs) (f (clock s)) ?t =
      update_where (\<lambda>x. resv_order_id x = i \<and> resv_status x = ACTIVE) (f (clock s)) ?t"
  proof -
    have "resv_id x \<in> resv_id ` set rs \<longleftrightarrow> resv_order_id x = i \<and> resv_status x = ACTIVE"
      if x: "x \<in> set ?t" for x
      using unique_row [OF dist x] x by (auto simp: rs)
    then show ?thesis by (auto simp: update_where_def)
  qed
  with loop show "stock_sound pending (working s')" and "stock_frame (working s) (working s')"
    and "reservations (working s') =
      update_where (\<lambda>x. resv_order_id x = i \<and> resv_status x = ACTIVE) (f (clock s)) ?t"
    and "available_of (working s') k = available_of (working s) k +
        sum_where (\<lambda>r. resv_key r = k) (\<lambda>r. credit (resv_quantity r)) rs"
    and "reserved_of (working s') k = reserved_of (working s) k - quantity_of k rs"
    by auto
qed

end

interpretation releasing_r: settlement inventory_release release_spec "\<lambda>_. RESERVATION_RELEASED" "\<lambda>q. q"
  release_reservation mark_released "\<lambda>n r. r\<lparr>resv_status := RELEASED, resv_released_at := Some n\<rparr>"
  "\<lambda>q. q" "\<lambda>q. q"
proof
  show "release_reservation = settle_step mark_released inventory_release (\<lambda>_. RESERVATION_RELEASED)
      (\<lambda>q. q) (\<lambda>q. q)"
    by (intro ext) (simp add: release_reservation_def settle_step_def)
qed (auto simp: mark_released_def settled_released)

interpretation consuming_r: settlement inventory_consume consume_spec "\<lambda>_. ORDER_COMPLETED" uminus
  consume_reservation mark_consumed "\<lambda>n r. r\<lparr>resv_status := CONSUMED\<rparr>" "\<lambda>_. 0" "\<lambda>_. 0"
proof
  show "consume_reservation = settle_step mark_consumed inventory_consume (\<lambda>_. ORDER_COMPLETED)
      uminus (\<lambda>_. 0)"
    by (intro ext) (simp add: consume_reservation_def settle_step_def check_low_stock_transition_def
        and_then_def return_def cong: if_cong split: prod.splits sum.splits)
qed (auto simp: mark_consumed_def settled_consumed)

end
