(* ===== verification/Contention.thy ===== *)
theory Contention
  imports Settlement
begin

text \<open>
  Many clients compete for one pair. The guarded UPDATE of \<open>try_reserve\<close> locks the row, so the
  statements of concurrent transactions on it run one after the other in some order; the SELECT of
  \<open>find_best_warehouse\<close> each of them made before is stale and plays no part. \<open>reserve_each\<close> runs the
  reservations in such an order, whatever it is: the outcome does not depend on it.
\<close>

primrec reserve_each :: "ident \<Rightarrow> ident \<Rightarrow> int \<Rightarrow> ident list \<Rightarrow> bool list op" where
  "reserve_each p w q [] = return []"
| "reserve_each p w q (i # is) = and_then (reserve p w q i) (\<lambda>ok.
     and_then (reserve_each p w q is) (\<lambda>oks. return (ok # oks)))"

text \<open>One granted reservation, seen from the row of the pair.\<close>

lemma reserve_granted:
  assumes run: "reserve p w q i s = (Inr True, s')" and sound: "stock_sound pending (working s)" and q: "0 < q"
    and r: "r \<in> set (inventory (working s))" "inv_key r = (p, w)"
  obtains r' al where "r' \<in> set (inventory (working s'))" "inv_key r' = (p, w)"
    "q \<le> available_quantity r" "available_quantity r' = available_quantity r - q"
    "reserved_quantity r' = reserved_quantity r + q" "low_stock_threshold r' = low_stock_threshold r"
    "is_low_stock r' = flag_after (-1) (low_stock_threshold r) (available_quantity r') (is_low_stock r)"
    "low_stock_alerts (working s') = low_stock_alerts (working s) @ al"
    "length al = (if crosses (-1) (low_stock_threshold r) (available_quantity r') (is_low_stock r) then 1 else 0)"
proof -
  let ?x = "\<lparr>resv_id = [], resv_order_id = i, resv_product_id = p, resv_warehouse_id = w,
    resv_quantity = q, resv_status = ACTIVE, resv_expires_at = 0, resv_created_at = 0, resv_released_at = None\<rparr>"
  have "stock_event (p, w) (reserve_spec q) (- q) INVENTORY_RESERVED (- q) i (working s) (working s')"
    by (rule reserve_True(1) [OF run sound, of ?x]) (use q in simp_all)
  then obtain h a al es where w': "working s' = (working s)\<lparr>inventory := map h (inventory (working s)),
      audit_logs := audit_logs (working s) @ [a], low_stock_alerts := low_stock_alerts (working s) @ al,
      outbox_events := outbox_events (working s) @ es\<rparr>"
    and rows: "\<forall>r\<in>set (inventory (working s)). event_row (p, w) (reserve_spec q) (- q) al r (h r)"
    by (rule stock_eventE) blast
  from w' have d': "inventory (working s') = map h (inventory (working s))"
    "low_stock_alerts (working s') = low_stock_alerts (working s) @ al" by simp_all
  from event_row_pair [OF rows [rule_format, OF r(1)] r(2)]
  have spec: "reserve_spec q (row_account r) = Some (row_account (h r))"
    and flag: "is_low_stock (h r) = flag_after (- q) (low_stock_threshold r) (available_quantity (h r)) (is_low_stock r)"
    and alerts: "if crosses (- q) (low_stock_threshold r) (available_quantity (h r)) (is_low_stock r)
     then \<exists>x. al = [x] \<and> alert_of (h r) x else al = []" by blast+
  have sign: "flag_after (- q) = flag_after (-1)" "crosses (- q) = crosses (-1)"
    using q by (simp_all add: fun_eq_iff flag_after_def crosses_def split: option.splits)
  from event_row_keys [OF rows [rule_format, OF r(1)]] r(2)
  have keys: "inv_key (h r) = (p, w)" "low_stock_threshold (h r) = low_stock_threshold r" by simp_all
  from spec have acc: "q \<le> available_quantity r" "available_quantity (h r) = available_quantity r - q"
    "reserved_quantity (h r) = reserved_quantity r + q"
    by (auto simp: row_account_def split: if_splits)
  show thesis
    by (rule that [of "h r" al]) (use r(1) d' keys acc flag alerts sign in \<open>auto split: if_splits\<close>)
qed

lemma reserve_sound:
  assumes run: "reserve p w q i s = (Inr b, s')" and sound: "stock_sound pending (working s)" and q: "0 < q"
  shows "\<exists>pending'. stock_sound pending' (working s')"
proof (cases b)
  case True
  let ?x = "\<lparr>resv_id = [], resv_order_id = i, resv_product_id = p, resv_warehouse_id = w,
    resv_quantity = q, resv_status = ACTIVE, resv_expires_at = 0, resv_created_at = 0, resv_released_at = None\<rparr>"
  from run True have "reserve p w q i s = (Inr True, s')" by simp
  then have "stock_sound (?x # pending) (working s')"
    by (rule reserve_True(2) [OF _ sound]) (use q in simp_all)
  then show ?thesis by blast
next
  case False
  with reserve_False(1) [of p w q i s s'] run stock_soundD(4) [OF sound] sound show ?thesis by auto
qed

text \<open>\<open>n\<close> units granted out of what the row had.\<close>

definition granted_from :: "int \<Rightarrow> nat \<Rightarrow> inventory_row \<Rightarrow> inventory_row \<Rightarrow> bool" where
  "granted_from q n r r' \<longleftrightarrow> inv_key r' = inv_key r \<and>
     available_quantity r' = available_quantity r - q * int n \<and>
     reserved_quantity r' = reserved_quantity r + q * int n \<and>
     low_stock_threshold r' = low_stock_threshold r \<and>
     is_low_stock r' = (if n = 0 then is_low_stock r
       else flag_after (-1) (low_stock_threshold r) (available_quantity r') (is_low_stock r))"

lemma granted_from_trans:
  assumes "granted_from q 1 r x" and "granted_from q n x y" and "0 < q"
  shows "granted_from q (Suc n) r y"
proof -
  have "q * int (Suc n) = q + q * int n" by (simp add: algebra_simps)
  then have "inv_key y = inv_key r" "available_quantity y = available_quantity r - q * int (Suc n)"
    "reserved_quantity y = reserved_quantity r + q * int (Suc n)" "low_stock_threshold y = low_stock_threshold r"
    using assms by (simp_all add: granted_from_def)
  moreover have "available_quantity y \<le> available_quantity x"
    using assms by (simp add: granted_from_def)
  then have "is_low_stock y = flag_after (-1) (low_stock_threshold r) (available_quantity y) (is_low_stock r)"
    using assms(1,2) by (cases n) (auto simp: granted_from_def flag_after_def split: option.splits)
  ultimately show ?thesis by (simp add: granted_from_def)
qed

lemma refused_row:
  assumes "reserve p w q i s = (Inr False, s')" and u: "unique_pairs (working s)"
    and r: "r \<in> set (inventory (working s))" "inv_key r = (p, w)"
  shows "s' = s" and "available_quantity r < q"
  using reserve_False [OF assms(1) u] account_row [OF u r(1)] r(2)
  by (auto simp: row_account_def split: if_splits)

lemma grants_fit: "0 < q \<Longrightarrow> q \<le> a \<Longrightarrow> nat (a div q) = Suc (nat ((a - q) div q))" for a :: int
  by (simp add: Suc_nat_eq_nat_zadd1 pos_imp_zdiv_nonneg_iff div_pos_geq add.commute)

lemma reserve_each_exact:
  assumes "reserve_each p w q is s = (Inr oks, s')" and "stock_sound pending (working s)" and "0 < q"
    and "r \<in> set (inventory (working s))" and "inv_key r = (p, w)" and "0 \<le> available_quantity r"
  shows "\<exists>r'\<in>set (inventory (working s')).
    granted_from q (min (length is) (nat (available_quantity r div q))) r r' \<and>
    (\<exists>al. low_stock_alerts (working s') = low_stock_alerts (working s) @ al \<and>
      length al = (if is_low_stock r' \<and> \<not> is_low_stock r then 1 else 0)) \<and>
    oks = map (\<lambda>j. j < nat (available_quantity r div q)) [0..<length is]"
  using assms
proof (induction "is" arbitrary: s r oks pending)
  case Nil
  then show ?case by (auto simp: granted_from_def)
next
  case (Cons i "is")
  from Cons.prems(1) obtain b t bs where one: "reserve p w q i s = (Inr b, t)"
    and rest: "reserve_each p w q is t = (Inr bs, s')" and oks: "oks = b # bs" by auto
  from reserve_sound [OF one Cons.prems(2,3)] obtain pending' where sound: "stock_sound pending' (working t)" ..
  show ?case
  proof (cases b)
    case False
    with one have "reserve p w q i s = (Inr False, t)" by simp
    note no = refused_row [OF this stock_soundD(4) [OF Cons.prems(2)] Cons.prems(4,5)]
    have zero: "nat (available_quantity r div q) = 0" using no(2) Cons.prems(6) by simp
    from Cons.IH [OF rest sound Cons.prems(3) _ Cons.prems(5,6)] Cons.prems(4) no(1) zero oks False
    show ?thesis by (simp add: map_replicate_const)
  next
    case True
    with one have "reserve p w q i s = (Inr True, t)" by simp
    from reserve_granted [OF this Cons.prems(2-5)] obtain x al where
      x: "x \<in> set (inventory (working t))" "inv_key x = (p, w)" "q \<le> available_quantity r"
        "available_quantity x = available_quantity r - q" "reserved_quantity x = reserved_quantity r + q"
        "low_stock_threshold x = low_stock_threshold r"
        "is_low_stock x = flag_after (-1) (low_stock_threshold r) (available_quantity x) (is_low_stock r)"
      and al: "low_stock_alerts (working t) = low_stock_alerts (working s) @ al"
        "length al = (if crosses (-1) (low_stock_threshold r) (available_quantity x) (is_low_stock r) then 1 else 0)"
      by blast
    have m: "nat (available_quantity r div q) = Suc (nat (available_quantity x div q))"
      using grants_fit [OF Cons.prems(3) x(3)] x(4) by simp
    from Cons.IH [OF rest sound Cons.prems(3) x(1,2)] x(3,4) obtain y bl where
      y: "y \<in> set (inventory (working s'))" "granted_from q (min (length is) (nat (available_quantity x div q))) x y"
      and bl: "low_stock_alerts (working s') = low_stock_alerts (working t) @ bl"
        "length bl = (if is_low_stock y \<and> \<not> is_low_stock x then 1 else 0)"
      and bs: "bs = map (\<lambda>j. j < nat (available_quantity x div q)) [0..<length is]" by auto
    have kept: "is_low_stock x \<Longrightarrow> is_low_stock y"
      using y(2) by (auto simp: granted_from_def flag_after_def split: option.splits if_splits)
    have "granted_from q 1 r x" using x Cons.prems(5) by (simp add: granted_from_def)
    from granted_from_trans [OF this y(2) Cons.prems(3)]
    have "granted_from q (min (length (i # is)) (nat (available_quantity r div q))) r y" by (simp add: m)
    moreover have "length (al @ bl) = (if is_low_stock y \<and> \<not> is_low_stock r then 1 else 0)"
      using al(2) bl(2) kept x(6,7) by (auto simp: crosses_def flag_after_def split: option.splits)
    moreover have "oks = map (\<lambda>j. j < nat (available_quantity r div q)) [0..<length (i # is)]"
      unfolding oks bs m using True by (simp add: map_upt_Suc del: upt_Suc)
    ultimately show ?thesis using y(1) bl(1) al(1) by (metis append.assoc)
  qed
qed

end
