(* ===== verification/Orders.thy ===== *)
theory Orders
  imports Session
begin

text \<open>
  \<open>src/repositories/order_repository.py\<close>, the order schemas of \<open>src/schemas/order.py\<close> and
  \<open>src/services/payment_service.py\<close>. A loaded order is its row; \<open>update_status\<close> writes back the
  attributes of the loaded row that the callers change (the status, and the attempt counter in the
  worker).
\<close>

record order_line =
  ol_product_id :: ident
  ol_quantity :: int

record order_request =
  req_items :: "order_line list"
  req_payment_token :: string

text \<open>\<open>OrderCreateRequest\<close>: at least one line, positive quantities, no product twice.\<close>

definition valid_order_request :: "order_request \<Rightarrow> bool" where
  "valid_order_request p \<longleftrightarrow> 1 \<le> length (req_items p) \<and>
     (\<forall>l\<in>set (req_items p). 0 < ol_quantity l) \<and>
     length (map ol_product_id (req_items p)) = card (set (map ol_product_id (req_items p)))"

lemma valid_order_request_iff:
  "valid_order_request p \<longleftrightarrow> req_items p \<noteq> [] \<and> (\<forall>l\<in>set (req_items p). 0 < ol_quantity l) \<and>
     distinct (map ol_product_id (req_items p))"
proof -
  have "length xs = card (set xs) \<longleftrightarrow> distinct xs" for xs :: "ident list"
    using card_distinct [of xs] distinct_card [of xs] by metis
  moreover have "1 \<le> length (req_items p) \<longleftrightarrow> req_items p \<noteq> []" by (cases "req_items p") simp_all
  ultimately show ?thesis unfolding valid_order_request_def by blast
qed

text \<open>\<open>payload.model_dump(mode="json")\<close>\<close>

definition dump_line :: "order_line \<Rightarrow> json" where
  "dump_line l = JObj [(''product_id'', JStr (ol_product_id l)), (''quantity'', JInt (ol_quantity l))]"

definition dump_request :: "order_request \<Rightarrow> json" where
  "dump_request p = JObj [(''items'', JArr (map dump_line (req_items p))),
     (''payment_token'', JStr (req_payment_token p))]"

subsection \<open>Repository\<close>

definition order_get_by_id :: "ident \<Rightarrow> order_row option op" where
  "order_get_by_id order_id = select_one orders (\<lambda>r. ord_id r = order_id)"

definition order_get_by_id_for_update :: "ident \<Rightarrow> order_row option op" where
  "order_get_by_id_for_update order_id = select_one orders (\<lambda>r. ord_id r = order_id)"

definition order_get_by_idempotency_key :: "string \<Rightarrow> order_row option op" where
  "order_get_by_idempotency_key key = select_one orders (\<lambda>r. ord_idempotency_key r = Some key)"

text \<open>\<open>order.items\<close>, eager-loaded with the order.\<close>

definition items_of_order :: "ident \<Rightarrow> order_item list op" where
  "items_of_order order_id = query (\<lambda>d. filter (\<lambda>i. item_order_id i = order_id) (order_items d))"

definition order_item_insert :: "order_item \<Rightarrow> unit op" where
  "order_item_insert i = and_then
     (exec_insert order_items (\<lambda>t d. d\<lparr>order_items := t\<rparr>) check_order_item i) (\<lambda>_. return ())"

definition order_create :: "order_row \<Rightarrow> order_item list \<Rightarrow> order_row op" where
  "order_create order items =
     and_then (exec_insert orders (\<lambda>t d. d\<lparr>orders := t\<rparr>) check_order order) (\<lambda>_.
     and_then (for_each order_item_insert items) (\<lambda>_. return order))"

definition update_orders ::
  "(order_row \<Rightarrow> bool) \<Rightarrow> (time \<Rightarrow> order_row \<Rightarrow> order_row) \<Rightarrow> order_row list op" where
  "update_orders = exec_update orders (\<lambda>t d. d\<lparr>orders := t\<rparr>) check_order_row"

definition order_update_status :: "order_row \<Rightarrow> order_status \<Rightarrow> unit op" where
  "order_update_status order status = and_then
     (update_orders (\<lambda>r. ord_id r = ord_id order)
        (\<lambda>n r. r\<lparr>ord_status := status, ord_processing_attempts := ord_processing_attempts order,
                 ord_updated_at := n\<rparr>))
     (\<lambda>_. return ())"

definition order_refresh :: "ident \<Rightarrow> order_row op" where
  "order_refresh order_id = and_then (order_get_by_id order_id) (\<lambda>found.
     case found of None \<Rightarrow> raise RefreshError | Some o' \<Rightarrow> return o')"

record order_filter =
  flt_status :: "order_status option"
  flt_created_after :: "time option"
  flt_created_before :: "time option"
  flt_user_id :: "ident option"

definition matches_filter :: "order_filter \<Rightarrow> order_row \<Rightarrow> bool" where
  "matches_filter f r \<longleftrightarrow>
     (case flt_status f of None \<Rightarrow> True | Some st \<Rightarrow> ord_status r = st) \<and>
     (case flt_created_after f of None \<Rightarrow> True | Some t \<Rightarrow> ord_created_at r \<ge> t) \<and>
     (case flt_created_before f of None \<Rightarrow> True | Some t \<Rightarrow> ord_created_at r \<le> t) \<and>
     (case flt_user_id f of None \<Rightarrow> True | Some u \<Rightarrow> ord_created_by_user_id r = u)"

text \<open>The rows that SQL leaves unordered, those created at the same time, come in the order of the table.\<close>

definition order_list :: "order_filter \<Rightarrow> nat \<Rightarrow> nat \<Rightarrow> (order_row list \<times> nat) op" where
  "order_list f page limit = query (\<lambda>d.
     let matching = filter (matches_filter f) (orders d) in
     (take limit (drop ((page - 1) * limit) (sort_key (\<lambda>r. - ord_created_at r) matching)),
      length matching))"

lemmas order_statements = order_get_by_id_def order_get_by_id_for_update_def
  order_get_by_idempotency_key_def items_of_order_def order_item_insert_def order_create_def
  order_update_status_def update_orders_def order_list_def

lemma in_transaction_orders [in_transaction_intro]:
  "in_transaction (order_get_by_id i)" "in_transaction (order_get_by_id_for_update i)"
  "in_transaction (order_get_by_idempotency_key k)" "in_transaction (items_of_order i)"
  "in_transaction (order_create r items)" "in_transaction (order_update_status r st)"
  "in_transaction (order_list f p l)"
  unfolding order_statements by - (intro in_transaction_intro)+

lemma in_transaction_order_refresh [in_transaction_intro]: "in_transaction (order_refresh i)"
  unfolding order_refresh_def by (intro in_transaction_intro)

subsection \<open>Effects\<close>

definition unique_orders :: "db \<Rightarrow> bool" where
  "unique_orders d \<longleftrightarrow> distinct (map ord_id (orders d))"

lemma order_get_Some:
  "order_get_by_id_for_update i s = (Inr (Some r), s') \<Longrightarrow>
     s' = s \<and> r \<in> set (orders (working s)) \<and> ord_id r = i"
  "order_get_by_id i s = (Inr (Some r), s') \<Longrightarrow>
     s' = s \<and> r \<in> set (orders (working s)) \<and> ord_id r = i"
  by (auto simp: order_get_by_id_for_update_def order_get_by_id_def dest: select_one_Some)

lemma order_get_None:
  "order_get_by_id_for_update i s = (Inr None, s') \<Longrightarrow> s' = s \<and> \<not> has_order (working s) i"
  "order_get_by_id i s = (Inr None, s') \<Longrightarrow> s' = s \<and> \<not> has_order (working s) i"
  by (auto simp: order_get_by_id_for_update_def order_get_by_id_def select_one_None has_order_def)

lemma order_get_found:
  assumes "unique_orders (working s)" and "r \<in> set (orders (working s))"
  shows "order_get_by_id_for_update (ord_id r) s = (Inr (Some r), s)"
    and "order_get_by_id (ord_id r) s = (Inr (Some r), s)"
  using orders_tbl.select_by_key [of s r] assms
  by (simp_all add: unique_orders_def order_get_by_id_for_update_def order_get_by_id_def)

lemma order_get_Inl:
  "order_get_by_id_for_update i s = (Inl e, s') \<Longrightarrow> s' = s"
  "order_get_by_id i s = (Inl e, s') \<Longrightarrow> s' = s"
  by (auto simp: order_get_by_id_for_update_def order_get_by_id_def dest: select_one_Inl)

lemma order_update_status_effect:
  assumes "order_update_status r st s = (Inr u, s')"
  shows "s' = s\<lparr>working := (working s)\<lparr>orders := update_where (\<lambda>x. ord_id x = ord_id r)
      (\<lambda>x. x\<lparr>ord_status := st, ord_processing_attempts := ord_processing_attempts r,
             ord_updated_at := clock s\<rparr>) (orders (working s))\<rparr>\<rparr>"
  using assms by (auto simp: order_update_status_def update_orders_def exec_update_Inr)

lemma order_items_insert_effect:
  assumes "for_each order_item_insert items s = (Inr u, s')"
  shows "working s' = (working s)\<lparr>order_items := order_items (working s) @ items\<rparr>"
  using assms
  by (induction items arbitrary: s) (auto simp: order_item_insert_def exec_insert_Inr)

lemma order_create_effect:
  assumes "order_create r items s = (Inr x, s')"
  shows "x = r" and "working s' = (working s)\<lparr>orders := orders (working s) @ [r],
      order_items := order_items (working s) @ items\<rparr>"
    and "ord_id r \<notin> ord_id ` set (orders (working s))" and "has_user (working s) (ord_created_by_user_id r)"
    and "ord_idempotency_key r = Some k \<Longrightarrow> Some k \<notin> ord_idempotency_key ` set (orders (working s))"
  using assms order_items_insert_effect
  by (auto simp: order_create_def exec_insert_Inr check_order_def split: option.splits if_splits
      dest!: order_items_insert_effect)

subsection \<open>The simulated payment provider\<close>

record payment_outcome =
  pay_result :: payment_result
  pay_retryable :: bool
  pay_message :: string

definition charge :: "string \<Rightarrow> payment_outcome" where
  "charge payment_token =
     (if payment_token = ''fail'' then
        \<lparr>pay_result = PAY_FAILED, pay_retryable = False, pay_message = ''Simulated payment declined''\<rparr>
      else if payment_token = ''fail_retryable'' then
        \<lparr>pay_result = PAY_FAILED, pay_retryable = True,
         pay_message = ''Simulated transient payment provider error''\<rparr>
      else \<lparr>pay_result = PAY_SUCCESS, pay_retryable = False,
         pay_message = ''Simulated payment approved''\<rparr>)"

lemma charge_cases:
  "pay_result (charge t) = PAY_SUCCESS \<longleftrightarrow> t \<noteq> ''fail'' \<and> t \<noteq> ''fail_retryable''"
  "pay_retryable (charge t) \<longleftrightarrow> t = ''fail_retryable''"
  by (auto simp: charge_def)

end
