(* ===== verification/Idempotency.thy ===== *)
theory Idempotency
  imports Orders
begin

text \<open>
  \<open>src/services/idempotency_service.py\<close> and \<open>src/repositories/idempotency_repository.py\<close>.
  \<open>hashlib.sha256(...).hexdigest()\<close> is the parameter \<open>sha\<close> of every definition that hashes. The
  text it hashes, \<open>json.dumps(payload, sort_keys=True)\<close>, is written out for the one shape of payload
  the program hashes: an order request, whose keys are already in sorted order.
\<close>

subsection \<open>The canonical text of a request\<close>

definition hex_digit :: "nat \<Rightarrow> char" where
  "hex_digit n = (if n < 10 then char_of (48 + n) else char_of (87 + n))"

text \<open>\<open>ensure_ascii\<close>: a short escape, a printable ASCII character, or \<open>\u00xy\<close>.\<close>

definition json_char :: "char \<Rightarrow> string" where
  "json_char c = (let n = (of_char c :: nat) in
     if n = 34 then [CHR 0x5C, CHR 0x22]
     else if n = 92 then [CHR 0x5C, CHR 0x5C]
     else if n = 10 then [CHR 0x5C, CHR ''n'']
     else if n = 13 then [CHR 0x5C, CHR ''r'']
     else if n = 9 then [CHR 0x5C, CHR ''t'']
     else if n = 12 then [CHR 0x5C, CHR ''f'']
     else if n = 8 then [CHR 0x5C, CHR ''b'']
     else if 32 \<le> n \<and> n \<le> 126 then [c]
     else [CHR 0x5C, CHR ''u'', CHR ''0'', CHR ''0'', hex_digit (n div 16), hex_digit (n mod 16)])"

definition json_string :: "string \<Rightarrow> string" where
  "json_string s = CHR 0x22 # concat (map json_char s) @ [CHR 0x22]"

definition line_text :: "order_line \<Rightarrow> string" where
  "line_text l = ''{'' @ json_string ''product_id'' @ '': '' @ json_string (ol_product_id l) @ '', '' @
     json_string ''quantity'' @ '': '' @ render_int (ol_quantity l) @ ''}''"

fun comma_separated :: "string list \<Rightarrow> string" where
  "comma_separated [] = []"
| "comma_separated [x] = x"
| "comma_separated (x # y # ys) = x @ '', '' @ comma_separated (y # ys)"

definition request_text :: "order_request \<Rightarrow> string" where
  "request_text p = ''{'' @ json_string ''items'' @ '': ['' @
     comma_separated (map line_text (req_items p)) @ ''], '' @ json_string ''payment_token'' @ '': '' @
     json_string (req_payment_token p) @ ''}''"

definition compute_request_hash :: "(string \<Rightarrow> string) \<Rightarrow> order_request \<Rightarrow> string" where
  "compute_request_hash sha payload = sha (request_text payload)"

subsection \<open>Repository\<close>

text \<open>The INSERT runs in a SAVEPOINT: on a conflict it alone is undone.\<close>

definition try_claim :: "string \<Rightarrow> string \<Rightarrow> idempotency_key option op" where
  "try_claim key request_hash = and_then now (\<lambda>n. try_except
     (and_then (exec_insert idempotency_keys (\<lambda>t d. d\<lparr>idempotency_keys := t\<rparr>) check_idempotency_key
        \<lparr>idem_key = key, idem_request_hash = request_hash, idem_order_id = None,
         idem_status = IDEM_IN_PROGRESS, idem_response_body = None, idem_created_at = n\<rparr>)
        (\<lambda>entry. return (Some entry)))
     (\<lambda>e. case e of IntegrityError _ \<Rightarrow> return None | _ \<Rightarrow> raise e))"

definition idempotency_get_for_update :: "string \<Rightarrow> idempotency_key option op" where
  "idempotency_get_for_update key = select_one idempotency_keys (\<lambda>r. idem_key r = key)"

definition mark_completed :: "idempotency_key \<Rightarrow> ident \<Rightarrow> json \<Rightarrow> unit op" where
  "mark_completed entry order_id response_body = and_then
     (exec_update idempotency_keys (\<lambda>t d. d\<lparr>idempotency_keys := t\<rparr>) (\<lambda>_. None)
        (\<lambda>r. idem_key r = idem_key entry)
        (\<lambda>_ r. r\<lparr>idem_status := IDEM_COMPLETED, idem_order_id := Some order_id,
                 idem_response_body := Some response_body\<rparr>))
     (\<lambda>_. return ())"

subsection \<open>Service\<close>

record idempotency_claim =
  claim_entry :: "idempotency_key option"
  cached_response :: "json option"

definition key_details :: "string \<Rightarrow> (string \<times> json) list" where
  "key_details key = [(''idempotency_key'', JStr key)]"

definition key_reused :: "string \<Rightarrow> exn" where
  "key_reused key = app_err InvalidRequestError
     ''This Idempotency-Key was already used with a different request body'' (key_details key)"

definition key_in_progress :: "string \<Rightarrow> exn" where
  "key_in_progress key = app_err IdempotencyConflictError
     ''A previous request with this Idempotency-Key did not complete successfully; please retry''
     (key_details key)"

definition idempotency_begin :: "(string \<Rightarrow> string) \<Rightarrow> string \<Rightarrow> order_request \<Rightarrow> idempotency_claim op" where
  "idempotency_begin sha key payload =
     (let request_hash = compute_request_hash sha payload in
      and_then (try_claim key request_hash) (\<lambda>entry.
      if entry \<noteq> None then return \<lparr>claim_entry = entry, cached_response = None\<rparr> else
      and_then (idempotency_get_for_update key) (\<lambda>found.
      case found of
        None \<Rightarrow> raise (app_err InvalidRequestError
                   ''Idempotency key state is inconsistent, please retry'' [])
      | Some existing \<Rightarrow>
          if idem_request_hash existing \<noteq> request_hash then raise (key_reused key)
          else if idem_status existing = IDEM_COMPLETED then
            return \<lparr>claim_entry = Some existing, cached_response = idem_response_body existing\<rparr>
          else raise (key_in_progress key))))"

definition idempotency_complete :: "idempotency_key \<Rightarrow> ident \<Rightarrow> json \<Rightarrow> unit op" where
  "idempotency_complete entry order_id response_body = mark_completed entry order_id response_body"

lemma in_transaction_idempotency [in_transaction_intro]:
  "in_transaction (idempotency_get_for_update k)" "in_transaction (mark_completed e i j)"
  "in_transaction (idempotency_complete e i j)"
  unfolding idempotency_get_for_update_def mark_completed_def idempotency_complete_def
  by - (intro in_transaction_intro)+

lemma in_transaction_try_claim [in_transaction_intro]: "in_transaction (try_claim k h)"
  unfolding try_claim_def
  by (intro in_transaction_intro) (auto intro: in_transaction_intro split: exn.splits)

lemma in_transaction_idempotency_begin [in_transaction_intro]: "in_transaction (idempotency_begin sha k p)"
  unfolding idempotency_begin_def Let_def by (intro in_transaction_intro)

subsection \<open>Claiming a key\<close>

definition unique_keys :: "db \<Rightarrow> bool" where
  "unique_keys d \<longleftrightarrow> distinct (map idem_key (idempotency_keys d))"

lemma on_conflict [simp]:
  "(case e of IntegrityError _ \<Rightarrow> return None | _ \<Rightarrow> raise e) t = (Inr x, s') \<longleftrightarrow>
     (\<exists>c. e = IntegrityError c) \<and> x = None \<and> s' = t"
  by (cases e) auto

lemma try_claim_effect:
  assumes "try_claim key h s = (Inr claim, s')"
  shows "case claim of
      None \<Rightarrow> s' = s \<and> key \<in> idem_key ` set (idempotency_keys (working s))
    | Some entry \<Rightarrow> key \<notin> idem_key ` set (idempotency_keys (working s)) \<and> idem_key entry = key \<and>
        idem_request_hash entry = h \<and> idem_status entry = IDEM_IN_PROGRESS \<and>
        s' = s\<lparr>working := (working s)\<lparr>idempotency_keys := idempotency_keys (working s) @ [entry]\<rparr>\<rparr>"
  using assms
  by (auto simp: try_claim_def try_except_Inr and_then_Inl exec_insert_Inr exec_insert_Inl
      check_idempotency_key_def split: if_splits)

lemma idempotency_begin_effect:
  assumes "idempotency_begin sha key p s = (Inr c, s')"
  shows "(\<exists>entry. c = \<lparr>claim_entry = Some entry, cached_response = None\<rparr> \<and>
        key \<notin> idem_key ` set (idempotency_keys (working s)) \<and> idem_key entry = key \<and>
        idem_request_hash entry = compute_request_hash sha p \<and> idem_status entry = IDEM_IN_PROGRESS \<and>
        s' = s\<lparr>working := (working s)\<lparr>idempotency_keys := idempotency_keys (working s) @ [entry]\<rparr>\<rparr>) \<or>
     (\<exists>entry \<in> set (idempotency_keys (working s)). s' = s \<and> idem_key entry = key \<and>
        idem_request_hash entry = compute_request_hash sha p \<and> idem_status entry = IDEM_COMPLETED \<and>
        c = \<lparr>claim_entry = Some entry, cached_response = idem_response_body entry\<rparr>)"
proof -
  let ?h = "compute_request_hash sha p"
  from assms obtain claim t where claim: "try_claim key ?h s = (Inr claim, t)"
    and rest: "(if claim \<noteq> None then return \<lparr>claim_entry = claim, cached_response = None\<rparr> else
      and_then (idempotency_get_for_update key) (\<lambda>found.
      case found of
        None \<Rightarrow> raise (app_err InvalidRequestError
                   ''Idempotency key state is inconsistent, please retry'' [])
      | Some existing \<Rightarrow>
          if idem_request_hash existing \<noteq> ?h then raise (key_reused key)
          else if idem_status existing = IDEM_COMPLETED then
            return \<lparr>claim_entry = Some existing, cached_response = idem_response_body existing\<rparr>
          else raise (key_in_progress key))) t = (Inr c, s')"
    unfolding idempotency_begin_def Let_def and_then_Inr by blast
  show ?thesis
  proof (cases claim)
    case None
    with try_claim_effect [OF claim] have "t = s" by simp
    with None rest obtain existing where "idempotency_get_for_update key s = (Inr (Some existing), s')"
      and "idem_request_hash existing = ?h" "idem_status existing = IDEM_COMPLETED"
      and "c = \<lparr>claim_entry = Some existing, cached_response = idem_response_body existing\<rparr>"
      by (auto split: option.splits if_splits)
    then show ?thesis
      using select_one_Some [of idempotency_keys "\<lambda>r. idem_key r = key" s existing s']
      by (auto simp: idempotency_get_for_update_def)
  next
    case (Some e)
    with try_claim_effect [OF claim] rest show ?thesis by auto
  qed
qed

text \<open>A known key, by the state of its record.\<close>

lemma idempotency_begin_known:
  assumes u: "unique_keys (working s)" and e: "entry \<in> set (idempotency_keys (working s))" "idem_key entry = key"
    and fits: "varchar 255 key" "varchar 64 (compute_request_hash sha p)"
  shows "idempotency_begin sha key p s =
     (if idem_request_hash entry \<noteq> compute_request_hash sha p then (Inl (key_reused key), s)
      else if idem_status entry = IDEM_COMPLETED
      then (Inr \<lparr>claim_entry = Some entry, cached_response = idem_response_body entry\<rparr>, s)
      else (Inl (key_in_progress key), s))"
proof -
  have "try_claim key (compute_request_hash sha p) s = (Inr None, s)"
    using e fits
    by (auto simp: try_claim_def and_then_def now_def try_except_def exec_insert_def
        check_idempotency_key_def return_def)
  moreover have "idempotency_get_for_update key s = (Inr (Some entry), s)"
    using idempotency_tbl.select_by_key [of s entry] u e
    by (simp add: unique_keys_def idempotency_get_for_update_def)
  ultimately show ?thesis
    by (simp add: idempotency_begin_def Let_def and_then_def return_def raise_def)
qed

lemma mark_completed_effect:
  assumes "mark_completed e i j s = (Inr u, s')"
  shows "s' = s\<lparr>working := (working s)\<lparr>idempotency_keys := update_where (\<lambda>r. idem_key r = idem_key e)
      (\<lambda>r. r\<lparr>idem_status := IDEM_COMPLETED, idem_order_id := Some i, idem_response_body := Some j\<rparr>)
      (idempotency_keys (working s))\<rparr>\<rparr>"
  using assms by (auto simp: mark_completed_def exec_update_Inr)

end
