(* ===== verification/Order_Service.thy ===== *)
theory Order_Service
  imports Idempotency Settlement
begin

text \<open>
  \<open>src/services/order_service.py\<close>: creation, retrieval, listing and cancellation of orders.
  \<open>create_order\<close> and \<open>cancel_order\<close> are units of work: any exception rolls the session back.
  The loop of step 2 threads the order items, the reservations and the total it accumulates.
\<close>

definition total_of_line :: "money \<Rightarrow> int \<Rightarrow> money" where
  "total_of_line unit_price quantity = unit_price * quantity"

definition raise_insufficient_inventory :: "ident \<Rightarrow> int \<Rightarrow> 'a op" where
  "raise_insufficient_inventory product_id requested =
     and_then (total_available product_id) (\<lambda>available.
     raise (app_err InsufficientInventoryError
       (''Not enough inventory is available for product '' @ product_id)
       [(''requested'', JInt requested), (''available'', JInt available)]))"

type_synonym reserved_lines = "order_item list \<times> reservation list \<times> money"

definition reserve_line ::
  "(ident \<rightharpoonup> product) \<Rightarrow> ident \<Rightarrow> time \<Rightarrow> order_line \<Rightarrow> reserved_lines \<Rightarrow> reserved_lines op" where
  "reserve_line found_products order_id expires_at line acc =
     (case found_products (ol_product_id line) of None \<Rightarrow> raise KeyError | Some product \<Rightarrow>
      and_then (find_best_warehouse (ol_product_id line) (ol_quantity line)) (\<lambda>best_warehouse.
      case best_warehouse of
        None \<Rightarrow> raise_insufficient_inventory (ol_product_id line) (ol_quantity line)
      | Some best \<Rightarrow>
      and_then (reserve (ol_product_id line) (inv_warehouse_id best) (ol_quantity line) order_id) (\<lambda>reserved.
      if \<not> reserved then raise_insufficient_inventory (ol_product_id line) (ol_quantity line) else
      and_then (generate_id ''item'') (\<lambda>item.
      and_then (generate_id ''resv'') (\<lambda>resv.
      and_then now (\<lambda>n.
      return
        (fst acc @ [\<lparr>item_id = item, item_order_id = order_id, item_product_id = ol_product_id line,
           item_warehouse_id = inv_warehouse_id best, item_quantity = ol_quantity line,
           item_unit_price = prod_price product\<rparr>],
         fst (snd acc) @ [\<lparr>resv_id = resv, resv_order_id = order_id, resv_product_id = ol_product_id line,
           resv_warehouse_id = inv_warehouse_id best, resv_quantity = ol_quantity line,
           resv_status = ACTIVE, resv_expires_at = expires_at, resv_created_at = n,
           resv_released_at = None\<rparr>],
         snd (snd acc) + total_of_line (prod_price product) (ol_quantity line))))))))"

definition missing_products :: "ident list \<Rightarrow> exn" where
  "missing_products missing_ids = app_err ProductNotFoundError
     (''Product(s) not found: '' @ comma_separated missing_ids)
     [(''product_ids'', JArr (map JStr missing_ids))]"

definition serialize_order :: "order_row \<Rightarrow> order_item list \<Rightarrow> json" where
  "serialize_order order items = JObj [
     (''id'', JStr (ord_id order)),
     (''status'', JStr (order_status_value (ord_status order))),
     (''total'', JDec (ord_total order)),
     (''items'', JArr (map (\<lambda>i. JObj [(''product_id'', JStr (item_product_id i)),
        (''quantity'', JInt (item_quantity i)), (''unit_price'', JDec (item_unit_price i))]) items)),
     (''created_at'', JTime (ord_created_at order)),
     (''updated_at'', JTime (ord_updated_at order))]"

definition minutes :: "int \<Rightarrow> time" where
  "minutes n = n * 60000000"

text \<open>Step 0: with a non-empty key, claim it or find the cached response.\<close>

definition claim_key :: "(string \<Rightarrow> string) \<Rightarrow> order_request \<Rightarrow> string option \<Rightarrow> idempotency_claim option op" where
  "claim_key sha payload idempotency_key =
     (case idempotency_key of
        None \<Rightarrow> return None
      | Some key \<Rightarrow> if key = [] then return None
                    else and_then (idempotency_begin sha key payload) (\<lambda>claim. return (Some claim)))"

text \<open>Step 1: every product of the request exists.\<close>

definition validate_products :: "order_request \<Rightarrow> (ident \<rightharpoonup> product) op" where
  "validate_products payload =
     (let product_ids = map ol_product_id (req_items payload) in
      and_then (product_get_many_by_ids product_ids) (\<lambda>found_products.
      let missing_ids = filter (\<lambda>pid. found_products pid = None) product_ids in
      if missing_ids \<noteq> [] then raise (missing_products missing_ids) else return found_products))"

text \<open>Steps 3 and 4: the order, its items and reservations, the outbox event, the response, the commit.\<close>

definition write_order ::
  "order_request \<Rightarrow> user \<Rightarrow> string option \<Rightarrow> idempotency_claim option \<Rightarrow> ident
    \<Rightarrow> reserved_lines \<Rightarrow> json op" where
  "write_order payload current_user idempotency_key claim order_id lines =
     (case lines of (items, resvs, order_total) \<Rightarrow>
     and_then now (\<lambda>n.
     and_then (order_create \<lparr>ord_id = order_id, ord_status = RESERVED, ord_total = order_total,
        ord_created_by_user_id = user_id current_user, ord_payment_token = req_payment_token payload,
        ord_processing_attempts = 0, ord_idempotency_key = idempotency_key,
        ord_created_at = n, ord_updated_at = n\<rparr> items) (\<lambda>_.
     and_then (for_each (\<lambda>r. and_then (reservation_create r) (\<lambda>_. return ())) resvs) (\<lambda>_.
     and_then (outbox_create ''order'' order_id ''ORDER_RESERVED''
        (JObj [(''order_id'', JStr order_id)])) (\<lambda>_.
     and_then (order_refresh order_id) (\<lambda>order.
     and_then (case claim of
          None \<Rightarrow> return ()
        | Some c \<Rightarrow> (case claim_entry c of None \<Rightarrow> return ()
            | Some entry \<Rightarrow> idempotency_complete entry order_id (serialize_order order items))) (\<lambda>_.
     and_then commit (\<lambda>_.
     return (serialize_order order items)))))))))"

text \<open>Step 2, then the rest.\<close>

definition place_order ::
  "settings \<Rightarrow> order_request \<Rightarrow> user \<Rightarrow> string option \<Rightarrow> idempotency_claim option
    \<Rightarrow> (ident \<rightharpoonup> product) \<Rightarrow> json op" where
  "place_order cfg payload current_user idempotency_key claim found_products =
     and_then (generate_id ''order'') (\<lambda>order_id.
     and_then now (\<lambda>n.
     and_then (fold_op (reserve_line found_products order_id (n + minutes (reservation_timeout_minutes cfg)))
        (req_items payload) ([], [], 0)) (\<lambda>lines.
     write_order payload current_user idempotency_key claim order_id lines)))"

definition create_order_impl ::
  "settings \<Rightarrow> (string \<Rightarrow> string) \<Rightarrow> order_request \<Rightarrow> user \<Rightarrow> string option \<Rightarrow> json op" where
  "create_order_impl cfg sha payload current_user idempotency_key =
     and_then (claim_key sha payload idempotency_key) (\<lambda>claim.
     case Option.bind claim cached_response of
       Some body \<Rightarrow> and_then commit (\<lambda>_. return body)
     | None \<Rightarrow>
         and_then (validate_products payload) (\<lambda>found_products.
         place_order cfg payload current_user idempotency_key claim found_products))"

definition create_order ::
  "settings \<Rightarrow> (string \<Rightarrow> string) \<Rightarrow> order_request \<Rightarrow> user \<Rightarrow> string option \<Rightarrow> json op" where
  "create_order cfg sha payload current_user idempotency_key =
     rolling_back (create_order_impl cfg sha payload current_user idempotency_key)"

subsection \<open>Retrieval\<close>

definition order_not_found :: "ident \<Rightarrow> exn" where
  "order_not_found order_id = app_err OrderNotFoundError
     (''Order '' @ quoted order_id @ '' was not found'') [(''order_id'', JStr order_id)]"

definition no_access :: exn where
  "no_access = app_err ForbiddenError ''You do not have access to this order'' []"

definition authorize_view :: "order_row \<Rightarrow> user \<Rightarrow> unit op" where
  "authorize_view order current_user =
     (if user_role current_user = CLIENT \<and> ord_created_by_user_id order \<noteq> user_id current_user
      then raise no_access else return ())"

definition get_order_or_404 :: "ident \<Rightarrow> user \<Rightarrow> order_row op" where
  "get_order_or_404 order_id current_user =
     and_then (order_get_by_id order_id) (\<lambda>found.
     case found of
       None \<Rightarrow> raise (order_not_found order_id)
     | Some order \<Rightarrow> and_then (authorize_view order current_user) (\<lambda>_. return order))"

definition list_orders ::
  "user \<Rightarrow> order_status option \<Rightarrow> time option \<Rightarrow> time option \<Rightarrow> nat \<Rightarrow> nat
    \<Rightarrow> (order_row list \<times> nat) op" where
  "list_orders current_user status created_after created_before page limit =
     (let user_id_filter = (if user_role current_user = ADMIN then None else Some (user_id current_user)) in
      order_list \<lparr>flt_status = status, flt_created_after = created_after,
        flt_created_before = created_before, flt_user_id = user_id_filter\<rparr> page limit)"

subsection \<open>Cancellation\<close>

definition cannot_cancel :: "ident \<Rightarrow> order_status \<Rightarrow> exn" where
  "cannot_cancel order_id status = app_err OrderCannotBeCancelledError
     (''Order '' @ quoted order_id @ '' cannot be cancelled from status '' @ order_status_value status)
     [(''order_id'', JStr order_id), (''status'', JStr (order_status_value status))]"

text \<open>The locked order, if this user may cancel it now.\<close>

definition cancellable_order :: "ident \<Rightarrow> user \<Rightarrow> order_row op" where
  "cancellable_order order_id current_user =
     and_then (order_get_by_id_for_update order_id) (\<lambda>found.
      case found of None \<Rightarrow> raise (order_not_found order_id) | Some order \<Rightarrow>
      if user_role current_user = CLIENT \<and> ord_created_by_user_id order \<noteq> user_id current_user
      then raise no_access
      else if ord_status order \<notin> CANCELLABLE_ORDER_STATUSES
      then raise (cannot_cancel order_id (ord_status order))
      else return order)"

definition release_and_cancel :: "ident \<Rightarrow> order_row \<Rightarrow> unit op" where
  "release_and_cancel order_id order =
     and_then (list_active_for_order order_id) (\<lambda>active_reservations.
     and_then (settle_loop release_reservation order_id active_reservations) (\<lambda>_.
     order_update_status order CANCELLED))"

definition cancel_order :: "ident \<Rightarrow> user \<Rightarrow> order_row op" where
  "cancel_order order_id current_user = rolling_back
     (and_then (cancellable_order order_id current_user) (\<lambda>order.
      and_then (release_and_cancel order_id order) (\<lambda>_.
      and_then commit (\<lambda>_.
      order_refresh order_id))))"

subsection \<open>Reserving the lines of an order\<close>

text \<open>The item and the reservation that a line becomes.\<close>

definition line_taken ::
  "(ident \<rightharpoonup> product) \<Rightarrow> ident \<Rightarrow> time \<Rightarrow> order_line \<Rightarrow> order_item \<times> reservation \<Rightarrow> bool" where
  "line_taken found oid ex l ir \<longleftrightarrow> (case ir of (i, r) \<Rightarrow>
     item_order_id i = oid \<and> item_product_id i = ol_product_id l \<and> item_quantity i = ol_quantity l \<and>
     map_option prod_price (found (ol_product_id l)) = Some (item_unit_price i) \<and>
     resv_order_id r = oid \<and> resv_product_id r = ol_product_id l \<and> resv_quantity r = ol_quantity l \<and>
     resv_warehouse_id r = item_warehouse_id i \<and> resv_status r = ACTIVE \<and> resv_expires_at r = ex)"

definition items_total :: "order_item list \<Rightarrow> money" where
  "items_total items = sum_list (map (\<lambda>i. total_of_line (item_unit_price i) (item_quantity i)) items)"

lemma stock_sound_pending:
  "(\<And>k. quantity_of k pending' = quantity_of k pending) \<Longrightarrow> set pending' = set pending \<Longrightarrow>
    stock_sound pending d \<Longrightarrow> stock_sound pending' d"
  by (simp add: stock_sound_def conserved_def)

lemma raise_insufficient_not_Inr [simp]: "raise_insufficient_inventory p q s \<noteq> (Inr x, s')"
  by (simp add: raise_insufficient_inventory_def)

text \<open>A line that returns chose a warehouse and reserved there.\<close>

lemma reserve_lineE:
  assumes "reserve_line found oid ex l (its, rs, tot) s = (Inr acc, s')"
  obtains i r t where "line_taken found oid ex l (i, r)" and "acc = (its @ [i], rs @ [r], tot + items_total [i])"
    and "reserve (ol_product_id l) (resv_warehouse_id r) (ol_quantity l) oid s = (Inr True, t)"
    and "resv_key r = (ol_product_id l, resv_warehouse_id r)" and "resv_quantity r = ol_quantity l"
    and "working s' = working t" and "clock s' = clock s"
proof -
  from assms obtain product best t item resv where
    prod: "found (ol_product_id l) = Some product"
    and best: "find_best_warehouse (ol_product_id l) (ol_quantity l) s = (Inr (Some best), s)"
    and res: "reserve (ol_product_id l) (inv_warehouse_id best) (ol_quantity l) oid s = (Inr True, t)"
    and s': "working s' = working t" "clock s' = clock t"
    and acc: "acc = (its @ [\<lparr>item_id = item, item_order_id = oid, item_product_id = ol_product_id l,
           item_warehouse_id = inv_warehouse_id best, item_quantity = ol_quantity l,
           item_unit_price = prod_price product\<rparr>],
         rs @ [\<lparr>resv_id = resv, resv_order_id = oid, resv_product_id = ol_product_id l,
           resv_warehouse_id = inv_warehouse_id best, resv_quantity = ol_quantity l,
           resv_status = ACTIVE, resv_expires_at = ex, resv_created_at = clock t,
           resv_released_at = None\<rparr>],
         tot + total_of_line (prod_price product) (ol_quantity l))"
    by (auto simp: reserve_line_def find_best_warehouse_def split: option.splits if_splits)
  let ?i = "\<lparr>item_id = item, item_order_id = oid, item_product_id = ol_product_id l,
           item_warehouse_id = inv_warehouse_id best, item_quantity = ol_quantity l,
           item_unit_price = prod_price product\<rparr>"
  let ?r = "\<lparr>resv_id = resv, resv_order_id = oid, resv_product_id = ol_product_id l,
           resv_warehouse_id = inv_warehouse_id best, resv_quantity = ol_quantity l,
           resv_status = ACTIVE, resv_expires_at = ex, resv_created_at = clock t,
           resv_released_at = None\<rparr>"
  show thesis
  proof (rule that)
    show "line_taken found oid ex l (?i, ?r)" using prod by (simp add: line_taken_def)
    show "acc = (its @ [?i], rs @ [?r], tot + items_total [?i])" unfolding acc by (simp add: items_total_def)
    show "clock s' = clock s" using in_transactionD [OF in_transaction_service(1) res] s' by simp
  qed (use res s' in simp_all)
qed

lemma reserve_line_effect:
  assumes run: "reserve_line found oid ex l (its, rs, tot) s = (Inr acc, s')"
    and sound: "stock_sound rs (working s)" and pos: "0 < ol_quantity l"
  obtains i r where "line_taken found oid ex l (i, r)"
    and "acc = (its @ [i], rs @ [r], tot + items_total [i])"
    and "stock_sound (rs @ [r]) (working s')" and "stock_frame (working s) (working s')"
    and "reservations (working s') = reservations (working s)"
    and "\<forall>k. available_of (working s') k = available_of (working s) k - quantity_of k [r]"
    and "clock s' = clock s"
proof -
  from run obtain i r t where taken: "line_taken found oid ex l (i, r)" "acc = (its @ [i], rs @ [r], tot + items_total [i])"
    and res: "reserve (ol_product_id l) (resv_warehouse_id r) (ol_quantity l) oid s = (Inr True, t)"
    and r: "resv_key r = (ol_product_id l, resv_warehouse_id r)" "resv_quantity r = ol_quantity l"
    and s': "working s' = working t" "clock s' = clock s" by (rule reserve_lineE)
  note moved = reserve_True [OF res sound r pos]
  show thesis
  proof (rule that [OF taken])
    show "stock_sound (rs @ [r]) (working s')"
      unfolding s' by (rule stock_sound_pending [OF _ _ moved(2)]) simp_all
    show "stock_frame (working s) (working s')" "reservations (working s') = reservations (working s)"
      using stock_event_frame [OF moved(1)] by (simp_all add: s')
    show "\<forall>k. available_of (working s') k = available_of (working s) k - quantity_of k [r]"
      using reserving_l.event_quantities(1) [OF moved(1)] r by (auto simp: s')
  qed (rule s'(2))
qed

lemma reserve_lines_effect:
  assumes "fold_op (reserve_line found oid ex) ls (its, rs, tot) s = (Inr acc, s')"
    and "stock_sound rs (working s)" and "\<forall>l\<in>set ls. 0 < ol_quantity l"
  shows "\<exists>irs. list_all2 (line_taken found oid ex) ls irs \<and>
    acc = (its @ map fst irs, rs @ map snd irs, tot + items_total (map fst irs)) \<and>
    stock_sound (rs @ map snd irs) (working s') \<and> stock_frame (working s) (working s') \<and>
    reservations (working s') = reservations (working s) \<and>
    (\<forall>k. available_of (working s') k = available_of (working s) k - quantity_of k (map snd irs)) \<and>
    clock s' = clock s"
  using assms
proof (induction ls arbitrary: its rs tot s)
  case Nil
  then show ?case by (simp add: items_total_def)
next
  case (Cons l ls)
  from Cons.prems(1) obtain acc1 t where hd: "reserve_line found oid ex l (its, rs, tot) s = (Inr acc1, t)"
    and tl: "fold_op (reserve_line found oid ex) ls acc1 t = (Inr acc, s')" by auto
  from Cons.prems(3) have "0 < ol_quantity l" by simp
  from hd Cons.prems(2) this obtain i r where l: "line_taken found oid ex l (i, r)"
    and acc1: "acc1 = (its @ [i], rs @ [r], tot + items_total [i])"
    and sound: "stock_sound (rs @ [r]) (working t)" and frame: "stock_frame (working s) (working t)"
    and resv: "reservations (working t) = reservations (working s)"
    and av: "\<forall>k. available_of (working t) k = available_of (working s) k - quantity_of k [r]"
    and ck: "clock t = clock s" by (rule reserve_line_effect)
  from Cons.IH [OF tl [unfolded acc1] sound] Cons.prems(3) obtain irs where
    irs: "list_all2 (line_taken found oid ex) ls irs"
    "acc = ((its @ [i]) @ map fst irs, (rs @ [r]) @ map snd irs, tot + items_total [i] + items_total (map fst irs))"
    "stock_sound ((rs @ [r]) @ map snd irs) (working s')" "stock_frame (working t) (working s')"
    "reservations (working s') = reservations (working t)"
    "\<forall>k. available_of (working s') k = available_of (working t) k - quantity_of k (map snd irs)"
    "clock s' = clock t" by auto
  show ?case
    using l irs frame resv av ck
    by (intro exI [of _ "(i, r) # irs"]) (auto simp: items_total_def intro: stock_frame_trans)
qed

subsection \<open>Writing the reservations\<close>

lemma stock_base_cong:
  assumes "inventory d' = inventory d" and "audit_logs d' = audit_logs d"
    and "low_stock_alerts d' = low_stock_alerts d"
    and "filter is_alert_event (outbox_events d') = filter is_alert_event (outbox_events d)"
  shows "stock_base d' = stock_base d"
  using account_of_unchanged [OF assms(1)] assms
  by (simp add: stock_base_def unique_pairs_def ledger_balanced_def alerts_announced_def)

lemma stock_sound_cong:
  assumes "inventory d' = inventory d" and "audit_logs d' = audit_logs d"
    and "low_stock_alerts d' = low_stock_alerts d" and "reservations d' = reservations d"
    and "filter is_alert_event (outbox_events d') = filter is_alert_event (outbox_events d)"
  shows "stock_sound pending d' = stock_sound pending d"
  using account_of_unchanged [OF assms(1)] assms stock_base_cong [OF assms(1-3,5)]
  by (simp add: stock_sound_def reservations_ok_def conserved_def held_def)

lemma reservation_create_sound:
  assumes run: "reservation_create r s = (Inr r', s')" and sound: "stock_sound (r # rs) (working s)"
    and active: "resv_status r = ACTIVE"
  shows "stock_sound rs (working s')"
    and "working s' = (working s)\<lparr>reservations := reservations (working s) @ [r]\<rparr>"
    and "has_order (working s) (resv_order_id r)"
proof -
  from run have s': "working s' = (working s)\<lparr>reservations := reservations (working s) @ [r]\<rparr>"
    and fresh: "resv_id r \<notin> resv_id ` set (reservations (working s))"
    and ho: "has_order (working s) (resv_order_id r)"
    by (auto simp: reservation_create_def exec_insert_Inr check_reservation_def split: if_splits)
  from s' ho show "working s' = (working s)\<lparr>reservations := reservations (working s) @ [r]\<rparr>"
    and "has_order (working s) (resv_order_id r)" by simp_all
  have "inventory (working s') = inventory (working s)" by (simp add: s')
  note acct = account_of_unchanged [OF this]
  have "held (working s') k = held (working s) k + (if resv_key r = k then resv_quantity r else 0)" for k
    using active by (simp add: held_def s')
  then have "conserved rs (working s')"
    using stock_soundD(3) [OF sound] acct by (simp add: conserved_def)
  moreover have "stock_base (working s')"
    using stock_base_cong [of "working s'" "working s"] stock_soundD(1) [OF sound] by (simp add: s')
  ultimately show "stock_sound rs (working s')"
    using sound fresh by (simp add: stock_sound_def reservations_ok_def s')
qed

lemma reservations_create_sound:
  assumes "for_each (\<lambda>r. and_then (reservation_create r) (\<lambda>_. return ())) rs s = (Inr u, s')"
    and "stock_sound rs (working s)" and "\<forall>r\<in>set rs. resv_status r = ACTIVE"
  shows "stock_sound [] (working s') \<and>
    working s' = (working s)\<lparr>reservations := reservations (working s) @ rs\<rparr>"
  using assms
proof (induction rs arbitrary: s)
  case (Cons r rs)
  from Cons.prems(1) obtain r' t where hd: "reservation_create r s = (Inr r', t)"
    and tl: "for_each (\<lambda>r. and_then (reservation_create r) (\<lambda>_. return ())) rs t = (Inr u, s')" by auto
  have "resv_status r = ACTIVE" using Cons.prems(3) by simp
  note step = reservation_create_sound [OF hd Cons.prems(2) this]
  from Cons.IH [OF tl step(1)] Cons.prems(3) step(2) show ?case by auto
qed simp

subsection \<open>Placing an order\<close>

text \<open>The tables after a successful \<open>place_order\<close>: \<open>d1\<close> is the database once the lines are reserved.\<close>

definition order_event :: "ident \<Rightarrow> outbox_event \<Rightarrow> bool" where
  "order_event oid e \<longleftrightarrow> evt_aggregate_type e = ''order'' \<and> evt_aggregate_id e = oid \<and>
     evt_event_type e = ''ORDER_RESERVED'' \<and> evt_payload e = JObj [(''order_id'', JStr oid)] \<and>
     evt_status e = OUTBOX_PENDING"

definition new_order ::
  "order_request \<Rightarrow> user \<Rightarrow> string option \<Rightarrow> time \<Rightarrow> order_item list \<Rightarrow> order_row \<Rightarrow> bool" where
  "new_order payload u key n items r \<longleftrightarrow> ord_status r = RESERVED \<and> ord_total r = items_total items \<and>
     ord_created_by_user_id r = user_id u \<and> ord_payment_token r = req_payment_token payload \<and>
     ord_processing_attempts r = 0 \<and> ord_idempotency_key r = key \<and> ord_created_at r = n \<and>
     ord_updated_at r = n"

definition claimed_keys :: "idempotency_claim option \<Rightarrow> ident \<Rightarrow> json \<Rightarrow> idempotency_key list \<Rightarrow> idempotency_key list" where
  "claimed_keys claim oid body keys = (case Option.bind claim claim_entry of
     None \<Rightarrow> keys
   | Some entry \<Rightarrow> update_where (\<lambda>r. idem_key r = idem_key entry)
       (\<lambda>r. r\<lparr>idem_status := IDEM_COMPLETED, idem_order_id := Some oid, idem_response_body := Some body\<rparr>) keys)"

lemma complete_claim_effect:
  assumes "(case claim of None \<Rightarrow> return () | Some c \<Rightarrow> (case claim_entry c of None \<Rightarrow> return ()
      | Some entry \<Rightarrow> idempotency_complete entry oid body)) s = (Inr u, s')"
  shows "s' = s\<lparr>working := (working s)\<lparr>idempotency_keys :=
      claimed_keys claim oid body (idempotency_keys (working s))\<rparr>\<rparr>"
  using assms
  by (auto simp: claimed_keys_def idempotency_complete_def dest!: mark_completed_effect
      split: option.splits)

definition order_placed ::
  "settings \<Rightarrow> order_request \<Rightarrow> user \<Rightarrow> string option \<Rightarrow> idempotency_claim option
    \<Rightarrow> (ident \<rightharpoonup> product) \<Rightarrow> time \<Rightarrow> db \<Rightarrow> db \<Rightarrow> json \<Rightarrow> bool" where
  "order_placed cfg payload u key claim found n d d' body \<longleftrightarrow> (\<exists>r irs d1 e.
     new_order payload u key n (map fst irs) r \<and> ord_id r \<notin> ord_id ` set (orders d) \<and>
     has_user d (user_id u) \<and>
     (\<forall>k. key = Some k \<longrightarrow> Some k \<notin> ord_idempotency_key ` set (orders d)) \<and>
     list_all2 (line_taken found (ord_id r) (n + minutes (reservation_timeout_minutes cfg)))
       (req_items payload) irs \<and>
     stock_frame d d1 \<and> reservations d1 = reservations d \<and>
     (\<forall>k. available_of d1 k = available_of d k - quantity_of k (map snd irs)) \<and>
     order_event (ord_id r) e \<and> evt_id e \<notin> evt_id ` set (outbox_events d1) \<and> body = serialize_order r (map fst irs) \<and>
     d' = d1\<lparr>orders := orders d1 @ [r], order_items := order_items d1 @ map fst irs,
        reservations := reservations d1 @ map snd irs, outbox_events := outbox_events d1 @ [e],
        idempotency_keys := claimed_keys claim (ord_id r) body (idempotency_keys d1)\<rparr>)"

lemma order_refresh_effect:
  assumes "order_refresh i s = (Inr r, s')"
  shows "s' = s \<and> r \<in> set (orders (working s)) \<and> ord_id r = i"
  using assms by (auto simp: order_refresh_def dest: order_get_Some split: option.splits)

lemma place_order_effect:
  assumes run: "place_order cfg payload u key claim found s = (Inr body, s')"
    and sound: "stock_sound [] (working s)" and valid: "valid_order_request payload"
  shows "order_placed cfg payload u key claim found (clock s) (working s) (working s') body"
    and "stock_sound [] (working s')" and "committed s' = working s'"
proof -
  from run obtain oid s1 lines s2 where gen: "generate_id ''order'' s = (Inr oid, s1)"
    and lines: "fold_op (reserve_line found oid (clock s1 + minutes (reservation_timeout_minutes cfg)))
      (req_items payload) ([], [], 0) s1 = (Inr lines, s2)"
    and wr: "write_order payload u key claim oid lines s2 = (Inr body, s')"
    unfolding place_order_def and_then_Inr now_eq by blast
  have s1: "working s1 = working s" "clock s1 = clock s" using gen by auto
  have "\<forall>l\<in>set (req_items payload). 0 < ol_quantity l" using valid by (simp add: valid_order_request_iff)
  from reserve_lines_effect [OF lines _ this] sound s1 obtain irs where
    irs: "list_all2 (line_taken found oid (clock s + minutes (reservation_timeout_minutes cfg)))
      (req_items payload) irs"
    and acc: "lines = (map fst irs, map snd irs, items_total (map fst irs))"
    and sound2: "stock_sound (map snd irs) (working s2)" and frame: "stock_frame (working s) (working s2)"
    and same: "reservations (working s2) = reservations (working s)"
    and av: "\<forall>k. available_of (working s2) k = available_of (working s) k - quantity_of k (map snd irs)"
    and clk: "clock s2 = clock s"
    by auto
  define items resvs order_total where "items = map fst irs" and "resvs = map snd irs"
    and "order_total = items_total (map fst irs)"
  note acc' = acc [folded items_def resvs_def order_total_def]
  from wr obtain x s3 y s4 e s5 r s6 z s7 where
    created: "order_create \<lparr>ord_id = oid, ord_status = RESERVED, ord_total = order_total,
        ord_created_by_user_id = user_id u, ord_payment_token = req_payment_token payload,
        ord_processing_attempts = 0, ord_idempotency_key = key,
        ord_created_at = clock s, ord_updated_at = clock s\<rparr> items s2 = (Inr x, s3)"
    and resv: "for_each (\<lambda>r. and_then (reservation_create r) (\<lambda>_. return ())) resvs s3 = (Inr y, s4)"
    and outbox: "outbox_create ''order'' oid ''ORDER_RESERVED'' (JObj [(''order_id'', JStr oid)]) s4 = (Inr e, s5)"
    and refresh: "order_refresh oid s5 = (Inr r, s6)"
    and complete: "(case claim of None \<Rightarrow> return () | Some c \<Rightarrow> (case claim_entry c of None \<Rightarrow> return ()
      | Some entry \<Rightarrow> idempotency_complete entry oid (serialize_order r items))) s6 = (Inr z, s7)"
    and body: "body = serialize_order r items" and s': "s' = s7\<lparr>committed := working s7\<rparr>"
    unfolding write_order_def acc' prod.case and_then_Inr now_eq commit_eq return_eq sum.inject
    by (auto simp: clk)
  let ?o = "\<lparr>ord_id = oid, ord_status = RESERVED, ord_total = order_total,
        ord_created_by_user_id = user_id u, ord_payment_token = req_payment_token payload,
        ord_processing_attempts = 0, ord_idempotency_key = key,
        ord_created_at = clock s, ord_updated_at = clock s\<rparr>"
  note oc = order_create_effect [OF created]
  have sound3: "stock_sound resvs (working s3)"
    using stock_sound_cong [of "working s3" "working s2" resvs] sound2 oc(2) by (simp add: resvs_def)
  have active: "\<forall>r\<in>set resvs. resv_status r = ACTIVE"
  proof
    fix r assume "r \<in> set resvs"
    then obtain i where "(i, r) \<in> set irs" using acc items_def resvs_def order_total_def by auto
    then obtain l where "line_taken found oid (clock s + minutes (reservation_timeout_minutes cfg)) l (i, r)"
      using irs by (metis in_set_conv_nth list_all2_conv_all_nth)
    then show "resv_status r = ACTIVE" by (simp add: line_taken_def)
  qed
  note rc = reservations_create_sound [OF resv sound3 active]
  note ob = outbox_create_effect [OF outbox]
  note rf = order_refresh_effect [OF refresh]
  have r_eq: "r = ?o"
  proof -
    have "orders (working s5) = orders (working s2) @ [?o]" using rc ob oc by simp
    with rf oc(3) show ?thesis by (auto simp: image_iff)
  qed
  note cc = complete_claim_effect [OF complete]
  have w': "working s' = (working s2)\<lparr>orders := orders (working s2) @ [?o],
        order_items := order_items (working s2) @ map fst irs,
        reservations := reservations (working s2) @ map snd irs,
        outbox_events := outbox_events (working s2) @ [e],
        idempotency_keys := claimed_keys claim oid body (idempotency_keys (working s2))\<rparr>"
    using s' cc rf ob rc oc body by (simp add: items_def resvs_def)
  have "has_user (working s) (user_id u)"
    using oc(4) frame by (simp add: stock_frame_def has_user_def)
  moreover have "oid \<notin> ord_id ` set (orders (working s))"
    using oc(3) frame by (simp add: stock_frame_def)
  moreover have "\<forall>k. key = Some k \<longrightarrow> Some k \<notin> ord_idempotency_key ` set (orders (working s))"
    using oc(5) frame by (simp add: stock_frame_def)
  moreover have "order_event oid e" using ob by (simp add: order_event_def)
  moreover have "evt_id e \<notin> evt_id ` set (outbox_events (working s2))" using ob(7) rc oc(2) by simp
  ultimately show "order_placed cfg payload u key claim found (clock s) (working s) (working s') body"
    unfolding order_placed_def using irs frame same av w' body r_eq
    by (intro exI [of _ ?o] exI [of _ irs] exI [of _ "working s2"] exI [of _ e])
      (simp add: new_order_def items_def order_total_def)
  show "committed s' = working s'" by (simp add: s')
  have "stock_sound [] (working s5)"
    using stock_sound_cong [of "working s5" "working s4" "[]"] rc ob
    by (auto simp: is_alert_event_def)
  then show "stock_sound [] (working s')"
    using stock_sound_cong [of "working s'" "working s5" "[]"] cc rf s' by simp
qed

subsection \<open>Creating an order\<close>

lemma in_transaction_insufficient [in_transaction_intro]:
  "in_transaction (raise_insufficient_inventory p q)"
  unfolding raise_insufficient_inventory_def by (intro in_transaction_intro)

lemma in_transaction_reserve_line [in_transaction_intro]: "in_transaction (reserve_line found oid ex l acc)"
  unfolding reserve_line_def by (intro in_transaction_intro)

lemma in_transaction_claim_key [in_transaction_intro]: "in_transaction (claim_key sha p key)"
  unfolding claim_key_def by (intro in_transaction_intro)

lemma in_transaction_validate [in_transaction_intro]: "in_transaction (validate_products p)"
  unfolding validate_products_def Let_def by (intro in_transaction_intro)

lemma fails_clean_write_order: "fails_clean (write_order p u key claim oid lines)"
  unfolding write_order_def
  by (cases lines) (auto intro!: fails_clean_intro in_transaction_intro)

lemma fails_clean_create_order: "fails_clean (create_order_impl cfg sha p u key)"
  unfolding create_order_impl_def place_order_def
  by (intro fails_clean_intro in_transaction_intro fails_clean_write_order)

lemma create_order_Inl:
  "create_order cfg sha p u key s = (Inl e, s') \<Longrightarrow>
     committed s' = committed s \<and> working s' = committed s \<and> clock s' = clock s"
  unfolding create_order_def using rolling_back_clean [OF fails_clean_create_order] by blast

lemma validate_products_effect:
  assumes "validate_products p s = (Inr found, s')"
  shows "s' = s" and "\<forall>l\<in>set (req_items p). \<exists>x\<in>set (products (working s)).
      prod_id x = ol_product_id l \<and> found (ol_product_id l) = Some x"
proof -
  from assms have get: "product_get_many_by_ids (map ol_product_id (req_items p)) s = (Inr found, s')"
    and all: "\<forall>l\<in>set (req_items p). found (ol_product_id l) \<noteq> None"
    by (auto simp: validate_products_def Let_def filter_empty_conv split: if_splits)
  show "s' = s" using product_get_many_by_ids_dom(1) [OF get] .
  show "\<forall>l\<in>set (req_items p). \<exists>x\<in>set (products (working s)).
      prod_id x = ol_product_id l \<and> found (ol_product_id l) = Some x"
    using all product_get_many_by_ids_dom(3) [OF get] by fastforce
qed

text \<open>The claim with which an order is placed, and the database with the claim written.\<close>

definition key_claimed ::
  "(string \<Rightarrow> string) \<Rightarrow> order_request \<Rightarrow> string option \<Rightarrow> idempotency_claim option \<Rightarrow> db \<Rightarrow> db \<Rightarrow> bool" where
  "key_claimed sha p key claim d d1 \<longleftrightarrow>
     (if key = None \<or> key = Some [] then claim = None \<and> d1 = d
      else (\<exists>entry. claim = Some \<lparr>claim_entry = Some entry, cached_response = None\<rparr> \<and>
              key = Some (idem_key entry) \<and> idem_request_hash entry = compute_request_hash sha p \<and>
              (if entry \<in> set (idempotency_keys d)
               then idem_response_body entry = None \<and> idem_status entry = IDEM_COMPLETED \<and> d1 = d
               else idem_key entry \<notin> idem_key ` set (idempotency_keys d) \<and>
                    idem_status entry = IDEM_IN_PROGRESS \<and>
                    d1 = d\<lparr>idempotency_keys := idempotency_keys d @ [entry]\<rparr>)))"

definition replayed :: "(string \<Rightarrow> string) \<Rightarrow> order_request \<Rightarrow> string option \<Rightarrow> db \<Rightarrow> json \<Rightarrow> bool" where
  "replayed sha p key d body \<longleftrightarrow> (\<exists>entry\<in>set (idempotency_keys d).
     key = Some (idem_key entry) \<and> idem_key entry \<noteq> [] \<and>
     idem_request_hash entry = compute_request_hash sha p \<and> idem_status entry = IDEM_COMPLETED \<and>
     idem_response_body entry = Some body)"

lemma claim_key_effect:
  assumes "claim_key sha p key s = (Inr claim, s')"
  shows "case Option.bind claim cached_response of
      Some body \<Rightarrow> s' = s \<and> replayed sha p key (working s) body
    | None \<Rightarrow> key_claimed sha p key claim (working s) (working s') \<and>
        s' = s\<lparr>working := working s'\<rparr>"
proof (cases "key = None \<or> key = Some []")
  case True
  with assms show ?thesis by (auto simp: claim_key_def key_claimed_def)
next
  case False
  then obtain k where k: "key = Some k" "k \<noteq> []" by (cases key) auto
  with assms obtain c where c: "idempotency_begin sha k p s = (Inr c, s')" and claim: "claim = Some c"
    by (auto simp: claim_key_def)
  from idempotency_begin_effect [OF c] show ?thesis
  proof (elim disjE exE bexE conjE)
    fix entry assume new: "c = \<lparr>claim_entry = Some entry, cached_response = None\<rparr>"
      "k \<notin> idem_key ` set (idempotency_keys (working s))" "idem_key entry = k"
      "idem_request_hash entry = compute_request_hash sha p" "idem_status entry = IDEM_IN_PROGRESS"
      "s' = s\<lparr>working := (working s)\<lparr>idempotency_keys := idempotency_keys (working s) @ [entry]\<rparr>\<rparr>"
    then have "entry \<notin> set (idempotency_keys (working s))" by auto
    with new k claim show ?thesis by (simp add: key_claimed_def)
  next
    fix entry assume "entry \<in> set (idempotency_keys (working s))" "s' = s" "idem_key entry = k"
      "idem_request_hash entry = compute_request_hash sha p" "idem_status entry = IDEM_COMPLETED"
      "c = \<lparr>claim_entry = Some entry, cached_response = idem_response_body entry\<rparr>"
    with k claim show ?thesis
      by (auto simp: key_claimed_def replayed_def split: option.splits)
  qed
qed

lemma key_claimed_frame:
  assumes "key_claimed sha p key claim d d1"
  shows "\<exists>t. d1 = d\<lparr>idempotency_keys := t\<rparr>"
proof -
  have "\<exists>t. d = d\<lparr>idempotency_keys := t\<rparr>" by (rule exI [of _ "idempotency_keys d"]) simp
  then show ?thesis using assms by (auto simp: key_claimed_def split: if_splits)
qed

lemma create_order_Inr:
  assumes run: "create_order cfg sha p u key s = (Inr body, s')"
    and sound: "stock_sound [] (working s)" and valid: "valid_order_request p"
  shows "(replayed sha p key (working s) body \<and> s' = s\<lparr>committed := working s\<rparr>) \<or>
    (\<exists>claim found d1. key_claimed sha p key claim (working s) d1 \<and>
       (\<forall>l\<in>set (req_items p). \<exists>x\<in>set (products (working s)).
          prod_id x = ol_product_id l \<and> found (ol_product_id l) = Some x) \<and>
       order_placed cfg p u key claim found (clock s) d1 (working s') body \<and>
       stock_sound [] (working s') \<and> committed s' = working s')"
proof -
  from run obtain claim s1 where claim: "claim_key sha p key s = (Inr claim, s1)"
    and rest: "(case Option.bind claim cached_response of
       Some body \<Rightarrow> and_then commit (\<lambda>_. return body)
     | None \<Rightarrow> and_then (validate_products p) (\<lambda>found. place_order cfg p u key claim found)) s1 = (Inr body, s')"
    by (auto simp: create_order_def rolling_back_Inr create_order_impl_def)
  note ck = claim_key_effect [OF claim]
  show ?thesis
  proof (cases "Option.bind claim cached_response")
    case (Some b)
    with ck rest show ?thesis by auto
  next
    case None
    with ck have kc: "key_claimed sha p key claim (working s) (working s1)"
      and s1: "s1 = s\<lparr>working := working s1\<rparr>" by simp_all
    from None rest obtain found s2 where val: "validate_products p s1 = (Inr found, s2)"
      and place: "place_order cfg p u key claim found s2 = (Inr body, s')" by auto
    from key_claimed_frame [OF kc] obtain t where t: "working s1 = (working s)\<lparr>idempotency_keys := t\<rparr>" by blast
    then have "stock_sound [] (working s1)"
      using sound stock_sound_cong [of "working s1" "working s" "[]"] by simp
    note vp = validate_products_effect [OF val]
    have "clock s1 = clock s" by (subst s1) simp
    with place_order_effect [OF place _ valid] \<open>stock_sound [] (working s1)\<close> vp t kc show ?thesis
      by auto
  qed
qed

subsection \<open>Closing an order\<close>

text \<open>
  \<open>cancel_order\<close>, \<open>_fail_order\<close> and \<open>_complete_order\<close> settle every active reservation of the order
  and write its final status.
\<close>

definition order_closed ::
  "(time \<Rightarrow> reservation \<Rightarrow> reservation) \<Rightarrow> (int \<Rightarrow> int) \<Rightarrow> order_row \<Rightarrow> order_status \<Rightarrow> time
    \<Rightarrow> db \<Rightarrow> db \<Rightarrow> bool" where
  "order_closed f credit r st n d d' \<longleftrightarrow> (\<exists>d1. stock_frame d d1 \<and>
     reservations d1 =
       update_where (\<lambda>x. resv_order_id x = ord_id r \<and> resv_status x = ACTIVE) (f n) (reservations d) \<and>
     (\<forall>k. available_of d1 k = available_of d k +
        sum_where (\<lambda>x. resv_key x = k \<and> resv_order_id x = ord_id r \<and> resv_status x = ACTIVE)
          (\<lambda>x. credit (resv_quantity x)) (reservations d)) \<and>
     (\<forall>k. reserved_of d1 k = reserved_of d k -
        sum_where (\<lambda>x. resv_key x = k \<and> resv_order_id x = ord_id r \<and> resv_status x = ACTIVE)
          resv_quantity (reservations d)) \<and>
     d' = d1\<lparr>orders := update_where (\<lambda>x. ord_id x = ord_id r)
       (\<lambda>x. x\<lparr>ord_status := st, ord_processing_attempts := ord_processing_attempts r,
              ord_updated_at := n\<rparr>) (orders d1)\<rparr>)"

context settlement
begin

lemma close_order:
  assumes list: "list_active_for_order (ord_id r) s = (Inr rs, t)"
    and loop: "settle_loop settle ref rs t = (Inr u, t')"
    and upd: "order_update_status r st t' = (Inr v, s')" and sound: "stock_sound [] (working s)"
  shows "order_closed f credit r st (clock s) (working s) (working s')"
    and "stock_sound [] (working s')" and "clock s' = clock s"
proof -
  have rs: "rs = filter (\<lambda>x. resv_order_id x = ord_id r \<and> resv_status x = ACTIVE) (reservations (working s))"
    and t: "t = s" using list by (auto simp: list_active_for_order_def)
  note so = settle_order [OF list loop sound]
  have "in_transaction (settle_loop settle ref rs)"
    unfolding settle_loop_def by (intro in_transaction_intro in_transaction_settle)
  from in_transactionD [OF this loop] have ck: "clock t' = clock s" by (simp add: t)
  note us = order_update_status_effect [OF upd]
  show "clock s' = clock s" using us ck by simp
  have "stock_sound [] (working s')"
    using stock_sound_cong [of "working s'" "working t'" "[]"] so(1) us by simp
  then show "stock_sound [] (working s')" .
  show "order_closed f credit r st (clock s) (working s) (working s')"
    unfolding order_closed_def using so us ck
    by (intro exI [of _ "working t'"]) (simp add: rs sum_where_filter quantity_of_def conj_ac)
qed

end

lemma unique_orders_cong: "map ord_id (orders d') = map ord_id (orders d) \<Longrightarrow> unique_orders d' = unique_orders d"
  by (simp add: unique_orders_def)

lemma order_closed_ids:
  "order_closed f credit r st n d d' \<Longrightarrow> map ord_id (orders d') = map ord_id (orders d)"
  by (auto simp: order_closed_def stock_frame_def map_update_where)

lemma order_closed_row:
  assumes "order_closed f credit r st n d d'" and "unique_orders d" and "r \<in> set (orders d)"
  shows "x \<in> set (orders d') \<Longrightarrow> ord_id x = ord_id r \<Longrightarrow> x = r\<lparr>ord_status := st, ord_updated_at := n\<rparr>"
    and "r\<lparr>ord_status := st, ord_updated_at := n\<rparr> \<in> set (orders d')"
proof -
  have eq: "orders d' = update_where (\<lambda>x. ord_id x = ord_id r)
       (\<lambda>x. x\<lparr>ord_status := st, ord_processing_attempts := ord_processing_attempts r,
              ord_updated_at := n\<rparr>) (orders d)"
    using assms(1) by (auto simp: order_closed_def stock_frame_def)
  have upd: "r\<lparr>ord_status := st, ord_processing_attempts := ord_processing_attempts r, ord_updated_at := n\<rparr>
      = r\<lparr>ord_status := st, ord_updated_at := n\<rparr>" by simp
  note only = unique_row [OF assms(2) [unfolded unique_orders_def] _ assms(3)]
  show "x = r\<lparr>ord_status := st, ord_updated_at := n\<rparr>" if "x \<in> set (orders d')" "ord_id x = ord_id r"
  proof -
    from that(1) obtain y where y: "y \<in> set (orders d)" and x: "x = (if ord_id y = ord_id r
        then y\<lparr>ord_status := st, ord_processing_attempts := ord_processing_attempts r, ord_updated_at := n\<rparr>
        else y)" by (auto simp: eq update_where_def)
    then have "ord_id y = ord_id r" using that(2) by (auto split: if_splits)
    with x only [OF y] upd show ?thesis by simp
  qed
  show "r\<lparr>ord_status := st, ord_updated_at := n\<rparr> \<in> set (orders d')"
    unfolding eq set_update_where using assms(3) upd by (auto intro!: image_eqI [of _ _ r])
qed

subsection \<open>Cancelling an order\<close>

abbreviation release_row :: "time \<Rightarrow> reservation \<Rightarrow> reservation" where
  "release_row n r \<equiv> r\<lparr>resv_status := RELEASED, resv_released_at := Some n\<rparr>"

abbreviation consume_row :: "time \<Rightarrow> reservation \<Rightarrow> reservation" where
  "consume_row n r \<equiv> r\<lparr>resv_status := CONSUMED\<rparr>"

lemma in_transaction_settle_loop [in_transaction_intro]:
  "in_transaction (settle_loop release_reservation ref rs)"
  "in_transaction (settle_loop consume_reservation ref rs)"
  unfolding settle_loop_def by (intro in_transaction_intro)+

lemma in_transaction_cancel [in_transaction_intro]:
  "in_transaction (cancellable_order i u)" "in_transaction (release_and_cancel i r)"
  unfolding cancellable_order_def release_and_cancel_def by (intro in_transaction_intro)+

lemma cancellable_order_Inr:
  assumes "cancellable_order i u s = (Inr r, t)"
  shows "t = s" and "r \<in> set (orders (working s))" and "ord_id r = i"
    and "ord_status r \<in> CANCELLABLE_ORDER_STATUSES"
    and "user_role u = CLIENT \<Longrightarrow> ord_created_by_user_id r = user_id u"
proof -
  from assms obtain found where got: "order_get_by_id_for_update i s = (Inr found, t)"
    and found: "found = Some r" and ok: "ord_status r \<in> CANCELLABLE_ORDER_STATUSES"
      "user_role u = CLIENT \<Longrightarrow> ord_created_by_user_id r = user_id u"
    by (auto simp: cancellable_order_def order_get_by_id_for_update_def select_one_def
        split: option.splits if_splits)
  from order_get_Some(1) [OF got [unfolded found]] ok
  show "t = s" and "r \<in> set (orders (working s))" and "ord_id r = i"
    and "ord_status r \<in> CANCELLABLE_ORDER_STATUSES"
    and "user_role u = CLIENT \<Longrightarrow> ord_created_by_user_id r = user_id u" by simp_all
qed

lemma release_and_cancel_Inr:
  assumes run: "release_and_cancel i r s = (Inr x, t)" and r: "ord_id r = i"
    and sound: "stock_sound [] (working s)"
  shows "order_closed release_row (\<lambda>q. q) r CANCELLED (clock s) (working s) (working t)"
    and "stock_sound [] (working t)" and "clock t = clock s"
proof -
  from run r obtain rs s1 x s2 where list: "list_active_for_order (ord_id r) s = (Inr rs, s1)"
    and loop: "settle_loop release_reservation i rs s1 = (Inr x, s2)"
    and upd: "order_update_status r CANCELLED s2 = (Inr (), t)"
    by (auto simp: release_and_cancel_def)
  from releasing_r.close_order [OF list loop upd sound]
  show "order_closed release_row (\<lambda>q. q) r CANCELLED (clock s) (working s) (working t)"
    and "stock_sound [] (working t)" and "clock t = clock s" by simp_all
qed

text \<open>After the commit the refresh finds the order: nothing can fail any more.\<close>

lemma closed_order_refresh:
  assumes "order_closed f credit r st n d (working t)" and "unique_orders d" and "r \<in> set (orders d)"
  shows "order_refresh (ord_id r) (t\<lparr>committed := working t\<rparr>) =
    (Inr (r\<lparr>ord_status := st, ord_updated_at := n\<rparr>), t\<lparr>committed := working t\<rparr>)"
proof -
  let ?s = "t\<lparr>committed := working t\<rparr>"
  have "unique_orders (working ?s)"
    using unique_orders_cong [OF order_closed_ids [OF assms(1)]] assms(2) by simp
  from order_get_found(2) [OF this, of "r\<lparr>ord_status := st, ord_updated_at := n\<rparr>"]
    order_closed_row(2) [OF assms]
  show ?thesis by (simp add: order_refresh_def and_then_def return_def)
qed

lemma cancel_order_Inr:
  assumes run: "cancel_order i u s = (Inr r', s')" and sound: "stock_sound [] (working s)"
    and uniq: "unique_orders (working s)"
  shows "\<exists>r\<in>set (orders (working s)). ord_id r = i \<and> ord_status r \<in> CANCELLABLE_ORDER_STATUSES \<and>
      (user_role u = CLIENT \<longrightarrow> ord_created_by_user_id r = user_id u) \<and>
      order_closed release_row (\<lambda>q. q) r CANCELLED (clock s) (working s) (working s') \<and>
      r' = r\<lparr>ord_status := CANCELLED, ord_updated_at := clock s\<rparr>"
    and "stock_sound [] (working s')" and "committed s' = working s'"
proof -
  from run obtain r s1 x t where got: "cancellable_order i u s = (Inr r, s1)"
    and rel: "release_and_cancel i r s1 = (Inr x, t)"
    and refresh: "order_refresh i (t\<lparr>committed := working t\<rparr>) = (Inr r', s')"
    by (auto simp: cancel_order_def rolling_back_Inr)
  note g = cancellable_order_Inr [OF got]
  note c = release_and_cancel_Inr [OF rel [unfolded g(1)] g(3) sound]
  from closed_order_refresh [OF c(1) uniq g(2)] refresh
  have s': "s' = t\<lparr>committed := working t\<rparr>" "r' = r\<lparr>ord_status := CANCELLED, ord_updated_at := clock s\<rparr>"
    by (simp_all add: g(3))
  then show "\<exists>r\<in>set (orders (working s)). ord_id r = i \<and> ord_status r \<in> CANCELLABLE_ORDER_STATUSES \<and>
      (user_role u = CLIENT \<longrightarrow> ord_created_by_user_id r = user_id u) \<and>
      order_closed release_row (\<lambda>q. q) r CANCELLED (clock s) (working s) (working s') \<and>
      r' = r\<lparr>ord_status := CANCELLED, ord_updated_at := clock s\<rparr>"
    using g c(1) by auto
  show "stock_sound [] (working s')" "committed s' = working s'" using c(2) s' by simp_all
qed

lemma cancel_order_Inl:
  assumes run: "cancel_order i u s = (Inl e, s')" and sound: "stock_sound [] (working s)"
    and uniq: "unique_orders (working s)"
  shows "committed s' = committed s \<and> working s' = committed s"
proof -
  from run obtain t where s': "s' = t\<lparr>working := committed t\<rparr>"
    and m: "cancellable_order i u s = (Inl e, t) \<or>
      (\<exists>r s1. cancellable_order i u s = (Inr r, s1) \<and> (release_and_cancel i r s1 = (Inl e, t) \<or>
        (\<exists>x s2. release_and_cancel i r s1 = (Inr x, s2) \<and>
          order_refresh i (s2\<lparr>committed := working s2\<rparr>) = (Inl e, t))))"
    unfolding cancel_order_def rolling_back_Inl and_then_Inl commit_eq by blast
  have "committed t = committed s"
    using m
  proof (elim disjE exE conjE)
    assume "cancellable_order i u s = (Inl e, t)"
    from in_transactionD [OF in_transaction_cancel(1) this] show ?thesis by simp
  next
    fix r s1 assume got: "cancellable_order i u s = (Inr r, s1)" and "release_and_cancel i r s1 = (Inl e, t)"
    with in_transactionD [OF in_transaction_cancel(2) this(2)] cancellable_order_Inr(1) [OF got]
    show ?thesis by simp
  next
    fix r s1 x s2 assume got: "cancellable_order i u s = (Inr r, s1)"
      and rel: "release_and_cancel i r s1 = (Inr x, s2)"
      and refresh: "order_refresh i (s2\<lparr>committed := working s2\<rparr>) = (Inl e, t)"
    note g = cancellable_order_Inr [OF got]
    note c = release_and_cancel_Inr [OF rel [unfolded g(1)] g(3) sound]
    from closed_order_refresh [OF c(1) uniq g(2)] refresh show ?thesis by (simp add: g(3))
  qed
  with s' show ?thesis by simp
qed

end
