(* ===== verification/Order_Processor.thy ===== *)
theory Order_Processor
  imports Order_Service
begin

text \<open>
  \<open>src/workers/order_processor.py\<close>. Processing an order is two transactions with the payment between
  them: \<open>process_begin\<close> claims the order (RESERVED to PROCESSING, one attempt more) and
  \<open>process_finish\<close> completes it, fails it, or puts it back for a retry. Between the two the database
  is unlocked, so other transactions can run there.
\<close>

definition process_begin :: "ident \<Rightarrow> order_row option op" where
  "process_begin order_id =
     and_then (order_get_by_id_for_update order_id) (\<lambda>found.
     case found of
       None \<Rightarrow> and_then commit (\<lambda>_. return None)
     | Some order \<Rightarrow>
         if ord_status order \<noteq> RESERVED then and_then commit (\<lambda>_. return None)
         else
           (let order' = order\<lparr>ord_processing_attempts := ord_processing_attempts order + 1\<rparr> in
            and_then (order_update_status order' PROCESSING) (\<lambda>_.
            and_then commit (\<lambda>_.
            return (Some order')))))"

definition complete_order :: "ident \<Rightarrow> order_row \<Rightarrow> unit op" where
  "complete_order order_id order =
     and_then (list_active_for_order order_id) (\<lambda>rs.
     and_then (settle_loop consume_reservation order_id rs) (\<lambda>_.
     and_then (order_update_status order COMPLETED) (\<lambda>_.
     commit)))"

definition fail_order :: "ident \<Rightarrow> order_row \<Rightarrow> unit op" where
  "fail_order order_id order =
     and_then (list_active_for_order order_id) (\<lambda>rs.
     and_then (settle_loop release_reservation order_id rs) (\<lambda>_.
     and_then (order_update_status order FAILED) (\<lambda>_.
     commit)))"

text \<open>\<open>backoff[attempt - 1] if attempt - 1 < len(backoff) else backoff[-1]\<close>; a negative index counts from the end.\<close>

definition retry_countdown :: "int list \<Rightarrow> int \<Rightarrow> exn + int" where
  "retry_countdown backoff attempt =
     (if attempt - 1 < int (length backoff) then
        (if 0 \<le> attempt - 1 then Inr (backoff ! nat (attempt - 1))
         else if - int (length backoff) \<le> attempt - 1 then Inr (backoff ! nat (int (length backoff) + (attempt - 1)))
         else Inl IndexError)
      else if backoff = [] then Inl IndexError
      else Inr (last backoff))"

definition schedule_retry :: "settings \<Rightarrow> int \<Rightarrow> string \<Rightarrow> unit op" where
  "schedule_retry cfg attempt message =
     (case payment_retry_backoff_list cfg of
        Inl e \<Rightarrow> raise e
      | Inr backoff \<Rightarrow> (case retry_countdown backoff attempt of
            Inl e \<Rightarrow> raise e
          | Inr countdown \<Rightarrow> raise (RetryablePaymentError message countdown)))"

definition process_finish :: "settings \<Rightarrow> ident \<Rightarrow> int \<Rightarrow> payment_outcome \<Rightarrow> unit op" where
  "process_finish cfg order_id attempt outcome =
     and_then (order_get_by_id_for_update order_id) (\<lambda>found.
     case found of None \<Rightarrow> raise AttributeError | Some order \<Rightarrow>
     if pay_result outcome = PAY_SUCCESS then complete_order order_id order
     else if pay_retryable outcome \<and> attempt < payment_max_attempts cfg then
       and_then (order_update_status order RESERVED) (\<lambda>_.
       and_then commit (\<lambda>_.
       schedule_retry cfg attempt (pay_message outcome)))
     else
       and_then (fail_order order_id order) (\<lambda>_.
       if attempt \<ge> payment_max_attempts cfg then
         and_then (dead_letter_record order_id (pay_message outcome) attempt) (\<lambda>_. commit)
       else return ()))"

text \<open>\<open>except RetryablePaymentError: raise\<close>, \<open>except Exception: rollback; raise\<close>.\<close>

definition worker_guard :: "'a op \<Rightarrow> 'a op" where
  "worker_guard m = try_except m (\<lambda>e. case e of
     RetryablePaymentError _ _ \<Rightarrow> raise e
   | _ \<Rightarrow> and_then rollback (\<lambda>_. raise e))"

definition process_order :: "settings \<Rightarrow> ident \<Rightarrow> unit op" where
  "process_order cfg order_id = with_session (worker_guard
     (and_then (process_begin order_id) (\<lambda>job. case job of
        None \<Rightarrow> return ()
      | Some order \<Rightarrow> process_finish cfg order_id (ord_processing_attempts order)
          (charge (ord_payment_token order)))))"

text \<open>The Celery task: a retryable error becomes a scheduled retry.\<close>

datatype task_result = Finished | RetryIn int int   \<comment> \<open>countdown and \<open>max_retries\<close>\<close>

definition process_order_task :: "settings \<Rightarrow> ident \<Rightarrow> task_result op" where
  "process_order_task cfg order_id = try_except
     (and_then (process_order cfg order_id) (\<lambda>_. return Finished))
     (\<lambda>e. case e of
        RetryablePaymentError _ countdown \<Rightarrow> return (RetryIn countdown (payment_max_attempts cfg))
      | _ \<Rightarrow> raise e)"

subsection \<open>The first transaction\<close>

text \<open>The order row as \<open>process_begin\<close> leaves it.\<close>

definition begun :: "time \<Rightarrow> order_row \<Rightarrow> order_row" where
  "begun n r = r\<lparr>ord_status := PROCESSING, ord_processing_attempts := ord_processing_attempts r + 1,
     ord_updated_at := n\<rparr>"

lemma process_begin_Inr:
  assumes run: "process_begin i s = (Inr job, s')" and uniq: "unique_orders (working s)"
  shows "case job of
      None \<Rightarrow> s' = s\<lparr>committed := working s\<rparr> \<and>
        (\<forall>r\<in>set (orders (working s)). ord_id r = i \<longrightarrow> ord_status r \<noteq> RESERVED)
    | Some order \<Rightarrow> \<exists>r\<in>set (orders (working s)). ord_id r = i \<and> ord_status r = RESERVED \<and>
        order = r\<lparr>ord_processing_attempts := ord_processing_attempts r + 1\<rparr> \<and>
        working s' = (working s)\<lparr>orders := update_where (\<lambda>x. ord_id x = i) (begun (clock s)) (orders (working s))\<rparr> \<and>
        committed s' = working s'"
proof -
  from run obtain found t where got: "order_get_by_id_for_update i s = (Inr found, t)"
    and rest: "(case found of
       None \<Rightarrow> and_then commit (\<lambda>_. return None)
     | Some order \<Rightarrow>
         if ord_status order \<noteq> RESERVED then and_then commit (\<lambda>_. return None)
         else
           (let order' = order\<lparr>ord_processing_attempts := ord_processing_attempts order + 1\<rparr> in
            and_then (order_update_status order' PROCESSING) (\<lambda>_.
            and_then commit (\<lambda>_.
            return (Some order'))))) t = (Inr job, s')"
    unfolding process_begin_def and_then_Inr by blast
  note only = unique_row [OF uniq [unfolded unique_orders_def]]
  show ?thesis
  proof (cases found)
    case None
    with order_get_None(1) [of i s t] got rest show ?thesis by (auto simp: has_order_def)
  next
    case (Some r)
    with order_get_Some(1) [of i s r t] got have t: "t = s" and r: "r \<in> set (orders (working s))" "ord_id r = i"
      by simp_all
    have one: "x = r" if "x \<in> set (orders (working s))" "ord_id x = i" for x
      using only [OF that(1) r(1)] that(2) r(2) by simp
    show ?thesis
    proof (cases "ord_status r = RESERVED")
      case False
      with Some rest t one show ?thesis by auto
    next
      case True
      let ?r = "r\<lparr>ord_processing_attempts := ord_processing_attempts r + 1\<rparr>"
      from True Some rest obtain x t' where upd: "order_update_status ?r PROCESSING t = (Inr x, t')"
        and s': "s' = t'\<lparr>committed := working t'\<rparr>" "job = Some ?r" by (auto simp: Let_def)
      note us = order_update_status_effect [OF upd]
      have "update_where (\<lambda>x. ord_id x = i) (\<lambda>x. x\<lparr>ord_status := PROCESSING,
          ord_processing_attempts := ord_processing_attempts r + 1, ord_updated_at := clock s\<rparr>) (orders (working s)) =
        update_where (\<lambda>x. ord_id x = i) (begun (clock s)) (orders (working s))"
        using one by (auto simp: update_where_def begun_def)
      then show ?thesis using us s' t r True by auto
    qed
  qed
qed

lemma fails_clean_begin: "fails_clean (process_begin i)"
  unfolding process_begin_def Let_def by (intro fails_clean_intro in_transaction_intro)

subsection \<open>The second transaction\<close>

lemma complete_order_Inr:
  assumes run: "complete_order i r s = (Inr x, s')" and r: "ord_id r = i"
    and sound: "stock_sound [] (working s)"
  shows "order_closed consume_row (\<lambda>_. 0) r COMPLETED (clock s) (working s) (working s')"
    and "stock_sound [] (working s')" and "committed s' = working s'" and "clock s' = clock s"
proof -
  from run r obtain rs s1 x s2 t where list: "list_active_for_order (ord_id r) s = (Inr rs, s1)"
    and loop: "settle_loop consume_reservation i rs s1 = (Inr x, s2)"
    and upd: "order_update_status r COMPLETED s2 = (Inr (), t)" and s': "s' = t\<lparr>committed := working t\<rparr>"
    by (auto simp: complete_order_def)
  from consuming_r.close_order [OF list loop upd sound] s'
  show "order_closed consume_row (\<lambda>_. 0) r COMPLETED (clock s) (working s) (working s')"
    and "stock_sound [] (working s')" and "committed s' = working s'" and "clock s' = clock s" by simp_all
qed

lemma fail_order_Inr:
  assumes run: "fail_order i r s = (Inr x, s')" and r: "ord_id r = i"
    and sound: "stock_sound [] (working s)"
  shows "order_closed release_row (\<lambda>q. q) r FAILED (clock s) (working s) (working s')"
    and "stock_sound [] (working s')" and "committed s' = working s'" and "clock s' = clock s"
proof -
  from run r obtain rs s1 x s2 t where list: "list_active_for_order (ord_id r) s = (Inr rs, s1)"
    and loop: "settle_loop release_reservation i rs s1 = (Inr x, s2)"
    and upd: "order_update_status r FAILED s2 = (Inr (), t)" and s': "s' = t\<lparr>committed := working t\<rparr>"
    by (auto simp: fail_order_def)
  from releasing_r.close_order [OF list loop upd sound] s'
  show "order_closed release_row (\<lambda>q. q) r FAILED (clock s) (working s) (working s')"
    and "stock_sound [] (working s')" and "committed s' = working s'" and "clock s' = clock s" by simp_all
qed

lemma fails_clean_commit: "fails_clean commit"
  by (simp add: fails_clean_def)

lemma fails_clean_close: "fails_clean (complete_order i r)" "fails_clean (fail_order i r)"
  unfolding complete_order_def fail_order_def
  by (intro fails_clean_intro fails_clean_commit in_transaction_intro)+

text \<open>The ways in which the second transaction can end, by what it committed.\<close>

definition put_back :: "order_row \<Rightarrow> time \<Rightarrow> db \<Rightarrow> db \<Rightarrow> bool" where
  "put_back r n d d' \<longleftrightarrow> d' = d\<lparr>orders := update_where (\<lambda>x. ord_id x = ord_id r)
     (\<lambda>x. x\<lparr>ord_status := RESERVED, ord_processing_attempts := ord_processing_attempts r,
            ord_updated_at := n\<rparr>) (orders d)\<rparr>"

definition finish_outcome ::
  "settings \<Rightarrow> order_row \<Rightarrow> int \<Rightarrow> payment_outcome \<Rightarrow> time \<Rightarrow> db \<Rightarrow> db \<Rightarrow> bool" where
  "finish_outcome cfg r attempt outcome n d d' \<longleftrightarrow>
     (if pay_result outcome = PAY_SUCCESS then order_closed consume_row (\<lambda>_. 0) r COMPLETED n d d'
      else if pay_retryable outcome \<and> attempt < payment_max_attempts cfg then put_back r n d d'
      else \<exists>d1 dl. order_closed release_row (\<lambda>q. q) r FAILED n d d1 \<and>
        d' = d1\<lparr>dead_letters := dead_letters d1 @ dl\<rparr> \<and>
        (\<forall>x\<in>set dl. dlq_order_id x = ord_id r \<and> dlq_reason x = pay_message outcome \<and>
           dlq_attempts x = attempt \<and> payment_max_attempts cfg \<le> attempt) \<and> length dl \<le> 1)"

lemma stock_sound_orders: "stock_sound pending (d\<lparr>orders := t\<rparr>) = stock_sound pending d"
  and stock_sound_dead_letters: "stock_sound pending (d\<lparr>dead_letters := l\<rparr>) = stock_sound pending d"
  by (rule stock_sound_cong; simp)+

text \<open>Whatever it returns or raises, it commits nothing, or one of the outcomes.\<close>

lemma process_finish_commits:
  assumes run: "process_finish cfg i attempt outcome s = (res, s')" and fresh: "working s = committed s"
    and sound: "stock_sound [] (working s)"
  shows "(committed s' = committed s \<and> (\<exists>e. res = Inl e)) \<or>
    (\<exists>r\<in>set (orders (working s)). ord_id r = i \<and> stock_sound [] (committed s') \<and>
       finish_outcome cfg r attempt outcome (clock s) (working s) (committed s'))"
proof (cases "order_get_by_id_for_update i s")
  case got: (Pair q t)
  show ?thesis
  proof (cases q)
    case (Inl e)
    with got order_get_Inl(1) [of i s e t] run show ?thesis
      by (auto simp: process_finish_def and_then_def)
  next
    case (Inr found)
    show ?thesis
    proof (cases found)
      case None
      with got Inr order_get_None(1) [of i s t] run show ?thesis
        by (auto simp: process_finish_def and_then_def raise_def)
    next
      case (Some r)
      with got Inr order_get_Some(1) [of i s r t] have t: "t = s"
        and r: "r \<in> set (orders (working s))" "ord_id r = i" by simp_all
      from run got Inr Some t have run':
        "(if pay_result outcome = PAY_SUCCESS then complete_order i r
          else if pay_retryable outcome \<and> attempt < payment_max_attempts cfg then
            and_then (order_update_status r RESERVED) (\<lambda>_. and_then commit (\<lambda>_.
              schedule_retry cfg attempt (pay_message outcome)))
          else and_then (fail_order i r) (\<lambda>_. if attempt \<ge> payment_max_attempts cfg then
              and_then (dead_letter_record i (pay_message outcome) attempt) (\<lambda>_. commit)
            else return ())) s = (res, s')"
        by (simp add: process_finish_def and_then_def)
      show ?thesis
      proof (cases "pay_result outcome = PAY_SUCCESS")
        case True
        show ?thesis
        proof (cases res)
          case (Inl e)
          with True run' fails_cleanD [OF fails_clean_close(1), of i r s e s'] show ?thesis by simp
        next
          case (Inr x)
          with True run' complete_order_Inr [of i r s x s'] r sound show ?thesis
            by (auto simp: finish_outcome_def)
        qed
      next
        case failed: False
        show ?thesis
        proof (cases "pay_retryable outcome \<and> attempt < payment_max_attempts cfg")
          case True
          have sched: "schedule_retry cfg attempt m u = (a, u') \<Longrightarrow> u' = u" for m u a u'
            by (auto simp: schedule_retry_def split: sum.splits)
          show ?thesis
          proof (cases "order_update_status r RESERVED s")
            case (Pair v t')
            show ?thesis
            proof (cases v)
              case (Inl e)
              with Pair run' failed True in_transactionD [OF in_transaction_orders(6), of r RESERVED s v t']
              show ?thesis by (auto simp: and_then_def)
            next
              case (Inr y)
              with Pair run' failed True have "schedule_retry cfg attempt (pay_message outcome)
                  (t'\<lparr>committed := working t'\<rparr>) = (res, s')" by (auto simp: and_then_def commit_def)
              from sched [OF this] order_update_status_effect [OF Pair [unfolded Inr]] r failed True sound
              show ?thesis
                by (intro disjI2 bexI [of _ r]) (simp_all add: finish_outcome_def put_back_def stock_sound_orders)
            qed
          qed
        next
          case perm: False
          show ?thesis
          proof (cases "fail_order i r s")
            case (Pair v t')
            show ?thesis
            proof (cases v)
              case (Inl e)
              with Pair run' failed perm fails_cleanD [OF fails_clean_close(2), of i r s e t']
              show ?thesis by (auto simp: and_then_def split: if_splits)
            next
              case (Inr y)
              note fo = fail_order_Inr [OF Pair [unfolded Inr] r(2) sound]
              have fin: "finish_outcome cfg r attempt outcome (clock s) (working s)
                  ((working t')\<lparr>dead_letters := dead_letters (working t') @ dl\<rparr>)"
                if "\<forall>x\<in>set dl. dlq_order_id x = ord_id r \<and> dlq_reason x = pay_message outcome \<and>
                  dlq_attempts x = attempt \<and> payment_max_attempts cfg \<le> attempt" "length dl \<le> 1" for dl
                using failed perm fo(1) that unfolding finish_outcome_def by auto
              have nodl: "(working t')\<lparr>dead_letters := dead_letters (working t') @ []\<rparr> = working t'" by simp
              from run' failed perm Pair Inr have rest: "(if attempt \<ge> payment_max_attempts cfg then
                  and_then (dead_letter_record i (pay_message outcome) attempt) (\<lambda>_. commit)
                else return ()) t' = (res, s')" by (simp add: and_then_def)
              show ?thesis
              proof (cases "payment_max_attempts cfg \<le> attempt")
                case False
                with rest have "s' = t'" by (simp add: return_def)
                with fin [of "[]"] nodl fo(2,3) r show ?thesis by auto
              next
                case True
                show ?thesis
                proof (cases "dead_letter_record i (pay_message outcome) attempt t'")
                  case dl: (Pair w t2)
                  show ?thesis
                  proof (cases w)
                    case (Inl e)
                    with dl rest True in_transactionD [OF in_transaction_logs(8) dl] have "committed s' = working t'"
                      using fo(3) by (auto simp: and_then_def)
                    with fin [of "[]"] nodl fo(2) r show ?thesis by auto
                  next
                    case (Inr x)
                    note de = dead_letter_record_effect [OF dl [unfolded Inr]]
                    from dl rest True Inr de have "committed s' = (working t')\<lparr>dead_letters :=
                        dead_letters (working t') @ [x]\<rparr>" by (auto simp: and_then_def commit_def)
                    with fin [of "[x]"] de True fo(2) r show ?thesis
                      by (intro disjI2 bexI [of _ r]) (simp_all add: stock_sound_dead_letters)
                  qed
                qed
              qed
            qed
          qed
        qed
      qed
    qed
  qed
qed

end
