(* ===== verification/Stock_Admin.thy ===== *)
theory Stock_Admin
  imports Settlement
begin

text \<open>
  The administrators' writes to the inventory: \<open>create_adjustment\<close> of
  \<open>src/services/inventory_service.py\<close> (defined in \<open>Inventory_Service\<close>, its effect is here) and
  \<open>src/services/low_stock_service.py\<close>.
\<close>

definition set_threshold_write :: "ident \<Rightarrow> ident \<Rightarrow> int \<Rightarrow> inventory_row op" where
  "set_threshold_write product_id warehouse_id threshold =
     (if threshold < 0 then
        raise (app_err InvalidRequestError ''Low-stock threshold must be non-negative''
          [(''threshold'', JInt threshold)])
      else
        and_then (product_get_by_id product_id) (\<lambda>product.
        if product = None then raise (product_not_found product_id) else
        and_then (warehouse_get_by_id warehouse_id) (\<lambda>warehouse.
        if warehouse = None then raise (warehouse_not_found warehouse_id) else
        and_then (inventory_get product_id warehouse_id) (\<lambda>found.
        case found of
          None \<Rightarrow> and_then (generate_id ''inv'') (\<lambda>i. and_then now (\<lambda>n.
            inventory_create \<lparr>inv_id = i, inv_product_id = product_id, inv_warehouse_id = warehouse_id,
              available_quantity = 0, reserved_quantity = 0, low_stock_threshold = Some threshold,
              is_low_stock = True, inv_updated_at = n\<rparr>))
        | Some row \<Rightarrow> and_then (inventory_set_threshold product_id warehouse_id threshold) (\<lambda>_.
            refresh_inventory row)))))"

definition set_threshold :: "ident \<Rightarrow> ident \<Rightarrow> int \<Rightarrow> inventory_row op" where
  "set_threshold product_id warehouse_id threshold =
     and_then (set_threshold_write product_id warehouse_id threshold) (\<lambda>row.
     and_then commit (\<lambda>_. refresh_inventory row))"

definition list_alerts :: "ident option \<Rightarrow> nat \<Rightarrow> low_stock_alert list op" where
  "list_alerts warehouse_id limit = low_stock_alert_list_recent warehouse_id limit"

lemma in_transaction_set_threshold [in_transaction_intro]: "in_transaction (set_threshold_write p w t)"
  unfolding set_threshold_write_def by (intro in_transaction_intro)

subsection \<open>A new row\<close>

text \<open>A new row of a pair that had none brings the stock it holds, and nothing reserved.\<close>

lemma account_append:
  assumes "inventory d' = inventory d @ [x]" and "inv_key x \<notin> inv_key ` set (inventory d)"
  shows "account d' = (account d)(inv_key x \<mapsto> row_account x)"
proof
  fix k
  have "find p (xs @ [y]) = (case find p xs of None \<Rightarrow> if p y then Some y else None | Some z \<Rightarrow> Some z)"
    for p and xs :: "inventory_row list" and y by (induction xs) auto
  then show "account d' k = ((account d)(inv_key x \<mapsto> row_account x)) k"
    using find_none_key [OF assms(2)] by (auto simp: account_def assms(1) split: option.splits)
qed

lemma new_row_quantities:
  assumes "inventory d' = inventory d @ [x]" and "inv_key x \<notin> inv_key ` set (inventory d)"
    and "reserved_quantity x = 0"
  shows "available_of d' k = available_of d k + (if inv_key x = k then available_quantity x else 0)"
    and "reserved_of d' k = reserved_of d k"
  using account_append [OF assms(1,2)] assms(2,3) account_none_iff [of d "inv_key x"]
  by (auto simp: available_of_def reserved_of_def row_account_def split: option.splits)

text \<open>The id of a row that is added is new and fits its column.\<close>

definition new_inv_id :: "inventory_row \<Rightarrow> db \<Rightarrow> bool" where
  "new_inv_id x d \<longleftrightarrow> inv_id x \<notin> inv_id ` set (inventory d) \<and> varchar 64 (inv_id x)"

definition adjusted :: "adjustment_request \<Rightarrow> db \<Rightarrow> db \<Rightarrow> bool" where
  "adjusted p d d' \<longleftrightarrow>
     (let k = (adj_product_id p, adj_warehouse_id p); q = adj_quantity p in
      if k \<in> inv_key ` set (inventory d)
      then stock_event k (adjust_spec q) q (adjustment_event_type q) q (adj_reason p) d d'
      else 0 \<le> q \<and> (\<exists>x a. inv_key x = k \<and> row_account x = (q, 0) \<and> low_stock_threshold x = None \<and>
        \<not> is_low_stock x \<and> row_ok x \<and> new_inv_id x d \<and> audit_of k STOCK_ADDED q (adj_reason p) a \<and>
        d' = d\<lparr>inventory := inventory d @ [x], audit_logs := audit_logs d @ [a]\<rparr>))"

lemma inventory_get_effect:
  assumes "inventory_get p w s = (Inr found, s')"
  shows "s' = s" and "found \<noteq> None \<longleftrightarrow> (p, w) \<in> inv_key ` set (inventory (working s))"
    and "found = Some r \<Longrightarrow> r \<in> set (inventory (working s)) \<and> inv_key r = (p, w)"
proof -
  from assms have *: "s' = s" "filter (\<lambda>r. inv_product_id r = p \<and> inv_warehouse_id r = w) (inventory (working s)) =
      (case found of None \<Rightarrow> [] | Some r \<Rightarrow> [r])" by (simp_all add: inventory_get_def select_one_Inr)
  show "s' = s" by (rule *)
  show "found \<noteq> None \<longleftrightarrow> (p, w) \<in> inv_key ` set (inventory (working s))"
    using *(2) by (cases found) (force simp: filter_empty_conv, force dest: filter_eq_ConsD)
  show "r \<in> set (inventory (working s)) \<and> inv_key r = (p, w)" if "found = Some r"
    using *(2) that by (auto dest: filter_eq_ConsD)
qed

lemma refresh_inventory_effect: "refresh_inventory row s = (Inr r, s') \<Longrightarrow> s' = s"
  by (auto simp: refresh_inventory_def dest: select_one_Some split: option.splits)

lemma inventory_create_effect:
  assumes "inventory_create x s = (Inr y, s')"
  shows "working s' = (working s)\<lparr>inventory := inventory (working s) @ [x]\<rparr>"
    and "row_ok x" and "inv_key x \<notin> inv_key ` set (inventory (working s))" and "new_inv_id x (working s)"
  using assms by (auto simp: inventory_create_def exec_insert_Inr check_inventory_def row_ok_def new_inv_id_def
      split: option.splits if_splits)

lemma apply_adjustment_Inr:
  assumes run: "apply_adjustment p s = (Inr x, s')" and u: "unique_pairs (working s)"
  shows "adjusted p (working s) (working s')"
proof -
  let ?p = "adj_product_id p" and ?w = "adj_warehouse_id p" and ?q = "adj_quantity p"
  from run obtain s1 s2 found s3 row s4 a where
    "product_get_by_id ?p s = (Inr s1, s2)" and same: "working s2 = working s"
    and get: "inventory_get ?p ?w s2 = (Inr found, s3)"
    and adj: "(case found of None \<Rightarrow> adjust_new_pair p | Some row \<Rightarrow> adjust_existing_pair p row) s3 = (Inr row, s4)"
    and log: "audit_record ?p ?w ?q (adjustment_event_type ?q) (adj_reason p) s4 = (Inr a, s')"
    by (auto simp: apply_adjustment_def product_get_by_id_def warehouse_get_by_id_def
        select_one_def split: if_splits)
  note g = inventory_get_effect [OF get]
  show ?thesis
  proof (cases found)
    case None
    with g same have new: "(?p, ?w) \<notin> inv_key ` set (inventory (working s))" by simp
    let ?y = "\<lparr>inv_id = ''inv_'' @ uuid_stream s3 (uuid_pos s3), inv_product_id = ?p,
      inv_warehouse_id = ?w, available_quantity = ?q, reserved_quantity = 0,
      low_stock_threshold = None, is_low_stock = False, inv_updated_at = clock s3\<rparr>"
    from adj None have nonneg: "0 \<le> ?q"
      and create: "inventory_create ?y (s3\<lparr>uuid_pos := Suc (uuid_pos s3)\<rparr>) = (Inr row, s4)"
      by (auto simp: adjust_new_pair_def split: if_splits)
    note ins = inventory_create_effect [OF create]
    have y: "inv_key ?y = (?p, ?w) \<and> row_account ?y = (?q, 0) \<and> low_stock_threshold ?y = None \<and>
        \<not> is_low_stock ?y \<and> row_ok ?y \<and> new_inv_id ?y (working s) \<and> audit_of (?p, ?w) STOCK_ADDED ?q (adj_reason p) a \<and>
        working s' = (working s)\<lparr>inventory := inventory (working s) @ [?y],
          audit_logs := audit_logs (working s) @ [a]\<rparr>"
      using ins audit_record_effect [OF log] g(1) same nonneg
      by (simp add: row_account_def audit_of_def adjustment_event_type_def)
    show ?thesis
      unfolding adjusted_def Let_def if_not_P [OF new]
      by (rule conjI [OF nonneg], rule exI [of _ "?y"], rule exI [of _ a], rule y)
  next
    case (Some r)
    with adj obtain t y t' where move: "adjust_available ?p ?w ?q s3 = (Inr True, t)"
      and check: "check_low_stock_transition ?p ?w ?q t = (Inr y, t')"
      and refresh: "refresh_inventory r t' = (Inr row, s4)"
      by (auto simp: adjust_existing_pair_def split: if_splits)
    have "s4 = t'" using refresh_inventory_effect [OF refresh] .
    with adjusting.event_check_first [OF move _ check] u log g(1) same Some g(2) show ?thesis
      by (simp add: adjusted_def Let_def)
  qed
qed

lemma stock_base_new_row:
  assumes base: "stock_base d" and new: "inv_key x \<notin> inv_key ` set (inventory d)"
    and x: "row_ok x" "flag_safe x" "reserved_quantity x = 0"
    and d': "inventory d' = inventory d @ [x]" "low_stock_alerts d' = low_stock_alerts d"
      "outbox_events d' = outbox_events d"
    and logs: "\<And>k. ledger fst (audit_logs d') k = ledger fst (audit_logs d) k +
        (if inv_key x = k then available_quantity x else 0)"
      "\<And>k. ledger snd (audit_logs d') k = ledger snd (audit_logs d) k"
  shows "stock_base d'"
proof -
  have "ledger_balanced d'"
    using base logs new_row_quantities [OF d'(1) new x(3)]
    by (simp add: stock_base_def ledger_balanced_def)
  then show ?thesis
    using base new x d' by (auto simp: stock_base_def unique_pairs_def alerts_announced_def)
qed

lemma adjusted_sound:
  assumes adj: "adjusted p d d'" and sound: "stock_sound [] d"
  shows "stock_sound [] d'"
proof (cases "(adj_product_id p, adj_warehouse_id p) \<in> inv_key ` set (inventory d)")
  case True
  let ?q = "adj_quantity p" and ?k = "(adj_product_id p, adj_warehouse_id p)"
  from adj True have ev: "stock_event ?k (adjust_spec ?q) ?q (adjustment_event_type ?q) ?q (adj_reason p) d d'"
    by (simp add: adjusted_def Let_def)
  have "stock_base d'"
    by (rule adjusting_l.event_base [OF ev stock_soundD(1) [OF sound]]) (auto split: if_splits)
  moreover have "snd (movement (adjustment_event_type ?q) ?q) = 0"
    by (simp add: adjustment_event_type_def)
  then have "conserved [] d'"
    using adjusting_l.event_quantities(2) [OF ev]
    by (intro conserved_event [OF stock_soundD(3) [OF sound] stock_event_frame(2) [OF ev]]) simp
  ultimately show ?thesis
    using sound stock_event_frame(2) [OF ev] by (simp add: stock_sound_def reservations_ok_def)
next
  case False
  with adj obtain x a where x: "inv_key x = (adj_product_id p, adj_warehouse_id p)"
    "row_account x = (adj_quantity p, 0)" "low_stock_threshold x = None" "\<not> is_low_stock x" "row_ok x"
    and a: "audit_of (adj_product_id p, adj_warehouse_id p) STOCK_ADDED (adj_quantity p) (adj_reason p) a"
    and d': "d' = d\<lparr>inventory := inventory d @ [x], audit_logs := audit_logs d @ [a]\<rparr>"
    by (auto simp: adjusted_def Let_def)
  have new: "inv_key x \<notin> inv_key ` set (inventory d)" using False x by simp
  have res: "reserved_quantity x = 0" "available_quantity x = adj_quantity p"
    using x(2) by (simp_all add: row_account_def)
  have "stock_base d'"
    by (rule stock_base_new_row [OF stock_soundD(1) [OF sound] new])
      (use x a res in \<open>auto simp: d' flag_safe_def audit_of_def log_key_def\<close>)
  moreover have "conserved [] d'"
    using new_row_quantities(2) [of d' d x] new res stock_soundD(3) [OF sound]
    by (simp add: conserved_def held_def d')
  ultimately show ?thesis using sound by (simp add: stock_sound_def reservations_ok_def d')
qed

text \<open>Whatever the endpoint answers, it committed nothing or one adjustment.\<close>

lemma create_adjustment_commits:
  assumes run: "create_adjustment p s = (res, s')" and sound: "stock_sound [] (working s)"
  shows "committed s' = committed s \<or>
    (adjusted p (working s) (committed s') \<and> stock_sound [] (committed s'))"
  using commit_then_read [OF run [unfolded create_adjustment_def] in_transaction_adjustment
      in_transaction_service(4)]
    apply_adjustment_Inr [OF _ stock_soundD(4) [OF sound]] adjusted_sound [OF _ sound]
  by metis

subsection \<open>Thresholds\<close>

definition threshold_row :: "ident \<times> ident \<Rightarrow> int \<Rightarrow> inventory_row \<Rightarrow> inventory_row \<Rightarrow> bool" where
  "threshold_row k t r r' \<longleftrightarrow> inv_id r' = inv_id r \<and> inv_key r' = inv_key r \<and>
     row_account r' = row_account r \<and>
     (if inv_key r = k
      then low_stock_threshold r' = Some t \<and> is_low_stock r' = (available_quantity r' \<le> t) \<and> row_ok r'
      else r' = r)"

definition threshold_set :: "ident \<times> ident \<Rightarrow> int \<Rightarrow> db \<Rightarrow> db \<Rightarrow> bool" where
  "threshold_set k t d d' \<longleftrightarrow> 0 \<le> t \<and>
     (if k \<in> inv_key ` set (inventory d)
      then (\<exists>h. d' = d\<lparr>inventory := map h (inventory d)\<rparr> \<and>
        (\<forall>r\<in>set (inventory d). threshold_row k t r (h r)))
      else (\<exists>x. inv_key x = k \<and> row_account x = (0, 0) \<and> low_stock_threshold x = Some t \<and>
        is_low_stock x \<and> row_ok x \<and> new_inv_id x d \<and> d' = d\<lparr>inventory := inventory d @ [x]\<rparr>))"

lemma inventory_set_threshold_effect:
  assumes "inventory_set_threshold p w t s = (Inr b, s')"
  shows "\<exists>h. s' = s\<lparr>working := (working s)\<lparr>inventory := map h (inventory (working s))\<rparr>\<rparr> \<and>
    (\<forall>r\<in>set (inventory (working s)). threshold_row (p, w) t r (h r))"
proof -
  let ?p = "\<lambda>r. inv_product_id r = p \<and> inv_warehouse_id r = w"
  let ?g = "\<lambda>r. r\<lparr>low_stock_threshold := Some t, is_low_stock := (available_quantity r \<le> t),
    inv_updated_at := clock s\<rparr>"
  let ?h = "\<lambda>r. if ?p r then ?g r else r"
  from assms have s': "s' = s\<lparr>working := (working s)\<lparr>inventory := map ?h (inventory (working s))\<rparr>\<rparr>"
    and ok: "\<forall>r\<in>set (inventory (working s)). ?p r \<longrightarrow> row_ok (?g r)"
    by (auto simp: inventory_set_threshold_def update_inventory_def exec_update_Inr update_where_def
        row_ok_def)
  have "threshold_row (p, w) t r (?h r)" if "r \<in> set (inventory (working s))" for r
    using ok that by (auto simp: threshold_row_def row_account_def)
  with s' show ?thesis by (intro exI [of _ ?h]) blast
qed

lemma set_threshold_write_Inr:
  assumes run: "set_threshold_write p w t s = (Inr x, s')"
  shows "threshold_set (p, w) t (working s) (working s')"
proof -
  from run have nonneg: "0 \<le> t" by (auto simp: set_threshold_write_def split: if_splits)
  from run obtain s1 s2 found s3 where
    "product_get_by_id p s = (Inr s1, s2)" and same: "working s2 = working s"
    and get: "inventory_get p w s2 = (Inr found, s3)"
    and rest: "(case found of
          None \<Rightarrow> and_then (generate_id ''inv'') (\<lambda>i. and_then now (\<lambda>n.
            inventory_create \<lparr>inv_id = i, inv_product_id = p, inv_warehouse_id = w,
              available_quantity = 0, reserved_quantity = 0, low_stock_threshold = Some t,
              is_low_stock = True, inv_updated_at = n\<rparr>))
        | Some row \<Rightarrow> and_then (inventory_set_threshold p w t) (\<lambda>_. refresh_inventory row)) s3 = (Inr x, s')"
    by (auto simp: set_threshold_write_def product_get_by_id_def warehouse_get_by_id_def
        select_one_def split: if_splits)
  note g = inventory_get_effect [OF get]
  show ?thesis
  proof (cases found)
    case None
    with g same have new: "(p, w) \<notin> inv_key ` set (inventory (working s))" by simp
    let ?y = "\<lparr>inv_id = ''inv_'' @ uuid_stream s3 (uuid_pos s3), inv_product_id = p,
      inv_warehouse_id = w, available_quantity = 0, reserved_quantity = 0,
      low_stock_threshold = Some t, is_low_stock = True, inv_updated_at = clock s3\<rparr>"
    from rest None have create: "inventory_create ?y (s3\<lparr>uuid_pos := Suc (uuid_pos s3)\<rparr>) = (Inr x, s')"
      by simp
    have y: "inv_key ?y = (p, w) \<and> row_account ?y = (0, 0) \<and> low_stock_threshold ?y = Some t \<and>
        is_low_stock ?y \<and> row_ok ?y \<and> new_inv_id ?y (working s) \<and> working s' = (working s)\<lparr>inventory := inventory (working s) @ [?y]\<rparr>"
      using inventory_create_effect [OF create] g(1) same by (simp add: row_account_def)
    show ?thesis
      unfolding threshold_set_def if_not_P [OF new] by (rule conjI [OF nonneg], rule exI [of _ "?y"], rule y)
  next
    case (Some r)
    with rest obtain b t' where set: "inventory_set_threshold p w t s3 = (Inr b, t')"
      and refresh: "refresh_inventory r t' = (Inr x, s')" by auto
    have pw: "(p, w) \<in> inv_key ` set (inventory (working s))" using g Some same by simp
    have "s' = t'" using refresh_inventory_effect [OF refresh] .
    with inventory_set_threshold_effect [OF set] g(1) same
    have h: "\<exists>h. working s' = (working s)\<lparr>inventory := map h (inventory (working s))\<rparr> \<and>
        (\<forall>r\<in>set (inventory (working s)). threshold_row (p, w) t r (h r))" by auto
    show ?thesis unfolding threshold_set_def if_P [OF pw] by (rule conjI [OF nonneg h])
  qed
qed

lemma find_map_account:
  assumes "inventory d' = map h (inventory d)"
    and "\<And>r. r \<in> set (inventory d) \<Longrightarrow> inv_key (h r) = inv_key r \<and> row_account (h r) = row_account r"
  shows "account d' = account d"
proof
  fix k
  have "account d' k = map_option (\<lambda>r. row_account (h r)) (find (\<lambda>r. inv_key r = k) (inventory d))"
    using assms(2) by (intro account_map [OF assms(1)]) blast
  also have "\<dots> = account d k"
    using find_key_Some [of inv_key k "inventory d"] assms(2)
    by (cases "find (\<lambda>r. inv_key r = k) (inventory d)") (auto simp: account_def)
  finally show "account d' k = account d k" .
qed

lemma threshold_set_sound:
  assumes set: "threshold_set k t d d'" and sound: "stock_sound [] d"
  shows "stock_sound [] d'"
proof (cases "k \<in> inv_key ` set (inventory d)")
  case True
  with set obtain h where d': "d' = d\<lparr>inventory := map h (inventory d)\<rparr>"
    and rows: "\<forall>r\<in>set (inventory d). threshold_row k t r (h r)"
    by (auto simp: threshold_set_def)
  have row: "inv_key (h r) = inv_key r \<and> row_account (h r) = row_account r"
    "row_ok r \<and> flag_safe r \<Longrightarrow> row_ok (h r) \<and> flag_safe (h r)" if "r \<in> set (inventory d)" for r
    using bspec [OF rows that] by (auto simp: threshold_row_def flag_safe_def split: if_splits option.splits)
  have inv: "inventory d' = map h (inventory d)" by (simp add: d')
  have "account d' = account d" by (rule find_map_account [OF inv row(1)])
  then have acct: "available_of d' = available_of d" "reserved_of d' = reserved_of d"
    by (auto simp: available_of_def reserved_of_def)
  have "unique_pairs d'"
    using row(1) by (intro unique_pairs_map [OF inv _ stock_soundD(4) [OF sound]]) blast
  then have "stock_base d'"
    using stock_soundD(1) [OF sound] row(2) acct
    by (auto simp: stock_base_def ledger_balanced_def alerts_announced_def d')
  then show ?thesis
    using sound acct by (simp add: stock_sound_def reservations_ok_def conserved_def held_def d')
next
  case False
  with set obtain x where x: "inv_key x = k" "row_account x = (0, 0)" "low_stock_threshold x = Some t"
    "is_low_stock x" "row_ok x" and d': "d' = d\<lparr>inventory := inventory d @ [x]\<rparr>"
    by (auto simp: threshold_set_def)
  have new: "inv_key x \<notin> inv_key ` set (inventory d)" using False x by simp
  have res: "reserved_quantity x = 0" "available_quantity x = 0" using x(2) by (simp_all add: row_account_def)
  have "stock_base d'"
    by (rule stock_base_new_row [OF stock_soundD(1) [OF sound] new])
      (use x res in \<open>auto simp: d' flag_safe_def\<close>)
  moreover have "conserved [] d'"
    using new_row_quantities(2) [of d' d x] new res stock_soundD(3) [OF sound]
    by (simp add: conserved_def held_def d')
  ultimately show ?thesis using sound by (simp add: stock_sound_def reservations_ok_def d')
qed

lemma set_threshold_commits:
  assumes run: "set_threshold p w t s = (res, s')" and sound: "stock_sound [] (working s)"
  shows "committed s' = committed s \<or>
    (threshold_set (p, w) t (working s) (committed s') \<and> stock_sound [] (committed s'))"
  using commit_then_read [OF run [unfolded set_threshold_def] in_transaction_set_threshold
      in_transaction_service(4)] set_threshold_write_Inr threshold_set_sound [OF _ sound]
  by metis

end
