(* ===== verification/Access.thy ===== *)
theory Access
  imports Session
begin

text \<open>
  Users, tokens and roles: \<open>user_repository.py\<close>, \<open>auth_service.py\<close>, the payload of
  \<open>core/security.py\<close>'s tokens and the dependencies of \<open>api/deps.py\<close>. Bcrypt and JWT are libraries:
  \<open>hash\<close>, \<open>verify\<close>, \<open>encode\<close> and \<open>decode\<close> are fields of the parameter \<open>crypto\<close>; \<open>decode\<close> gets the
  present instant, since it refuses expired tokens, and returns \<open>None\<close> for a \<open>JWTError\<close>.
\<close>

record crypto =
  hash_password :: "string \<Rightarrow> string"
  verify_password :: "string \<Rightarrow> string \<Rightarrow> bool"
  jwt_encode :: "(string \<times> json) list \<Rightarrow> string"
  jwt_decode :: "time \<Rightarrow> string \<Rightarrow> (string \<times> json) list option"
  jwt_expire_minutes :: int

record register_request =
  reg_email :: string
  reg_password :: string
  reg_role :: user_role

record login_request =
  login_email :: string
  login_password :: string

record token_response =
  access_token :: string
  token_role :: user_role

definition user_get_by_id :: "ident \<Rightarrow> user option op" where
  "user_get_by_id i = select_one users (\<lambda>u. user_id u = i)"

definition user_get_by_email :: "string \<Rightarrow> user option op" where
  "user_get_by_email email = select_one users (\<lambda>u. user_email u = email)"

definition user_create :: "user \<Rightarrow> user op" where
  "user_create = exec_insert users (\<lambda>t d. d\<lparr>users := t\<rparr>) check_user"

definition create_access_token :: "crypto \<Rightarrow> ident \<Rightarrow> string \<Rightarrow> string \<Rightarrow> string op" where
  "create_access_token c subject email role = and_then now (\<lambda>n.
     return (jwt_encode c [(''sub'', JStr subject), (''email'', JStr email), (''role'', JStr role),
       (''iat'', JTime n), (''exp'', JTime (n + jwt_expire_minutes c * 60000000))]))"

definition register_user :: "crypto \<Rightarrow> register_request \<Rightarrow> user op" where
  "register_user c payload =
     and_then (user_get_by_email (reg_email payload)) (\<lambda>found.
     if found \<noteq> None then
       raise (app_err InvalidRequestError ''A user with this email already exists''
         [(''email'', JStr (reg_email payload))])
     else
       and_then (generate_id ''user'') (\<lambda>i. and_then now (\<lambda>n.
       and_then (user_create \<lparr>user_id = i, user_email = reg_email payload,
          user_hashed_password = hash_password c (reg_password payload),
          user_role = reg_role payload, user_created_at = n\<rparr>) (\<lambda>u.
       and_then commit (\<lambda>_. return u)))))"

definition bad_credentials :: exn where
  "bad_credentials = app_err UnauthorizedError ''Invalid email or password'' []"

definition login :: "crypto \<Rightarrow> login_request \<Rightarrow> token_response op" where
  "login c payload =
     and_then (user_get_by_email (login_email payload)) (\<lambda>found.
     case found of None \<Rightarrow> raise bad_credentials | Some u \<Rightarrow>
     if \<not> verify_password c (login_password payload) (user_hashed_password u) then raise bad_credentials
     else
       and_then (create_access_token c (user_id u) (user_email u) (user_role_value (user_role u))) (\<lambda>token.
       return \<lparr>access_token = token, token_role = user_role u\<rparr>))"

subsection \<open>Dependencies\<close>

definition unauthorized :: "string \<Rightarrow> exn" where
  "unauthorized message = app_err UnauthorizedError message []"

text \<open>\<open>claims.get("sub", "")\<close>; a subject that is no string matches no user.\<close>

definition claims_subject :: "(string \<times> json) list \<Rightarrow> ident option" where
  "claims_subject claims = (case map_of claims ''sub'' of
     None \<Rightarrow> Some [] | Some (JStr i) \<Rightarrow> Some i | Some _ \<Rightarrow> None)"

definition get_current_user :: "crypto \<Rightarrow> string option \<Rightarrow> user op" where
  "get_current_user c credentials =
     (case credentials of None \<Rightarrow> raise (unauthorized ''Missing bearer token'')
      | Some token \<Rightarrow> and_then now (\<lambda>n.
         case jwt_decode c n token of None \<Rightarrow> raise (unauthorized ''Invalid or expired token'')
         | Some claims \<Rightarrow>
             and_then (case claims_subject claims of None \<Rightarrow> return None | Some i \<Rightarrow> user_get_by_id i) (\<lambda>found.
             case found of None \<Rightarrow> raise (unauthorized ''User no longer exists'')
             | Some u \<Rightarrow> return u)))"

definition role_refused :: "user_role \<Rightarrow> exn" where
  "role_refused r = app_err ForbiddenError
     (''Role '' @ quoted (user_role_value r) @ '' is not permitted to perform this action'') []"

definition require_roles :: "user_role list \<Rightarrow> crypto \<Rightarrow> string option \<Rightarrow> user op" where
  "require_roles allowed_roles c credentials =
     and_then (get_current_user c credentials) (\<lambda>current_user.
     if user_role current_user \<notin> set allowed_roles then raise (role_refused (user_role current_user))
     else return current_user)"

lemma in_transaction_access [in_transaction_intro]:
  "in_transaction (user_get_by_id i)" "in_transaction (user_get_by_email m)"
  "in_transaction (create_access_token c i m r)"
  unfolding user_get_by_id_def user_get_by_email_def create_access_token_def
  by (intro in_transaction_intro)+

lemma in_transaction_current_user [in_transaction_intro]:
  "in_transaction (get_current_user c t)" "in_transaction (require_roles roles c t)"
  "in_transaction (login c p)"
  unfolding get_current_user_def require_roles_def login_def by (intro in_transaction_intro)+

text \<open>Reading never changes the session.\<close>

lemma get_current_user_state: "get_current_user c t s = (r, s') \<Longrightarrow> s' = s"
  by (auto simp: get_current_user_def user_get_by_id_def and_then_def select_one_def now_def return_def
      raise_def split: option.splits sum.splits prod.splits)

lemma require_roles_state: "require_roles roles c t s = (r, s') \<Longrightarrow> s' = s"
  by (cases "get_current_user c t s")
    (auto simp: require_roles_def and_then_def return_def raise_def dest!: get_current_user_state
      split: sum.splits if_splits)

lemma require_roles_Inr:
  assumes "require_roles roles c t s = (Inr u, s')"
  shows "s' = s" and "u \<in> set (users (working s))" and "user_role u \<in> set roles"
    and "\<exists>token claims. t = Some token \<and> jwt_decode c (clock s) token = Some claims \<and>
      claims_subject claims = Some (user_id u)"
proof -
  from assms have cur: "get_current_user c t s = (Inr u, s')" and role: "user_role u \<in> set roles"
    by (auto simp: require_roles_def split: if_splits)
  from cur obtain token claims i where t: "t = Some token" "jwt_decode c (clock s) token = Some claims"
    "claims_subject claims = Some i" and u: "user_get_by_id i s = (Inr (Some u), s')"
    by (auto simp: get_current_user_def split: option.splits)
  from select_one_Some [OF u [unfolded user_get_by_id_def]] t role
  show "s' = s" "u \<in> set (users (working s))" "user_role u \<in> set roles"
    "\<exists>token claims. t = Some token \<and> jwt_decode c (clock s) token = Some claims \<and>
      claims_subject claims = Some (user_id u)" by auto
qed

lemma register_user_Inr:
  assumes "register_user c p s = (Inr u, s')"
  shows "committed s' = (working s)\<lparr>users := users (working s) @ [u]\<rparr>"
    and "working s' = committed s'" and "user_email u = reg_email p" "user_role u = reg_role p"
    and "user_hashed_password u = hash_password c (reg_password p)"
    and "user_id u = ''user_'' @ uuid_stream s (uuid_pos s)" "check_user (working s) u = None"
    and "clock s' = clock s"
  using assms
  by (auto simp: register_user_def user_create_def exec_insert_Inr user_get_by_email_def
      select_one_None generate_id_def split: if_splits)

lemma fails_clean_register: "fails_clean (register_user c p)"
  unfolding register_user_def user_create_def
  by (intro fails_clean_intro in_transaction_intro fails_clean_in_transaction [of "raise e" for e])

end
