(* ===== verification/Api.thy ===== *)
theory Api
  imports Order_Processor Stock_Admin Access
begin

text \<open>
  The HTTP surface, \<open>src/api/\<close>: the routes with their role dependency, the request schemas, the
  response bodies, and the exception handlers of \<open>src/middleware/error_handler.py\<close>. FastAPI solves a
  route's dependencies before it validates the body, so authentication comes first. The text of
  pydantic's validation errors is the parameter \<open>errors\<close>.
\<close>

datatype api_request =
  ReqRegister register_request
| ReqLogin login_request
| ReqCreateProduct product_create_request
| ReqGetProduct ident
| ReqCreateWarehouse warehouse_create_request
| ReqAdjust adjustment_request
| ReqLowStock "ident option"
| ReqThreshold ident ident int
| ReqInventory ident
| ReqCreateOrder order_request "string option"
| ReqGetOrder ident
| ReqListOrders "order_status option" "time option" "time option" nat nat
| ReqCancelOrder ident

text \<open>\<open>require_roles\<close> of each route; \<open>None\<close>: no authentication.\<close>

fun allowed_roles :: "api_request \<Rightarrow> user_role list option" where
  "allowed_roles (ReqRegister _) = None"
| "allowed_roles (ReqLogin _) = None"
| "allowed_roles (ReqCreateProduct _) = Some [ADMIN]"
| "allowed_roles (ReqGetProduct _) = Some [ADMIN, CLIENT]"
| "allowed_roles (ReqCreateWarehouse _) = Some [ADMIN]"
| "allowed_roles (ReqAdjust _) = Some [ADMIN]"
| "allowed_roles (ReqLowStock _) = Some [ADMIN]"
| "allowed_roles (ReqThreshold _ _ _) = Some [ADMIN]"
| "allowed_roles (ReqInventory _) = Some [ADMIN]"
| "allowed_roles (ReqCreateOrder _ _) = Some [CLIENT]"
| "allowed_roles (ReqGetOrder _) = Some [ADMIN, CLIENT]"
| "allowed_roles (ReqListOrders _ _ _ _ _) = Some [ADMIN, CLIENT]"
| "allowed_roles (ReqCancelOrder _) = Some [ADMIN, CLIENT]"

text \<open>The constraints of the request schemas.\<close>

definition valid_register_request :: "register_request \<Rightarrow> bool" where
  "valid_register_request p \<longleftrightarrow> 8 \<le> length (reg_password p) \<and> length (reg_password p) \<le> 128"

fun valid_request :: "api_request \<Rightarrow> bool" where
  "valid_request (ReqRegister p) = valid_register_request p"
| "valid_request (ReqCreateProduct p) = valid_product_request p"
| "valid_request (ReqCreateWarehouse p) = valid_warehouse_request p"
| "valid_request (ReqAdjust p) = valid_adjustment_request p"
| "valid_request (ReqThreshold _ _ t) = (0 \<le> t)"
| "valid_request (ReqCreateOrder p _) = valid_order_request p"
| "valid_request (ReqListOrders _ _ _ page limit) = (1 \<le> page \<and> 1 \<le> limit \<and> limit \<le> 100)"
| "valid_request _ = True"

fun success_status :: "api_request \<Rightarrow> int" where
  "success_status (ReqRegister _) = 201"
| "success_status (ReqCreateProduct _) = 201"
| "success_status (ReqCreateWarehouse _) = 201"
| "success_status (ReqAdjust _) = 201"
| "success_status (ReqCreateOrder _ _) = 201"
| "success_status _ = 200"

subsection \<open>Response bodies\<close>

definition user_json :: "user \<Rightarrow> json" where
  "user_json u = JObj [(''id'', JStr (user_id u)), (''email'', JStr (user_email u)),
     (''role'', JStr (user_role_value (user_role u)))]"

definition token_json :: "token_response \<Rightarrow> json" where
  "token_json t = JObj [(''access_token'', JStr (access_token t)), (''token_type'', JStr ''bearer''),
     (''role'', JStr (user_role_value (token_role t)))]"

definition product_json :: "product \<Rightarrow> json" where
  "product_json p = JObj [(''id'', JStr (prod_id p)), (''sku'', JStr (prod_sku p)),
     (''name'', JStr (prod_name p)), (''price'', JDec (prod_price p)),
     (''created_at'', JTime (prod_created_at p)),
     (''updated_at'', JTime (prod_updated_at p))]"

definition warehouse_json :: "warehouse \<Rightarrow> json" where
  "warehouse_json w = JObj [(''id'', JStr (wh_id w)), (''name'', JStr (wh_name w)),
     (''location'', JStr (wh_location w)), (''created_at'', JTime (wh_created_at w))]"

definition adjustment_json :: "inventory_row \<Rightarrow> json" where
  "adjustment_json r = JObj [(''product_id'', JStr (inv_product_id r)),
     (''warehouse_id'', JStr (inv_warehouse_id r)), (''available_quantity'', JInt (available_quantity r)),
     (''reserved_quantity'', JInt (reserved_quantity r))]"

definition threshold_json :: "inventory_row \<Rightarrow> json" where
  "threshold_json r = JObj [(''product_id'', JStr (inv_product_id r)),
     (''warehouse_id'', JStr (inv_warehouse_id r)),
     (''threshold'', case low_stock_threshold r of None \<Rightarrow> JNull | Some t \<Rightarrow> JInt t),
     (''is_low_stock'', JBool (is_low_stock r))]"

definition alert_json :: "low_stock_alert \<Rightarrow> json" where
  "alert_json a = JObj [(''id'', JStr (lsa_id a)), (''product_id'', JStr (lsa_product_id a)),
     (''warehouse_id'', JStr (lsa_warehouse_id a)), (''quantity_at_alert'', JInt (lsa_quantity_at_alert a)),
     (''threshold'', JInt (lsa_threshold a)), (''created_at'', JTime (lsa_created_at a))]"

definition inventory_json :: "ident \<Rightarrow> inventory_line list \<Rightarrow> json" where
  "inventory_json product_id ls = JObj [(''product_id'', JStr product_id),
     (''warehouses'', JArr (map (\<lambda>l. JObj [(''warehouse_id'', JStr (line_warehouse_id l)),
        (''available'', JInt (line_available l)), (''reserved'', JInt (line_reserved l))]) ls))]"

definition order_response :: "order_row \<Rightarrow> json op" where
  "order_response r = and_then (items_of_order (ord_id r)) (\<lambda>items. return (serialize_order r items))"

text \<open>\<open>math.ceil(result.total / limit) if result.total else 0\<close>\<close>

definition total_pages :: "nat \<Rightarrow> nat \<Rightarrow> nat" where
  "total_pages count limit = (if count = 0 then 0 else (count + limit - 1) div limit)"

fun order_responses :: "order_row list \<Rightarrow> json list op" where
  "order_responses [] = return []"
| "order_responses (r # rs) = and_then (order_response r) (\<lambda>j.
     and_then (order_responses rs) (\<lambda>js. return (j # js)))"

definition page_json :: "nat \<Rightarrow> nat \<Rightarrow> nat \<Rightarrow> json list \<Rightarrow> json" where
  "page_json page limit count js = JObj [(''orders'', JArr js),
     (''pagination'', JObj [(''page'', JInt (int page)), (''limit'', JInt (int limit)),
        (''total'', JInt (int count)), (''total_pages'', JInt (int (total_pages count limit)))])]"

subsection \<open>Endpoints\<close>

text \<open>The route functions; \<open>u\<close> is the user the role dependency returned.\<close>

definition post_register :: "crypto \<Rightarrow> register_request \<Rightarrow> json op" where
  "post_register c payload = and_then (register_user c payload) (\<lambda>u. return (user_json u))"

definition post_login :: "crypto \<Rightarrow> login_request \<Rightarrow> json op" where
  "post_login c payload = and_then (login c payload) (\<lambda>t. return (token_json t))"

definition post_product :: "product_create_request \<Rightarrow> json op" where
  "post_product payload = and_then (create_product payload) (\<lambda>p. return (product_json p))"

definition get_product :: "ident \<Rightarrow> json op" where
  "get_product product_id = and_then (get_product_or_404 product_id) (\<lambda>p. return (product_json p))"

definition post_warehouse :: "warehouse_create_request \<Rightarrow> json op" where
  "post_warehouse payload = and_then (create_warehouse payload) (\<lambda>w. return (warehouse_json w))"

definition post_adjustment :: "adjustment_request \<Rightarrow> json op" where
  "post_adjustment payload = and_then (create_adjustment payload) (\<lambda>row. return (adjustment_json row))"

definition get_low_stock_alerts :: "ident option \<Rightarrow> json op" where
  "get_low_stock_alerts warehouse_id = and_then (list_alerts warehouse_id 100) (\<lambda>alerts.
     return (JObj [(''alerts'', JArr (map alert_json alerts))]))"

definition put_low_stock_threshold :: "ident \<Rightarrow> ident \<Rightarrow> int \<Rightarrow> json op" where
  "put_low_stock_threshold product_id warehouse_id threshold =
     and_then (set_threshold product_id warehouse_id threshold) (\<lambda>row. return (threshold_json row))"

definition get_inventory :: "ident \<Rightarrow> json op" where
  "get_inventory product_id = and_then (get_inventory_for_product product_id) (\<lambda>ls.
     return (inventory_json product_id ls))"

definition post_order :: "settings \<Rightarrow> (string \<Rightarrow> string) \<Rightarrow> order_request \<Rightarrow> string option \<Rightarrow> user \<Rightarrow> json op" where
  "post_order cfg sha payload idempotency_key u = create_order cfg sha payload u idempotency_key"

definition get_order :: "ident \<Rightarrow> user \<Rightarrow> json op" where
  "get_order order_id u = and_then (get_order_or_404 order_id u) order_response"

definition get_orders :: "order_status option \<Rightarrow> time option \<Rightarrow> time option \<Rightarrow> nat \<Rightarrow> nat \<Rightarrow> user \<Rightarrow> json op" where
  "get_orders status created_after created_before page limit u =
     and_then (list_orders u status created_after created_before page limit) (\<lambda>(rs, count).
     and_then (order_responses rs) (\<lambda>js. return (page_json page limit count js)))"

definition post_cancel :: "ident \<Rightarrow> user \<Rightarrow> json op" where
  "post_cancel order_id u = and_then (cancel_order order_id u) order_response"

lemmas routes = post_register_def post_login_def post_product_def get_product_def post_warehouse_def
  post_adjustment_def get_low_stock_alerts_def put_low_stock_threshold_def get_inventory_def
  post_order_def get_order_def get_orders_def post_cancel_def

text \<open>The router.\<close>

fun endpoint :: "settings \<Rightarrow> (string \<Rightarrow> string) \<Rightarrow> crypto \<Rightarrow> api_request \<Rightarrow> user option \<Rightarrow> json op" where
  "endpoint cfg sha c (ReqRegister p) u = post_register c p"
| "endpoint cfg sha c (ReqLogin p) u = post_login c p"
| "endpoint cfg sha c (ReqCreateProduct p) u = post_product p"
| "endpoint cfg sha c (ReqGetProduct i) u = get_product i"
| "endpoint cfg sha c (ReqCreateWarehouse p) u = post_warehouse p"
| "endpoint cfg sha c (ReqAdjust p) u = post_adjustment p"
| "endpoint cfg sha c (ReqLowStock w) u = get_low_stock_alerts w"
| "endpoint cfg sha c (ReqThreshold p w t) u = put_low_stock_threshold p w t"
| "endpoint cfg sha c (ReqInventory p) u = get_inventory p"
| "endpoint cfg sha c (ReqCreateOrder p key) (Some u) = post_order cfg sha p key u"
| "endpoint cfg sha c (ReqGetOrder i) (Some u) = get_order i u"
| "endpoint cfg sha c (ReqListOrders st since till page limit) (Some u) = get_orders st since till page limit u"
| "endpoint cfg sha c (ReqCancelOrder i) (Some u) = post_cancel i u"
| "endpoint cfg sha c _ None = raise AttributeError"

definition authenticate :: "crypto \<Rightarrow> string option \<Rightarrow> api_request \<Rightarrow> user option op" where
  "authenticate c token req = (case allowed_roles req of None \<Rightarrow> return None
     | Some roles \<Rightarrow> and_then (require_roles roles c token) (\<lambda>u. return (Some u)))"

datatype outcome = Answer json | Invalid

definition run_endpoint ::
  "settings \<Rightarrow> (string \<Rightarrow> string) \<Rightarrow> crypto \<Rightarrow> string option \<Rightarrow> api_request \<Rightarrow> outcome op" where
  "run_endpoint cfg sha c token req = and_then (authenticate c token req) (\<lambda>u.
     if \<not> valid_request req then return Invalid
     else and_then (endpoint cfg sha c req u) (\<lambda>j. return (Answer j)))"

definition respond :: "json \<Rightarrow> api_request \<Rightarrow> exn + outcome \<Rightarrow> http_response" where
  "respond errors req r = (case r of
     Inl e \<Rightarrow> handle_exception e
   | Inr Invalid \<Rightarrow> handle_validation_error errors
   | Inr (Answer j) \<Rightarrow> \<lparr>http_status = success_status req, http_body = j\<rparr>)"

text \<open>One HTTP request: \<open>get_db\<close> opens a session and closes it.\<close>

definition handle_request ::
  "settings \<Rightarrow> (string \<Rightarrow> string) \<Rightarrow> crypto \<Rightarrow> (api_request \<Rightarrow> json) \<Rightarrow> string option \<Rightarrow> api_request
    \<Rightarrow> session \<Rightarrow> http_response \<times> session" where
  "handle_request cfg sha c errors token req s =
     (case with_session (run_endpoint cfg sha c token req) s of
        (r, s') \<Rightarrow> (respond (errors req) req r, s'))"

end
