(* ===== verification/Reservation_Cleanup.thy ===== *)
theory Reservation_Cleanup
  imports Order_Service
begin

text \<open>
  \<open>src/workers/reservation_cleanup.py\<close>. Each pass of the loop is one transaction over a fresh
  session: it claims at most \<open>BATCH_SIZE\<close> expired reservations, returns their stock and expires the
  orders that are still RESERVED. \<open>now\<close> is read once per pass from the time stream \<open>nows\<close>.
\<close>

definition BATCH_SIZE :: nat where
  "BATCH_SIZE = 100"

definition expire_one :: "reservation \<Rightarrow> unit op" where
  "expire_one r =
     and_then (inventory_release (resv_product_id r) (resv_warehouse_id r) (resv_quantity r)) (\<lambda>_.
     and_then (audit_record (resv_product_id r) (resv_warehouse_id r) (resv_quantity r)
        RESERVATION_RELEASED (resv_order_id r)) (\<lambda>_.
     and_then (order_get_by_id_for_update (resv_order_id r)) (\<lambda>found.
     case found of
       None \<Rightarrow> return ()
     | Some order \<Rightarrow> if ord_status order = RESERVED then order_update_status order EXPIRED
                     else return ())))"

text \<open>One pass: \<open>None\<close> when nothing was claimed and the loop ends, else the number released.\<close>

definition expire_pass :: "nat \<Rightarrow> nat option op" where
  "expire_pass limit = with_session (rolling_back
     (and_then now (\<lambda>n.
      and_then (claim_expired_batch n limit) (\<lambda>claimed.
      if claimed = [] then and_then commit (\<lambda>_. return None)
      else
        and_then (for_each expire_one claimed) (\<lambda>_.
        and_then commit (\<lambda>_.
        return (Some (length claimed))))))))"

text \<open>\<open>while True\<close>: \<open>fuel\<close> bounds the passes; \<open>nows\<close> is the clock at each of them.\<close>

fun expire_loop :: "nat \<Rightarrow> nat \<Rightarrow> (nat \<Rightarrow> time) \<Rightarrow> nat \<Rightarrow> nat option op" where
  "expire_loop limit 0 nows total_released = return None"
| "expire_loop limit (Suc fuel) nows total_released = (\<lambda>s.
     and_then (expire_pass limit) (\<lambda>released. case released of
         None \<Rightarrow> return (Some total_released)
       | Some k \<Rightarrow> expire_loop limit fuel (\<lambda>i. nows (Suc i)) (total_released + k))
       (s\<lparr>clock := nows 0\<rparr>))"

definition expire_reservations :: "nat \<Rightarrow> (nat \<Rightarrow> time) \<Rightarrow> nat option op" where
  "expire_reservations fuel nows = expire_loop BATCH_SIZE fuel nows 0"

lemma in_transaction_expire_one [in_transaction_intro]: "in_transaction (expire_one r)"
  unfolding expire_one_def by (intro in_transaction_intro)

subsection \<open>Returning the stock of one claimed reservation\<close>

text \<open>What the pass does to the orders: RESERVED becomes EXPIRED, nothing else changes.\<close>

definition expire_order :: "ident \<Rightarrow> time \<Rightarrow> order_row \<Rightarrow> order_row" where
  "expire_order i n r = (if ord_id r = i \<and> ord_status r = RESERVED
     then r\<lparr>ord_status := EXPIRED, ord_updated_at := n\<rparr> else r)"

lemma expire_order_id [simp]: "ord_id (expire_order i n r) = ord_id r"
  by (simp add: expire_order_def)

text \<open>The same tables as in \<open>stock_frame\<close>, the orders apart.\<close>

definition tables_frame :: "db \<Rightarrow> db \<Rightarrow> bool" where
  "tables_frame d d' \<longleftrightarrow> stock_frame d (d'\<lparr>orders := orders d\<rparr>)"

lemma tables_frame_trans: "tables_frame d d' \<Longrightarrow> tables_frame d' d'' \<Longrightarrow> tables_frame d d''"
  unfolding tables_frame_def stock_frame_def by (elim conjE exE) (auto simp: Ball_def)

lemma expire_one_sound:
  assumes run: "expire_one r s = (Inr u, s')" and sound: "stock_sound (r # pending) (working s)"
    and uniq: "unique_orders (working s)"
  shows "stock_event (resv_key r) (release_spec (resv_quantity r)) 0 RESERVATION_RELEASED
      (resv_quantity r) (resv_order_id r) (working s) ((working s')\<lparr>orders := orders (working s)\<rparr>)"
    and "stock_sound pending (working s')"
    and "orders (working s') = map (expire_order (resv_order_id r) (clock s)) (orders (working s))"
    and "reservations (working s') = reservations (working s)"
    and "clock s' = clock s"
proof -
  let ?p = "resv_product_id r" and ?w = "resv_warehouse_id r" and ?q = "resv_quantity r"
  from run obtain b t a t1 found t2 where mv: "inventory_release ?p ?w ?q s = (Inr b, t)"
    and log: "audit_record ?p ?w ?q RESERVATION_RELEASED (resv_order_id r) t = (Inr a, t1)"
    and got: "order_get_by_id_for_update (resv_order_id r) t1 = (Inr found, t2)"
    and upd: "(case found of None \<Rightarrow> return () | Some order \<Rightarrow>
        if ord_status order = RESERVED then order_update_status order EXPIRED else return ()) t2 = (Inr u, s')"
    unfolding expire_one_def and_then_Inr by blast
  have pos: "0 < ?q" using sound by (simp add: stock_sound_def)
  note u = stock_soundD(4) [OF sound]
  have "?q \<le> reserved_of (working s) (resv_key r)"
  proof -
    have "0 \<le> quantity_of (resv_key r) pending" "0 \<le> held (working s) (resv_key r)"
      using sound by (auto intro!: quantity_of_nonneg held_nonneg simp: stock_sound_def reservations_ok_def)
    then show ?thesis using conservedD [OF stock_soundD(3) [OF sound], of "resv_key r"] by simp
  qed
  with pos have "Option.bind (account (working s) (resv_key r)) (release_spec ?q) \<noteq> None"
    by (auto simp: reserved_of_def split: option.splits)
  with releasing.account_step(2) [OF mv u] mv have moved: "inventory_release ?p ?w ?q s = (Inr True, t)" by simp
  note ev = releasing.event_unchecked [OF moved u log]
  have ck: "clock t1 = clock s"
    using in_transactionD [OF in_transaction_inventory(5) moved] in_transactionD [OF in_transaction_logs(1) log] by simp
  have t2: "t2 = t1" using got order_get_Some(1) [of _ t1 _ t2] order_get_None(1) [of _ t1 t2] by (cases found) auto
  note fr = stock_event_frame [OF ev]
  have same_orders: "orders (working t1) = orders (working s)" using fr(1) by (simp add: stock_frame_def)
  have uniq1: "unique_orders (working t1)" using uniq same_orders by (simp add: unique_orders_def)
  have s': "s' = t1\<lparr>working := (working t1)\<lparr>orders :=
      map (expire_order (resv_order_id r) (clock s)) (orders (working s))\<rparr>\<rparr>"
  proof (cases found)
    case None
    with got order_get_None(1) [of _ t1 t2] same_orders have "\<forall>x\<in>set (orders (working s)). ord_id x \<noteq> resv_order_id r"
      by (force simp: has_order_def)
    then have "map (expire_order (resv_order_id r) (clock s)) (orders (working s)) = orders (working t1)"
      using same_orders by (simp add: expire_order_def map_idI)
    with None upd t2 show ?thesis by simp
  next
    case (Some x)
    with got order_get_Some(1) [of _ t1 x t2] have x: "x \<in> set (orders (working t1))" "ord_id x = resv_order_id r"
      by simp_all
    have only: "y = x" if "y \<in> set (orders (working t1))" "ord_id y = resv_order_id r" for y
      using unique_row [OF uniq1 [unfolded unique_orders_def] that(1) x(1)] that(2) x(2) by simp
    show ?thesis
    proof (cases "ord_status x = RESERVED")
      case True
      with Some upd t2 have "order_update_status x EXPIRED t1 = (Inr u, s')" by simp
      from order_update_status_effect [OF this] ck have
        "s' = t1\<lparr>working := (working t1)\<lparr>orders := update_where (\<lambda>y. ord_id y = ord_id x)
          (\<lambda>y. y\<lparr>ord_status := EXPIRED, ord_processing_attempts := ord_processing_attempts x,
             ord_updated_at := clock s\<rparr>) (orders (working t1))\<rparr>\<rparr>" by simp
      moreover have "update_where (\<lambda>y. ord_id y = ord_id x)
          (\<lambda>y. y\<lparr>ord_status := EXPIRED, ord_processing_attempts := ord_processing_attempts x,
             ord_updated_at := clock s\<rparr>) (orders (working t1)) =
        map (expire_order (resv_order_id r) (clock s)) (orders (working s))"
        unfolding update_where_def same_orders [symmetric]
        using only True x(2) by (intro map_cong refl) (auto simp: expire_order_def)
      ultimately show ?thesis by simp
    next
      case False
      then have "map (expire_order (resv_order_id r) (clock s)) (orders (working s)) = orders (working t1)"
        unfolding same_orders [symmetric]
        using only by (intro map_idI) (auto simp: expire_order_def)
      with False Some upd t2 show ?thesis by simp
    qed
  qed
  have restored: "(working s')\<lparr>orders := orders (working s)\<rparr> = working t1"
    unfolding s' by (simp add: same_orders [symmetric])
  show "stock_event (resv_key r) (release_spec ?q) 0 RESERVATION_RELEASED
      ?q (resv_order_id r) (working s) ((working s')\<lparr>orders := orders (working s)\<rparr>)"
    unfolding restored by (rule ev)
  show "orders (working s') = map (expire_order (resv_order_id r) (clock s)) (orders (working s))"
    "reservations (working s') = reservations (working s)" "clock s' = clock s"
    using fr(2) ck by (simp_all add: s')
  have base: "stock_base (working t1)"
    by (rule releasing_l.event_base [OF ev stock_soundD(1) [OF sound]]) (use pos in \<open>auto split: if_splits\<close>)
  have "conserved pending (working t1)"
    by (rule conserved_event [OF stock_soundD(3) [OF sound] fr(2)])
      (simp add: releasing_l.event_quantities [OF ev] eq_commute)
  then have "stock_sound pending (working t1)"
    using base sound fr(2) by (simp add: stock_sound_def reservations_ok_def)
  then show "stock_sound pending (working s')"
    using stock_sound_cong [of "working s'" "working t1" pending] by (simp add: s')
qed

subsection \<open>A batch\<close>

definition expire_orders :: "ident set \<Rightarrow> time \<Rightarrow> order_row \<Rightarrow> order_row" where
  "expire_orders I n r = (if ord_id r \<in> I \<and> ord_status r = RESERVED
     then r\<lparr>ord_status := EXPIRED, ord_updated_at := n\<rparr> else r)"

lemma expire_orders_simps [simp]:
  "expire_orders {} n = id" "ord_id (expire_orders I n r) = ord_id r"
  "expire_orders I n (expire_order i n r) = expire_orders (insert i I) n r"
  by (auto simp: expire_orders_def expire_order_def)

lemma expire_all_sound:
  assumes "for_each expire_one rs s = (Inr u, s')" and "stock_sound rs (working s)"
    and "unique_orders (working s)"
  shows "stock_sound [] (working s') \<and> tables_frame (working s) (working s') \<and>
    orders (working s') = map (expire_orders (resv_order_id ` set rs) (clock s)) (orders (working s)) \<and>
    reservations (working s') = reservations (working s) \<and>
    (\<forall>k. available_of (working s') k = available_of (working s) k + quantity_of k rs)"
  using assms
proof (induction rs arbitrary: s)
  case Nil
  then show ?case by (simp add: tables_frame_def)
next
  case (Cons r rs)
  from Cons.prems(1) obtain x t where hd: "expire_one r s = (Inr x, t)"
    and tl: "for_each expire_one rs t = (Inr u, s')" by auto
  note one = expire_one_sound [OF hd Cons.prems(2,3)]
  have "unique_orders (working t)"
    using Cons.prems(3) by (simp add: unique_orders_def one(3) comp_def)
  note IH = Cons.IH [OF tl one(2) this]
  have "inventory ((working t)\<lparr>orders := orders (working s)\<rparr>) = inventory (working t)" by simp
  note same = account_of_unchanged [OF this]
  have "available_of (working t) k = available_of (working s) k + quantity_of k [r]" for k
    using releasing_l.event_quantities(1) [OF one(1), of k] same by (simp add: eq_commute)
  moreover have "tables_frame (working s) (working t)"
    using stock_event_frame(1) [OF one(1)] by (simp add: tables_frame_def)
  ultimately show ?case using IH one(3,4,5) by (auto intro: tables_frame_trans)
qed

text \<open>What a pass that claims something commits.\<close>

definition batch_expired :: "nat \<Rightarrow> time \<Rightarrow> reservation list \<Rightarrow> db \<Rightarrow> db \<Rightarrow> bool" where
  "batch_expired limit n batch d d' \<longleftrightarrow> batch \<noteq> [] \<and>
     batch = take limit (filter (\<lambda>r. resv_status r = ACTIVE \<and> resv_expires_at r < n) (reservations d)) \<and>
     reservations d' = update_where (\<lambda>r. resv_id r \<in> resv_id ` set batch) (release_row n) (reservations d) \<and>
     orders d' = map (expire_orders (resv_order_id ` set batch) n) (orders d) \<and>
     (\<forall>k. available_of d' k = available_of d k + quantity_of k batch) \<and>
     tables_frame (d\<lparr>reservations := reservations d'\<rparr>) d'"

lemma filter_ids_take:
  assumes "distinct (map resv_id t)"
  shows "filter (\<lambda>r. resv_id r \<in> resv_id ` set (take n (filter p t))) t = take n (filter p t)"
  using assms
proof (induction t arbitrary: n)
  case (Cons x t)
  show ?case
  proof (cases "p x \<and> n \<noteq> 0")
    case True
    then obtain m where n: "n = Suc m" by (cases n) auto
    have "filter (\<lambda>r. resv_id r \<in> resv_id ` set (take n (filter p (x # t)))) t =
        filter (\<lambda>r. resv_id r \<in> resv_id ` set (take m (filter p t))) t"
    proof (intro filter_cong refl)
      fix y assume "y \<in> set t"
      then have "resv_id y \<noteq> resv_id x"
        using Cons.prems by (metis distinct.simps(2) image_eqI list.simps(9) list.set_map)
      then show "(resv_id y \<in> resv_id ` set (take n (filter p (x # t)))) =
          (resv_id y \<in> resv_id ` set (take m (filter p t)))" using True n by simp
    qed
    with Cons True n show ?thesis by simp
  next
    case False
    have "take n (filter p (x # t)) = take n (filter p t)" using False by auto
    moreover have "resv_id x \<notin> resv_id ` set (take n (filter p t))"
      using Cons.prems by (auto dest!: in_set_takeD)
    ultimately show ?thesis using Cons by simp
  qed
qed simp

lemma expire_claim_sound:
  assumes run: "claim_expired_batch n limit s = (Inr claimed, s')" and sound: "stock_sound [] (working s)"
  defines "batch \<equiv> take limit (filter (\<lambda>r. resv_status r = ACTIVE \<and> resv_expires_at r < n) (reservations (working s)))"
  shows "claimed = map (release_row n) batch" and "stock_sound claimed (working s')"
    and "s' = s\<lparr>working := (working s)\<lparr>reservations :=
      update_where (\<lambda>r. resv_id r \<in> resv_id ` set batch) (release_row n) (reservations (working s))\<rparr>\<rparr>"
proof -
  note dist = stock_soundD(5) [OF sound]
  note c = claim_expired_batch_effect [OF run dist]
  have ids: "set (map resv_id batch) = resv_id ` set batch" by simp
  show s': "s' = s\<lparr>working := (working s)\<lparr>reservations :=
      update_where (\<lambda>r. resv_id r \<in> resv_id ` set batch) (release_row n) (reservations (working s))\<rparr>\<rparr>"
    using c(1) unfolding batch_def by simp
  show claimed: "claimed = map (release_row n) batch"
    using c(2) filter_ids_take [OF dist, of limit] unfolding batch_def by simp
  have pos: "\<forall>r\<in>set claimed. 0 < resv_quantity r"
    using stock_soundD(2) [OF sound] in_set_takeD
    by (fastforce simp: claimed batch_def reservations_ok_def)
  have "inventory (working s') = inventory (working s)" by (simp add: s')
  note acct = account_of_unchanged [OF this]
  have "conserved claimed (working s')"
    unfolding conserved_def
  proof
    fix k
    show "reserved_of (working s') k = held (working s') k + quantity_of k claimed"
      using conservedD [OF stock_soundD(3) [OF sound], of k] c(4) [of k] acct by simp
  qed
  moreover have "reservations_ok (working s')"
    using stock_soundD(2) [OF sound]
    by (simp add: reservations_ok_def s' map_update_where ball_update_where cong: if_cong)
  moreover have "stock_base (working s')"
    using stock_base_cong [of "working s'" "working s"] stock_soundD(1) [OF sound] by (simp add: s')
  ultimately show "stock_sound claimed (working s')" using pos by (simp add: stock_sound_def)
qed

lemma expire_pass_commits:
  assumes run: "expire_pass limit s = (res, s')" and sound: "stock_sound [] (committed s)"
    and uniq: "unique_orders (committed s)"
  shows "clock s' = clock s" and "(committed s' = committed s \<and> ((\<exists>e. res = Inl e) \<or>
        (res = Inr None \<and> take limit (filter (\<lambda>r. resv_status r = ACTIVE \<and> resv_expires_at r < clock s)
           (reservations (committed s))) = []))) \<or>
     (\<exists>batch. res = Inr (Some (length batch)) \<and> stock_sound [] (committed s') \<and>
       batch_expired limit (clock s) batch (committed s) (committed s'))"
proof -
  let ?s = "s\<lparr>working := committed s\<rparr>"
  let ?body = "\<lambda>n. and_then (claim_expired_batch n limit) (\<lambda>claimed.
      if claimed = [] then and_then commit (\<lambda>_. return None)
      else and_then (for_each expire_one claimed) (\<lambda>_. and_then commit (\<lambda>_. return (Some (length claimed)))))"
  have clean: "fails_clean (and_then now ?body)"
    by (intro fails_clean_intro in_transaction_intro)
  from run obtain t where t: "rolling_back (and_then now ?body) ?s = (res, t)"
    and s': "s' = t\<lparr>working := committed t\<rparr>"
    unfolding expire_pass_def with_session_eq by blast
  have "clock t = clock s \<and> ((committed t = committed s \<and> ((\<exists>e. res = Inl e) \<or>
        (res = Inr None \<and> take limit (filter (\<lambda>r. resv_status r = ACTIVE \<and> resv_expires_at r < clock s)
           (reservations (committed s))) = []))) \<or>
     (\<exists>batch. res = Inr (Some (length batch)) \<and> stock_sound [] (committed t) \<and>
       batch_expired limit (clock s) batch (committed s) (committed t)))"
  proof (cases res)
    case (Inl e)
    with rolling_back_clean [OF clean t [unfolded Inl]] show ?thesis by simp
  next
    case (Inr released)
    from t [unfolded Inr] have "?body (clock s) ?s = (Inr released, t)"
      by (simp add: rolling_back_Inr and_then_def now_def)
    then obtain claimed s1 where claim: "claim_expired_batch (clock s) limit ?s = (Inr claimed, s1)"
      and rest: "(if claimed = [] then and_then commit (\<lambda>_. return None)
      else and_then (for_each expire_one claimed) (\<lambda>_. and_then commit (\<lambda>_. return (Some (length claimed))))) s1
        = (Inr released, t)"
      unfolding and_then_Inr by blast
    have sound': "stock_sound [] (working ?s)" using sound by simp
    note c = expire_claim_sound [OF claim sound']
    let ?b = "take limit (filter (\<lambda>r. resv_status r = ACTIVE \<and> resv_expires_at r < clock s) (reservations (committed s)))"
    show ?thesis
    proof (cases "claimed = []")
      case True
      then have empty: "?b = []" using c(1) by simp
      with c(3) have "s1 = ?s" by (simp add: update_where_none)
      with True rest empty Inr show ?thesis by simp
    next
      case False
      with rest obtain u s2 where loop: "for_each expire_one claimed s1 = (Inr u, s2)"
        and t_eq: "t = s2\<lparr>committed := working s2\<rparr>" and rel: "released = Some (length claimed)" by auto
      have uniq1: "unique_orders (working s1)" using uniq c(3) by (simp add: unique_orders_def)
      note e = expire_all_sound [OF loop c(2) uniq1]
      have ck: "clock s1 = clock s" by (simp add: c(3))
      have ck2: "clock s2 = clock s1"
        using in_transactionD [OF in_transaction_for_each [OF in_transaction_expire_one] loop] by simp
      have inv: "inventory (working s1) = inventory (committed s)" by (simp add: c(3))
      have q: "quantity_of k claimed = quantity_of k ?b" for k
        unfolding c(1) quantity_of_def by (simp add: sum_where_map)
      have "batch_expired limit (clock s) ?b (committed s) (working s2)"
        unfolding batch_expired_def
        using e c(1,3) False ck q account_of_unchanged [OF inv] by (simp add: image_image)
      moreover have "length claimed = length ?b" unfolding c(1) by simp
      ultimately show ?thesis using e t_eq rel Inr ck ck2
        by (intro conjI disjI2 exI [of _ ?b]) simp_all
    qed
  qed
  then show "clock s' = clock s" and "(committed s' = committed s \<and> ((\<exists>e. res = Inl e) \<or>
        (res = Inr None \<and> take limit (filter (\<lambda>r. resv_status r = ACTIVE \<and> resv_expires_at r < clock s)
           (reservations (committed s))) = []))) \<or>
     (\<exists>batch. res = Inr (Some (length batch)) \<and> stock_sound [] (committed s') \<and>
       batch_expired limit (clock s) batch (committed s) (committed s'))"
    by (simp_all add: s')
qed

subsection \<open>The loop\<close>

definition active_count :: "db \<Rightarrow> nat" where
  "active_count d = length (filter (\<lambda>r. resv_status r = ACTIVE) (reservations d))"

lemma batch_expiredD:
  assumes "batch_expired limit n batch d d'"
  shows "batch \<noteq> []"
    and "batch = take limit (filter (\<lambda>r. resv_status r = ACTIVE \<and> resv_expires_at r < n) (reservations d))"
    and "reservations d' = update_where (\<lambda>r. resv_id r \<in> resv_id ` set batch) (release_row n) (reservations d)"
    and "orders d' = map (expire_orders (resv_order_id ` set batch) n) (orders d)"
    and "available_of d' k = available_of d k + quantity_of k batch"
    and "tables_frame (d\<lparr>reservations := reservations d'\<rparr>) d'"
  using assms unfolding batch_expired_def by blast+

lemma batch_expired_count:
  assumes b: "batch_expired limit n batch d d'" and dist: "distinct (map resv_id (reservations d))"
  shows "active_count d = active_count d' + length batch" and "batch \<noteq> []"
proof -
  let ?t = "reservations d"
  let ?in = "\<lambda>r. resv_id r \<in> resv_id ` set batch"
  note batch = batch_expiredD(2) [OF b] and resv = batch_expiredD(3) [OF b]
  show "batch \<noteq> []" by (rule batch_expiredD(1) [OF b])
  have ids: "filter ?in ?t = batch"
    using filter_ids_take [OF dist, of limit "\<lambda>r. resv_status r = ACTIVE \<and> resv_expires_at r < n"]
    unfolding batch [symmetric] .
  have act: "resv_status r = ACTIVE" if "r \<in> set ?t" "?in r" for r
  proof -
    have "r \<in> set (filter ?in ?t)" using that by simp
    then show ?thesis using in_set_takeD unfolding ids by (subst (asm) batch) fastforce
  qed
  have "length (filter (\<lambda>r. resv_status r = ACTIVE) t) =
      length (filter (\<lambda>r. resv_status r = ACTIVE) (update_where ?in (release_row n) t)) + length (filter ?in t)"
    if "\<forall>r\<in>set t. ?in r \<longrightarrow> resv_status r = ACTIVE" for t
    using that by (induction t) auto
  from this [of ?t] act show "active_count d = active_count d' + length batch"
    by (simp add: active_count_def resv ids)
qed

lemma expire_loop_outcome:
  assumes "expire_loop limit fuel nows tot s = (res, s')" and "0 < limit"
    and "active_count (committed s) < fuel" and "stock_sound [] (committed s)"
    and "unique_orders (committed s)" and "\<And>i j. i \<le> j \<Longrightarrow> nows i \<le> nows j"
  shows "stock_sound [] (committed s') \<and> unique_orders (committed s') \<and>
    ((\<exists>e. res = Inl e) \<or>
     (\<exists>n. res = Inr (Some (tot + n)) \<and> active_count (committed s) = active_count (committed s') + n \<and>
        (\<forall>r\<in>set (reservations (committed s')). resv_status r = ACTIVE \<longrightarrow> nows 0 \<le> resv_expires_at r)))"
  using assms
proof (induction fuel arbitrary: nows tot s)
  case 0
  then show ?case by simp
next
  case (Suc fuel)
  let ?s = "s\<lparr>clock := nows 0\<rparr>"
  obtain q t where pass: "expire_pass limit ?s = (q, t)" by (cases "expire_pass limit ?s")
  have run: "(case q of Inl e \<Rightarrow> (Inl e, t) | Inr released \<Rightarrow> (case released of
         None \<Rightarrow> return (Some tot) t
       | Some k \<Rightarrow> expire_loop limit fuel (\<lambda>i. nows (Suc i)) (tot + k) t)) = (res, s')"
    using Suc.prems(1) pass by (auto simp: and_then_def split: sum.splits option.splits)
  have pre: "stock_sound [] (committed ?s)" "unique_orders (committed ?s)" using Suc.prems(4,5) by simp_all
  note commits = expire_pass_commits [OF pass pre]
  show ?case
  proof (cases "\<exists>batch. q = Inr (Some (length batch)) \<and> stock_sound [] (committed t) \<and>
       batch_expired limit (clock ?s) batch (committed ?s) (committed t)")
    case False
    with commits(2) have same: "committed t = committed s"
      and q: "(\<exists>e. q = Inl e) \<or> (q = Inr None \<and> take limit
        (filter (\<lambda>r. resv_status r = ACTIVE \<and> resv_expires_at r < nows 0) (reservations (committed s))) = [])"
      by auto
    from q show ?thesis
    proof
      assume "\<exists>e. q = Inl e"
      with run same Suc.prems(4,5) show ?thesis by auto
    next
      assume "q = Inr None \<and> take limit
        (filter (\<lambda>r. resv_status r = ACTIVE \<and> resv_expires_at r < nows 0) (reservations (committed s))) = []"
      with run same Suc.prems(2,4,5) show ?thesis by (auto simp: filter_empty_conv not_less)
    qed
  next
    case True
    then obtain batch where q: "q = Inr (Some (length batch))" and sound: "stock_sound [] (committed t)"
      and b: "batch_expired limit (nows 0) batch (committed s) (committed t)" by auto
    note count = batch_expired_count [OF b stock_soundD(5) [OF Suc.prems(4)]]
    have uniq: "unique_orders (committed t)"
      using Suc.prems(5) by (simp add: batch_expiredD(4) [OF b] unique_orders_def comp_def)
    from run q have rest: "expire_loop limit fuel (\<lambda>i. nows (Suc i)) (tot + length batch) t = (res, s')" by simp
    have "active_count (committed t) < fuel" using Suc.prems(3) count by (cases batch) auto
    from Suc.IH [OF rest Suc.prems(2) this sound uniq] Suc.prems(6)
    have IH: "stock_sound [] (committed s') \<and> unique_orders (committed s') \<and>
      ((\<exists>e. res = Inl e) \<or>
       (\<exists>n. res = Inr (Some (tot + length batch + n)) \<and> active_count (committed t) = active_count (committed s') + n \<and>
        (\<forall>r\<in>set (reservations (committed s')). resv_status r = ACTIVE \<longrightarrow> nows (Suc 0) \<le> resv_expires_at r)))"
      by simp
    moreover have "nows 0 \<le> nows (Suc 0)" by (rule Suc.prems(6)) simp
    ultimately show ?thesis
    proof (elim conjE disjE exE)
      fix n assume "res = Inr (Some (tot + length batch + n))" "active_count (committed t) = active_count (committed s') + n"
        "\<forall>r\<in>set (reservations (committed s')). resv_status r = ACTIVE \<longrightarrow> nows (Suc 0) \<le> resv_expires_at r"
        "stock_sound [] (committed s')" "unique_orders (committed s')" "nows 0 \<le> nows (Suc 0)"
      then show ?thesis using count
        by (intro conjI disjI2 exI [of _ "length batch + n"]) (auto intro: order_trans)
    qed auto
  qed
qed

end
