(* ===== verification/Outbox_Relay.thy ===== *)
theory Outbox_Relay
  imports Inventory_Service
begin

text \<open>
  \<open>src/workers/outbox_relay.py\<close> and \<open>src/workers/low_stock_notifier.py\<close>. The Celery queue is the
  list of messages handed to \<open>.delay\<close>; a message once enqueued stays, whatever becomes of the
  relay's transaction. \<open>broker\<close> is Celery: given what is enqueued and a new message, it accepts it
  (\<open>None\<close>) or raises.
\<close>

datatype task_message =
  ProcessOrder json          \<comment> \<open>\<open>process_order_task.delay(payload["order_id"])\<close>\<close>
| NotifyLowStock json        \<comment> \<open>\<open>notify_low_stock_task.delay(payload)\<close>\<close>

type_synonym broker = "task_message list \<Rightarrow> task_message \<Rightarrow> exn option"

definition RELAY_BATCH_SIZE :: nat where
  "RELAY_BATCH_SIZE = 50"

text \<open>\<open>payload[key]\<close>\<close>

definition json_item :: "string \<Rightarrow> json \<Rightarrow> exn + json" where
  "json_item key payload = (case payload of
     JObj kvs \<Rightarrow> (case map_of kvs key of None \<Rightarrow> Inl KeyError | Some v \<Rightarrow> Inr v)
   | _ \<Rightarrow> Inl KeyError)"

text \<open>The dispatch table \<open>_HANDLERS\<close>.\<close>

definition handlers :: "string \<rightharpoonup> (json \<Rightarrow> exn + task_message)" where
  "handlers event_type =
     (if event_type = ''ORDER_RESERVED'' then
        Some (\<lambda>payload. case json_item ''order_id'' payload of
          Inl e \<Rightarrow> Inl e | Inr i \<Rightarrow> Inr (ProcessOrder i))
      else if event_type = ''LOW_STOCK_ALERT_CREATED'' then Some (\<lambda>payload. Inr (NotifyLowStock payload))
      else None)"

fun relay_events :: "broker \<Rightarrow> outbox_event list \<Rightarrow> task_message list \<Rightarrow> session
    \<Rightarrow> (exn + unit) \<times> task_message list \<times> session" where
  "relay_events broker [] queue s = (Inr (), queue, s)"
| "relay_events broker (event # events) queue s =
     (case handlers (evt_event_type event) of
        None \<Rightarrow> relay_events broker events queue s
      | Some handler \<Rightarrow>
          (case handler (evt_payload event) of
             Inl e \<Rightarrow> (Inl e, queue, s)
           | Inr message \<Rightarrow>
               (case broker queue message of
                  Some e \<Rightarrow> (Inl e, queue, s)
                | None \<Rightarrow>
                    (case mark_published (evt_id event) s of
                       (Inl e, s') \<Rightarrow> (Inl e, queue @ [message], s')
                     | (Inr _, s') \<Rightarrow> relay_events broker events (queue @ [message]) s'))))"

definition relay_once :: "broker \<Rightarrow> task_message list \<Rightarrow> session
    \<Rightarrow> (exn + nat) \<times> task_message list \<times> session" where
  "relay_once broker queue s =
     (case claim_pending_batch RELAY_BATCH_SIZE (s\<lparr>working := committed s\<rparr>) of
        (Inl e, s') \<Rightarrow> (Inl e, queue, s'\<lparr>working := committed s'\<rparr>)
      | (Inr events, s') \<Rightarrow>
          (case relay_events broker events queue s' of
             (Inl e, queue', t) \<Rightarrow> (Inl e, queue', t\<lparr>working := committed t\<rparr>)
           | (Inr _, queue', t) \<Rightarrow> (Inr (length events), queue', t\<lparr>committed := working t\<rparr>)))"

text \<open>\<open>run_forever\<close> up to \<open>n\<close> polls: a failed poll is logged and the next one tries again.\<close>

fun relay_polls :: "nat \<Rightarrow> broker \<Rightarrow> task_message list \<Rightarrow> session \<Rightarrow> task_message list \<times> session" where
  "relay_polls 0 broker queue s = (queue, s)"
| "relay_polls (Suc n) broker queue s =
     (case relay_once broker queue s of (_, queue', s') \<Rightarrow> relay_polls n broker queue' s')"

subsection \<open>The notifier\<close>

text \<open>The fields of the log record, or the \<open>KeyError\<close> of a missing one.\<close>

fun json_items :: "string list \<Rightarrow> json \<Rightarrow> exn + (string \<times> json) list" where
  "json_items [] payload = Inr []"
| "json_items (k # ks) payload = (case json_item k payload of
     Inl e \<Rightarrow> Inl e
   | Inr v \<Rightarrow> (case json_items ks payload of Inl e \<Rightarrow> Inl e | Inr vs \<Rightarrow> Inr ((k, v) # vs)))"

definition notify_low_stock_task :: "json \<Rightarrow> exn + (string \<times> json) list" where
  "notify_low_stock_task payload = json_items
     [''alert_id'', ''product_id'', ''warehouse_id'', ''quantity_at_alert'', ''threshold''] payload"

lemma notify_payload:
  "notify_low_stock_task (low_stock_payload a) = Inr [(''alert_id'', JStr (lsa_id a)),
     (''product_id'', JStr (lsa_product_id a)), (''warehouse_id'', JStr (lsa_warehouse_id a)),
     (''quantity_at_alert'', JInt (lsa_quantity_at_alert a)), (''threshold'', JInt (lsa_threshold a))]"
  by (simp add: notify_low_stock_task_def low_stock_payload_def json_item_def)

subsection \<open>Messages of events\<close>

definition message_of :: "outbox_event \<Rightarrow> task_message option" where
  "message_of e = (case handlers (evt_event_type e) of None \<Rightarrow> None
     | Some h \<Rightarrow> (case h (evt_payload e) of Inl _ \<Rightarrow> None | Inr m \<Rightarrow> Some m))"

definition publish_row :: "time \<Rightarrow> outbox_event \<Rightarrow> outbox_event" where
  "publish_row n e = e\<lparr>evt_status := OUTBOX_PUBLISHED, evt_published_at := Some n\<rparr>"

lemma publish_row_fields [simp]:
  "evt_id (publish_row n e) = evt_id e" "evt_event_type (publish_row n e) = evt_event_type e"
  "evt_payload (publish_row n e) = evt_payload e" "evt_aggregate_id (publish_row n e) = evt_aggregate_id e"
  "evt_aggregate_type (publish_row n e) = evt_aggregate_type e"
  "evt_status (publish_row n e) = OUTBOX_PUBLISHED" "message_of (publish_row n e) = message_of e"
  by (simp_all add: publish_row_def message_of_def cong: option.case_cong)

lemma mark_published_effect:
  "mark_published i s = (Inr u, s') \<longleftrightarrow> s' = s\<lparr>working := (working s)\<lparr>outbox_events :=
     update_where (\<lambda>e. evt_id e = i) (publish_row (clock s)) (outbox_events (working s))\<rparr>\<rparr>"
  by (auto simp: mark_published_def exec_update_Inr publish_row_def [abs_def])

lemma mark_published_ok: "mark_published i s = (Inr (), s\<lparr>working := (working s)\<lparr>outbox_events :=
     update_where (\<lambda>e. evt_id e = i) (publish_row (clock s)) (outbox_events (working s))\<rparr>\<rparr>)"
  by (simp add: mark_published_effect)

text \<open>Publishing every event of a list that has a handler.\<close>

definition publish_all :: "ident set \<Rightarrow> time \<Rightarrow> outbox_event list \<Rightarrow> outbox_event list" where
  "publish_all I n = update_where (\<lambda>e. evt_id e \<in> I) (publish_row n)"

lemma publish_all_ids [simp]: "map evt_id (publish_all I n t) = map evt_id t"
  by (simp add: publish_all_def map_update_where)

lemma publish_all_step:
  "publish_all I n (update_where (\<lambda>e. evt_id e = i) (publish_row n) t) = publish_all (insert i I) n t"
  unfolding publish_all_def by (induction t) (auto simp: publish_row_def)

lemma publish_all_empty [simp]: "publish_all {} n t = t"
  by (simp add: publish_all_def update_where_none)

definition handled :: "outbox_event list \<Rightarrow> outbox_event list" where
  "handled es = filter (\<lambda>e. handlers (evt_event_type e) \<noteq> None) es"

text \<open>A run that returns has enqueued the message of every handled event, in order.\<close>

lemma relay_events_Inr:
  "relay_events broker es queue s = (Inr u, queue', s') \<Longrightarrow>
     (\<forall>e\<in>set (handled es). message_of e \<noteq> None) \<and> queue' = queue @ map (the \<circ> message_of) (handled es) \<and>
     s' = s\<lparr>working := (working s)\<lparr>outbox_events :=
       publish_all (evt_id ` set (handled es)) (clock s) (outbox_events (working s))\<rparr>\<rparr>"
proof (induction es arbitrary: queue s)
  case (Cons e es)
  show ?case
  proof (cases "handlers (evt_event_type e)")
    case None
    with Cons show ?thesis by (simp add: handled_def)
  next
    case (Some h)
    with Cons.prems obtain m where m: "h (evt_payload e) = Inr m"
      and rest: "relay_events broker es (queue @ [m]) (s\<lparr>working := (working s)\<lparr>outbox_events :=
        update_where (\<lambda>x. evt_id x = evt_id e) (publish_row (clock s)) (outbox_events (working s))\<rparr>\<rparr>)
        = (Inr u, queue', s')"
      by (auto simp: mark_published_ok split: sum.splits option.splits)
    from Cons.IH [OF rest] Some m show ?thesis
      by (simp add: handled_def message_of_def publish_all_step)
  qed
qed (simp add: handled_def)

text \<open>A run that raises keeps the messages it had enqueued; they are messages of the batch.\<close>

lemma relay_events_queue:
  "relay_events broker es queue s = (res, queue', s') \<Longrightarrow>
     committed s' = committed s \<and> clock s' = clock s \<and>
     (\<exists>sent. queue' = queue @ sent \<and> (\<forall>m\<in>set sent. \<exists>e\<in>set es. message_of e = Some m))"
proof (induction es arbitrary: queue s)
  case (Cons e es)
  show ?case
  proof (cases "handlers (evt_event_type e)")
    case None
    with Cons show ?thesis by fastforce
  next
    case (Some h)
    show ?thesis
    proof (cases "h (evt_payload e)")
      case (Inl x)
      with Some Cons.prems show ?thesis by simp
    next
      case (Inr m)
      then have msg: "message_of e = Some m" using Some by (simp add: message_of_def)
      show ?thesis
      proof (cases "broker queue m")
        case (Some x)
        with \<open>handlers (evt_event_type e) = Some h\<close> Inr Cons.prems show ?thesis by simp
      next
        case None
        with Some Inr Cons.prems have "relay_events broker es (queue @ [m])
          (s\<lparr>working := (working s)\<lparr>outbox_events :=
            update_where (\<lambda>x. evt_id x = evt_id e) (publish_row (clock s)) (outbox_events (working s))\<rparr>\<rparr>)
          = (res, queue', s')" by (simp add: mark_published_ok)
        from Cons.IH [OF this] msg show ?thesis by fastforce
      qed
    qed
  qed
qed simp

lemma relay_once_Inr:
  assumes "relay_once broker queue s = (Inr n, queue', s')"
  defines "batch \<equiv> take RELAY_BATCH_SIZE (sort_key evt_created_at
     (filter (\<lambda>e. evt_status e = OUTBOX_PENDING) (outbox_events (committed s))))"
  shows "n = length batch" and "queue' = queue @ map (the \<circ> message_of) (handled batch)"
    and "\<forall>e\<in>set (handled batch). message_of e \<noteq> None"
    and "committed s' = (committed s)\<lparr>outbox_events :=
      publish_all (evt_id ` set (handled batch)) (clock s) (outbox_events (committed s))\<rparr>"
    and "working s' = committed s'"
proof -
  have claim: "claim_pending_batch RELAY_BATCH_SIZE (s\<lparr>working := committed s\<rparr>) =
      (Inr batch, s\<lparr>working := committed s\<rparr>)"
    by (simp add: claim_pending_batch_def batch_def)
  from assms(1) obtain u t where run: "relay_events broker batch queue (s\<lparr>working := committed s\<rparr>) = (Inr u, queue', t)"
    and n: "n = length batch" and s': "s' = t\<lparr>committed := working t\<rparr>"
    by (auto simp: relay_once_def claim split: prod.splits sum.splits)
  show "n = length batch" by (rule n)
  from relay_events_Inr [OF run] s'
  show "queue' = queue @ map (the \<circ> message_of) (handled batch)"
    and "\<forall>e\<in>set (handled batch). message_of e \<noteq> None"
    and "committed s' = (committed s)\<lparr>outbox_events :=
      publish_all (evt_id ` set (handled batch)) (clock s) (outbox_events (committed s))\<rparr>"
    and "working s' = committed s'" by simp_all
qed

lemma relay_once_Inl:
  assumes "relay_once broker queue s = (Inl e, queue', s')"
  shows "committed s' = committed s" and "working s' = committed s"
    and "\<exists>sent. queue' = queue @ sent \<and> (\<forall>m\<in>set sent. \<exists>x\<in>set (outbox_events (committed s)).
      evt_status x = OUTBOX_PENDING \<and> message_of x = Some m)"
proof -
  let ?batch = "take RELAY_BATCH_SIZE (sort_key evt_created_at
     (filter (\<lambda>e. evt_status e = OUTBOX_PENDING) (outbox_events (committed s))))"
  have claim: "claim_pending_batch RELAY_BATCH_SIZE (s\<lparr>working := committed s\<rparr>) =
      (Inr ?batch, s\<lparr>working := committed s\<rparr>)"
    by (simp add: claim_pending_batch_def)
  from assms obtain t where run: "relay_events broker ?batch queue (s\<lparr>working := committed s\<rparr>) = (Inl e, queue', t)"
    and s': "s' = t\<lparr>working := committed t\<rparr>"
    by (auto simp: relay_once_def claim split: prod.splits sum.splits)
  note rq = relay_events_queue [OF run]
  show "committed s' = committed s" "working s' = committed s" using rq s' by simp_all
  have "set ?batch \<subseteq> {x \<in> set (outbox_events (committed s)). evt_status x = OUTBOX_PENDING}"
    by (rule subset_trans [OF set_take_subset]) auto
  with rq show "\<exists>sent. queue' = queue @ sent \<and> (\<forall>m\<in>set sent. \<exists>x\<in>set (outbox_events (committed s)).
      evt_status x = OUTBOX_PENDING \<and> message_of x = Some m)" by blast
qed

subsection \<open>No published event was lost\<close>

text \<open>Every event marked PUBLISHED has had its message enqueued.\<close>

definition published_enqueued :: "db \<Rightarrow> task_message list \<Rightarrow> bool" where
  "published_enqueued d queue \<longleftrightarrow> (\<forall>e\<in>set (outbox_events d). evt_status e = OUTBOX_PUBLISHED \<longrightarrow>
     (\<exists>m. message_of e = Some m \<and> m \<in> set queue))"

lemma relay_once_published:
  assumes run: "relay_once broker queue s = (res, queue', s')"
    and inv: "published_enqueued (committed s) queue"
    and dist: "distinct (map evt_id (outbox_events (committed s)))"
  shows "published_enqueued (committed s') queue'"
proof (cases res)
  case (Inl e)
  with run relay_once_Inl [of broker queue s e queue' s'] inv show ?thesis
    by (fastforce simp: published_enqueued_def)
next
  case (Inr n)
  let ?batch = "take RELAY_BATCH_SIZE (sort_key evt_created_at
     (filter (\<lambda>e. evt_status e = OUTBOX_PENDING) (outbox_events (committed s))))"
  note done' = relay_once_Inr [OF run [unfolded Inr]]
  have sub: "set ?batch \<subseteq> set (outbox_events (committed s))"
    by (rule subset_trans [OF set_take_subset]) auto
  show ?thesis
    unfolding published_enqueued_def
  proof (intro ballI impI)
    fix e assume e: "e \<in> set (outbox_events (committed s'))" "evt_status e = OUTBOX_PUBLISHED"
    then obtain x where x: "x \<in> set (outbox_events (committed s))"
      and ex: "e = (if evt_id x \<in> evt_id ` set (handled ?batch) then publish_row (clock s) x else x)"
      by (auto simp: done'(4) publish_all_def update_where_def)
    show "\<exists>m. message_of e = Some m \<and> m \<in> set queue'"
    proof (cases "evt_id x \<in> evt_id ` set (handled ?batch)")
      case True
      then obtain y where y: "y \<in> set (handled ?batch)" "evt_id y = evt_id x" by auto
      then have "y \<in> set (outbox_events (committed s))" using sub by (auto simp: handled_def)
      then have "y = x" using unique_row [OF dist _ x y(2)] by simp
      with y done'(3) obtain m where "message_of x = Some m" "m = the (message_of y)" by auto
      moreover have "the (message_of y) \<in> set queue'"
        unfolding done'(2) set_append set_map comp_def using y(1) by blast
      ultimately show ?thesis using True ex by auto
    next
      case False
      with ex e x inv show ?thesis by (auto simp: published_enqueued_def done'(2))
    qed
  qed
qed

end
