(* ===== verification/Transitions.thy ===== *)
theory Transitions
  imports Api Reservation_Cleanup Outbox_Relay
begin

text \<open>
  The database as an abstract transition system. \<open>db_change\<close> lists every change a transaction of the
  program may commit; \<open>db_ok\<close> is the invariant of the database, and every change keeps it. The
  refinement lemmas show that whatever a request or a worker transaction answers, what it commits
  is one \<open>db_change\<close>.
\<close>

text \<open>\<open>Finishes i\<close>: the worker ends its processing of order \<open>i\<close>. \<open>Publishes\<close>: the relay marks events.\<close>

datatype change_label = Quiet | Finishes ident | Publishes

inductive db_change :: "settings \<Rightarrow> (string \<Rightarrow> string) \<Rightarrow> time \<Rightarrow> change_label \<Rightarrow> db \<Rightarrow> db \<Rightarrow> bool"
  for cfg :: settings and sha :: "string \<Rightarrow> string" and n :: time where
  unchanged: "db_change cfg sha n Quiet d d"
| user_added: "check_user d u = None \<Longrightarrow> db_change cfg sha n Quiet d (d\<lparr>users := users d @ [u]\<rparr>)"
| product_added: "check_product d p = None \<Longrightarrow> db_change cfg sha n Quiet d (d\<lparr>products := products d @ [p]\<rparr>)"
| warehouse_added: "check_warehouse d w = None \<Longrightarrow>
    db_change cfg sha n Quiet d (d\<lparr>warehouses := warehouses d @ [w]\<rparr>)"
| stock_adjusted: "adjusted a d d' \<Longrightarrow> db_change cfg sha n Quiet d d'"
| threshold_changed: "threshold_set k t d d' \<Longrightarrow> db_change cfg sha n Quiet d d'"
| order_created: "valid_order_request p \<Longrightarrow> key_claimed sha p key claim d d1 \<Longrightarrow>
    order_placed cfg p u key claim found n d1 d' body \<Longrightarrow> stock_sound [] d' \<Longrightarrow> db_change cfg sha n Quiet d d'"
| order_cancelled: "r \<in> set (orders d) \<Longrightarrow> ord_status r \<in> CANCELLABLE_ORDER_STATUSES \<Longrightarrow>
    order_closed release_row (\<lambda>q. q) r CANCELLED n d d' \<Longrightarrow> stock_sound [] d' \<Longrightarrow> db_change cfg sha n Quiet d d'"
| order_begun: "r \<in> set (orders d) \<Longrightarrow> ord_status r = RESERVED \<Longrightarrow>
    db_change cfg sha n Quiet d (d\<lparr>orders := update_where (\<lambda>x. ord_id x = ord_id r) (begun n) (orders d)\<rparr>)"
| order_finished: "r \<in> set (orders d) \<Longrightarrow> ord_status r = PROCESSING \<Longrightarrow> attempt = ord_processing_attempts r \<Longrightarrow>
    finish_outcome cfg r attempt outcome n d d' \<Longrightarrow> stock_sound [] d' \<Longrightarrow>
    db_change cfg sha n (Finishes (ord_id r)) d d'"
| reservations_expired: "batch_expired limit n batch d d' \<Longrightarrow> stock_sound [] d' \<Longrightarrow> db_change cfg sha n Quiet d d'"
| events_published: "\<forall>e\<in>set (outbox_events d). evt_id e \<in> I \<longrightarrow> evt_status e = OUTBOX_PENDING \<Longrightarrow>
    db_change cfg sha n Publishes d (d\<lparr>outbox_events := publish_all I n (outbox_events d)\<rparr>)"

inductive_cases quietE: "db_change cfg sha n Quiet d d'"
inductive_cases finishesE: "db_change cfg sha n (Finishes i) d d'"

subsection \<open>The invariant\<close>

definition max_attempts :: "settings \<Rightarrow> int" where
  "max_attempts cfg = max 1 (payment_max_attempts cfg)"

text \<open>
  No order is ever PENDING; an order waiting for the worker has attempts left; active reservations
  belong to orders that are RESERVED or PROCESSING, or EXPIRED by an earlier batch.
\<close>

definition order_ok :: "settings \<Rightarrow> order_row \<Rightarrow> bool" where
  "order_ok cfg r \<longleftrightarrow> ord_status r \<noteq> PENDING \<and> 0 \<le> ord_processing_attempts r \<and>
     ord_processing_attempts r \<le> max_attempts cfg \<and>
     (ord_status r = RESERVED \<longrightarrow> ord_processing_attempts r < max_attempts cfg)"

definition reservation_ok :: "db \<Rightarrow> reservation \<Rightarrow> bool" where
  "reservation_ok d x \<longleftrightarrow> (\<exists>r\<in>set (orders d). ord_id r = resv_order_id x \<and>
     (resv_status x = ACTIVE \<longrightarrow> ord_status r \<in> {RESERVED, PROCESSING, EXPIRED}))"

definition orders_ok :: "settings \<Rightarrow> db \<Rightarrow> bool" where
  "orders_ok cfg d \<longleftrightarrow> unique_orders d \<and> (\<forall>r\<in>set (orders d). order_ok cfg r) \<and>
     (\<forall>x\<in>set (reservations d). reservation_ok d x)"

text \<open>Every committed key is completed and names the one order that carries it.\<close>

definition idem_ok :: "db \<Rightarrow> bool" where
  "idem_ok d \<longleftrightarrow> unique_keys d \<and> (\<forall>e\<in>set (idempotency_keys d).
     idem_status e = IDEM_COMPLETED \<and> idem_response_body e \<noteq> None \<and>
     (\<exists>r\<in>set (orders d). idem_order_id e = Some (ord_id r) \<and> ord_idempotency_key r = Some (idem_key e)))"

definition is_order_event :: "outbox_event \<Rightarrow> bool" where
  "is_order_event e \<longleftrightarrow> evt_event_type e = ''ORDER_RESERVED''"

text \<open>One ORDER_RESERVED event per order, in the order of the orders, and no event without handler.\<close>

definition events_ok :: "db \<Rightarrow> bool" where
  "events_ok d \<longleftrightarrow> distinct (map evt_id (outbox_events d)) \<and>
     map evt_aggregate_id (filter is_order_event (outbox_events d)) = map ord_id (orders d) \<and>
     (\<forall>e\<in>set (outbox_events d).
        (is_order_event e \<and> evt_payload e = JObj [(''order_id'', JStr (evt_aggregate_id e))]) \<or>
        is_alert_event e)"

definition db_ok :: "settings \<Rightarrow> db \<Rightarrow> bool" where
  "db_ok cfg d \<longleftrightarrow> stock_sound [] d \<and> orders_ok cfg d \<and> idem_ok d \<and> events_ok d"

lemma db_okD:
  "db_ok cfg d \<Longrightarrow> stock_sound [] d" "db_ok cfg d \<Longrightarrow> orders_ok cfg d"
  "db_ok cfg d \<Longrightarrow> idem_ok d" "db_ok cfg d \<Longrightarrow> events_ok d" "db_ok cfg d \<Longrightarrow> unique_orders d"
  by (simp_all add: db_ok_def orders_ok_def)

lemma empty_db_ok: "db_ok cfg empty_db"
  by (simp add: db_ok_def stock_sound_def stock_base_def reservations_ok_def conserved_def
      unique_pairs_def ledger_balanced_def alerts_announced_def available_of_def reserved_of_def
      account_def ledger_def held_def quantity_of_def orders_ok_def unique_orders_def idem_ok_def
      unique_keys_def events_ok_def empty_db_def)

subsection \<open>Keeping the parts of the invariant\<close>

text \<open>The outbox grew by alert events only.\<close>

definition alerts_appended :: "db \<Rightarrow> db \<Rightarrow> bool" where
  "alerts_appended d d' \<longleftrightarrow> (\<exists>es. outbox_events d' = outbox_events d @ es \<and> (\<forall>e\<in>set es. is_alert_event e)) \<and>
     (distinct (map evt_id (outbox_events d)) \<longrightarrow> distinct (map evt_id (outbox_events d')))"

lemma stock_frame_alerts: "stock_frame d d' \<Longrightarrow> alerts_appended d d'"
  unfolding stock_frame_def alerts_appended_def by blast

lemma not_both_events: "is_alert_event e \<Longrightarrow> \<not> is_order_event e"
  by (simp add: is_alert_event_def is_order_event_def)

lemma events_ok_appended:
  assumes "events_ok d" and "alerts_appended d d'" and "map ord_id (orders d') = map ord_id (orders d)"
  shows "events_ok d'"
proof -
  from assms(2) obtain es where es: "outbox_events d' = outbox_events d @ es" "\<forall>e\<in>set es. is_alert_event e"
    by (auto simp: alerts_appended_def)
  have "filter is_order_event es = []" using es(2) not_both_events by (auto simp: filter_empty_conv)
  then show ?thesis using assms es by (auto simp: events_ok_def alerts_appended_def)
qed

text \<open>An order row that changes keeps what identifies it.\<close>

definition same_order :: "order_row \<Rightarrow> order_row \<Rightarrow> bool" where
  "same_order r r' \<longleftrightarrow> ord_id r' = ord_id r \<and> ord_total r' = ord_total r \<and>
     ord_created_by_user_id r' = ord_created_by_user_id r \<and> ord_payment_token r' = ord_payment_token r \<and>
     ord_idempotency_key r' = ord_idempotency_key r \<and> ord_created_at r' = ord_created_at r"

lemma idem_ok_orders:
  assumes "idem_ok d" and "idempotency_keys d' = idempotency_keys d"
    and "orders d' = map h (orders d)" and "\<forall>r\<in>set (orders d). same_order r (h r)"
  shows "idem_ok d'"
  using assms by (auto simp: idem_ok_def unique_keys_def same_order_def)

lemma map_same_order_ids:
  "\<forall>r\<in>set rs. same_order r (h r) \<Longrightarrow> map ord_id (map h rs) = map ord_id rs"
  by (simp add: same_order_def)

text \<open>A change of orders and reservations, row by row.\<close>

lemma db_ok_rows:
  assumes ok: "db_ok cfg d" and sound: "stock_sound [] d'" and out: "alerts_appended d d'"
    and keys: "idempotency_keys d' = idempotency_keys d"
    and ord: "orders d' = map h (orders d)" and same: "\<forall>r\<in>set (orders d). same_order r (h r)"
    and good: "\<forall>r\<in>set (orders d). order_ok cfg r \<longrightarrow> order_ok cfg (h r)"
    and resv: "reservations d' = map g (reservations d)"
    and live: "\<forall>x\<in>set (reservations d). resv_order_id (g x) = resv_order_id x \<and>
      (\<forall>r\<in>set (orders d). ord_id r = resv_order_id x \<and> resv_status (g x) = ACTIVE \<longrightarrow>
         resv_status x = ACTIVE \<and> (ord_status r \<in> {RESERVED, PROCESSING, EXPIRED} \<longrightarrow>
         ord_status (h r) \<in> {RESERVED, PROCESSING, EXPIRED}))"
  shows "db_ok cfg d'"
proof -
  have ids: "map ord_id (orders d') = map ord_id (orders d)"
    unfolding ord by (rule map_same_order_ids [OF same])
  have "reservation_ok d' (g x)" if x: "x \<in> set (reservations d)" for x
  proof -
    from db_okD(2) [OF ok] x obtain r where r: "r \<in> set (orders d)" "ord_id r = resv_order_id x"
      "resv_status x = ACTIVE \<longrightarrow> ord_status r \<in> {RESERVED, PROCESSING, EXPIRED}"
      by (auto simp: orders_ok_def reservation_ok_def)
    have "h r \<in> set (orders d')" "ord_id (h r) = resv_order_id (g x)"
      using r same live x by (auto simp: ord same_order_def)
    moreover have "resv_status (g x) = ACTIVE \<longrightarrow> ord_status (h r) \<in> {RESERVED, PROCESSING, EXPIRED}"
      using live x r by blast
    ultimately show ?thesis unfolding reservation_ok_def by blast
  qed
  moreover have "unique_orders d'" using db_okD(5) [OF ok] by (simp only: unique_orders_def ids)
  ultimately have "orders_ok cfg d'"
    using db_okD(2) [OF ok] good by (auto simp: orders_ok_def ord resv)
  then show ?thesis
    using sound idem_ok_orders [OF db_okD(3) [OF ok] keys ord same]
      events_ok_appended [OF db_okD(4) [OF ok] out ids] by (simp add: db_ok_def)
qed

lemma db_ok_other_tables:
  assumes "db_ok cfg d" and "stock_sound [] d'" and "alerts_appended d d'"
    and "idempotency_keys d' = idempotency_keys d" and "orders d' = orders d"
    and "reservations d' = reservations d"
  shows "db_ok cfg d'"
  by (rule db_ok_rows [where h = id and g = id, OF assms(1-4)])
    (use assms in \<open>simp_all add: same_order_def\<close>)

subsection \<open>Every change keeps the invariant\<close>

lemma order_closed_ok:
  assumes ok: "db_ok cfg d" and r: "r \<in> set (orders d)" and st: "st \<noteq> PENDING" "st \<noteq> RESERVED"
    and f: "settled_as (f n)"
    and closed: "order_closed f credit r st n d d'" and sound: "stock_sound [] d'"
  shows "db_ok cfg d'"
proof -
  let ?h = "\<lambda>x. if ord_id x = ord_id r then x\<lparr>ord_status := st,
    ord_processing_attempts := ord_processing_attempts r, ord_updated_at := n\<rparr> else x"
  let ?g = "\<lambda>x. if resv_order_id x = ord_id r \<and> resv_status x = ACTIVE then f n x else x"
  from closed obtain d1 where fr: "stock_frame d d1" and resv: "reservations d1 = map ?g (reservations d)"
    and d': "d' = d1\<lparr>orders := map ?h (orders d1)\<rparr>"
    unfolding order_closed_def update_where_def by blast
  show ?thesis
  proof (rule db_ok_rows [OF ok sound, where h = ?h and g = ?g])
    show "alerts_appended d d'" using stock_frame_alerts [OF fr] by (simp add: d' alerts_appended_def)
    show "idempotency_keys d' = idempotency_keys d" "orders d' = map ?h (orders d)"
      "reservations d' = map ?g (reservations d)"
      using fr resv by (simp_all add: d' stock_frame_def)
    show "\<forall>x\<in>set (orders d). same_order x (?h x)" by (simp add: same_order_def)
    show "\<forall>x\<in>set (orders d). order_ok cfg x \<longrightarrow> order_ok cfg (?h x)"
      using db_okD(2) [OF ok] r st by (auto simp: orders_ok_def order_ok_def)
    show "\<forall>x\<in>set (reservations d). resv_order_id (?g x) = resv_order_id x \<and>
      (\<forall>y\<in>set (orders d). ord_id y = resv_order_id x \<and> resv_status (?g x) = ACTIVE \<longrightarrow>
         resv_status x = ACTIVE \<and> (ord_status y \<in> {RESERVED, PROCESSING, EXPIRED} \<longrightarrow>
         ord_status (?h y) \<in> {RESERVED, PROCESSING, EXPIRED}))"
      using f by (auto simp: settled_as_def)
  qed
qed

lemma order_row_updated_ok:
  assumes ok: "db_ok cfg d" and r: "r \<in> set (orders d)"
    and st: "st = PROCESSING \<or> (st = RESERVED \<and> k < max_attempts cfg)" "0 \<le> k" "k \<le> max_attempts cfg"
    and h: "h = (\<lambda>x. if ord_id x = ord_id r then x\<lparr>ord_status := st, ord_processing_attempts := k, ord_updated_at := n\<rparr> else x)"
  shows "db_ok cfg (d\<lparr>orders := map h (orders d)\<rparr>)"
proof (rule db_ok_rows [OF ok, where h = h and g = id])
  show "stock_sound [] (d\<lparr>orders := map h (orders d)\<rparr>)"
    using db_okD(1) [OF ok] by (simp add: stock_sound_orders)
qed (use st in \<open>auto simp: h alerts_appended_def same_order_def order_ok_def\<close>)

lemma begun_ok:
  assumes ok: "db_ok cfg d" and r: "r \<in> set (orders d)" "ord_status r = RESERVED"
  shows "db_ok cfg (d\<lparr>orders := update_where (\<lambda>x. ord_id x = ord_id r) (begun n) (orders d)\<rparr>)"
proof -
  let ?h = "\<lambda>x. if ord_id x = ord_id r then x\<lparr>ord_status := PROCESSING,
    ord_processing_attempts := ord_processing_attempts r + 1, ord_updated_at := n\<rparr> else x"
  have "x = r" if "x \<in> set (orders d)" "ord_id x = ord_id r" for x
    using unique_row [OF db_okD(5) [OF ok, unfolded unique_orders_def] that(1) r(1) that(2)] .
  then have "update_where (\<lambda>x. ord_id x = ord_id r) (begun n) (orders d) = map ?h (orders d)"
    by (auto simp: update_where_def begun_def)
  moreover have "0 \<le> ord_processing_attempts r" "ord_processing_attempts r < max_attempts cfg"
    using db_okD(2) [OF ok] r by (auto simp: orders_ok_def order_ok_def)
  ultimately show ?thesis using order_row_updated_ok [OF ok r(1), of PROCESSING "ord_processing_attempts r + 1" ?h n] by simp
qed

lemma put_back_ok:
  assumes ok: "db_ok cfg d" and r: "r \<in> set (orders d)"
    and lt: "ord_processing_attempts r < payment_max_attempts cfg" and pb: "put_back r n d d'"
  shows "db_ok cfg d'"
proof -
  have "0 \<le> ord_processing_attempts r" "ord_processing_attempts r < max_attempts cfg"
    using db_okD(2) [OF ok] r lt by (auto simp: orders_ok_def order_ok_def max_attempts_def)
  then show ?thesis
    using order_row_updated_ok [OF ok r, of RESERVED "ord_processing_attempts r" _ n] pb
    by (simp add: put_back_def update_where_def)
qed

lemma dead_letters_ok: "db_ok cfg d \<Longrightarrow> db_ok cfg (d\<lparr>dead_letters := l\<rparr>)"
  by (rule db_ok_other_tables) (simp_all add: alerts_appended_def stock_sound_dead_letters db_ok_def)

lemma finish_outcome_ok:
  assumes ok: "db_ok cfg d" and r: "r \<in> set (orders d)"
    and fin: "finish_outcome cfg r (ord_processing_attempts r) outcome n d d'" and sound: "stock_sound [] d'"
  shows "db_ok cfg d'"
proof (cases "pay_result outcome = PAY_SUCCESS")
  case True
  with fin have "order_closed consume_row (\<lambda>_. 0) r COMPLETED n d d'" by (simp add: finish_outcome_def)
  from order_closed_ok [OF ok r _ _ settled_consumed this sound] show ?thesis by simp
next
  case failed: False
  show ?thesis
  proof (cases "pay_retryable outcome \<and> ord_processing_attempts r < payment_max_attempts cfg")
    case True
    with fin failed put_back_ok [OF ok r] show ?thesis by (simp add: finish_outcome_def)
  next
    case False
    with fin failed obtain d1 dl where closed: "order_closed release_row (\<lambda>q. q) r FAILED n d d1"
      and d': "d' = d1\<lparr>dead_letters := dl\<rparr>" by (auto simp: finish_outcome_def)
    have "stock_sound [] d1" using sound by (simp add: d' stock_sound_dead_letters)
    from order_closed_ok [OF ok r _ _ settled_released closed this] have "db_ok cfg d1" by simp
    then show ?thesis unfolding d' by (rule dead_letters_ok)
  qed
qed

lemma batch_expired_ok:
  assumes ok: "db_ok cfg d" and b: "batch_expired limit n batch d d'" and sound: "stock_sound [] d'"
  shows "db_ok cfg d'"
proof -
  let ?h = "expire_orders (resv_order_id ` set batch) n"
  let ?g = "\<lambda>x. if resv_id x \<in> resv_id ` set batch then release_row n x else x"
  note frame = batch_expiredD(6) [OF b, unfolded tables_frame_def]
  show ?thesis
  proof (rule db_ok_rows [OF ok sound, where h = ?h and g = ?g])
    show "alerts_appended d d'" "idempotency_keys d' = idempotency_keys d"
      using stock_frame_alerts [OF frame] frame by (simp_all add: alerts_appended_def stock_frame_def)
    show "orders d' = map ?h (orders d)" by (rule batch_expiredD(4) [OF b])
    show "reservations d' = map ?g (reservations d)"
      using batch_expiredD(3) [OF b] by (simp add: update_where_def)
  qed (auto simp: expire_orders_def same_order_def order_ok_def)
qed

lemma publish_all_filter:
  "(\<And>e. P (publish_row n e) = P e) \<Longrightarrow> filter P (publish_all I n t) = publish_all I n (filter P t)"
  by (induction t) (auto simp: publish_all_def)

lemma published_ok:
  assumes ok: "db_ok cfg d"
  shows "db_ok cfg (d\<lparr>outbox_events := publish_all I n (outbox_events d)\<rparr>)"
proof -
  let ?d = "d\<lparr>outbox_events := publish_all I n (outbox_events d)\<rparr>"
  have kinds: "is_alert_event (publish_row n e) = is_alert_event e"
    "is_order_event (publish_row n e) = is_order_event e"
    "announces a (publish_row n e) = announces a e" for a e
    by (simp_all add: is_alert_event_def is_order_event_def announces_def)
  have "list_all2 announces as (publish_all I n es) = list_all2 announces as es" for as es
    unfolding publish_all_def update_where_def list_all2_map2
    by (rule arg_cong [where f = "\<lambda>R. list_all2 R as es"]) (auto simp: kinds fun_eq_iff)
  then have "alerts_announced ?d = alerts_announced d"
    by (simp add: alerts_announced_def publish_all_filter kinds)
  moreover have "available_of ?d = available_of d" "reserved_of ?d = reserved_of d"
    using account_of_unchanged [of ?d d] by simp_all
  then have "ledger_balanced ?d = ledger_balanced d" "conserved [] ?d = conserved [] d"
    by (simp_all only: ledger_balanced_def conserved_def held_def) simp_all
  moreover have "unique_pairs ?d = unique_pairs d" "reservations_ok ?d = reservations_ok d"
    by (simp_all add: unique_pairs_def reservations_ok_def)
  ultimately have sound: "stock_sound [] ?d"
    using db_okD(1) [OF ok] by (simp add: stock_sound_def stock_base_def)
  have "map evt_aggregate_id (publish_all I n t) = map evt_aggregate_id t" for t
    by (simp add: publish_all_def map_update_where)
  moreover have "(\<forall>e\<in>set (publish_all I n t). Q e) = (\<forall>e\<in>set t. Q (if evt_id e \<in> I then publish_row n e else e))"
    for Q t by (simp add: publish_all_def ball_update_where)
  ultimately have "events_ok ?d"
    using db_okD(4) [OF ok] by (simp add: events_ok_def publish_all_filter kinds)
  moreover have "orders_ok cfg ?d" "idem_ok ?d"
    using db_okD(2,3) [OF ok]
    by (auto simp: orders_ok_def unique_orders_def reservation_ok_def idem_ok_def unique_keys_def)
  ultimately show ?thesis using sound by (simp add: db_ok_def)
qed

subsection \<open>Creating an order\<close>

text \<open>Under the invariant a claim is a new record, or there is none.\<close>

lemma key_claimed_cases:
  assumes "key_claimed sha p key claim d d1" and "idem_ok d"
  shows "((key = None \<or> key = Some []) \<and> claim = None \<and> d1 = d) \<or>
    (\<exists>entry. claim = Some \<lparr>claim_entry = Some entry, cached_response = None\<rparr> \<and> key = Some (idem_key entry) \<and>
       idem_request_hash entry = compute_request_hash sha p \<and>
       idem_key entry \<notin> idem_key ` set (idempotency_keys d) \<and>
       d1 = d\<lparr>idempotency_keys := idempotency_keys d @ [entry]\<rparr>)"
proof (cases "key = None \<or> key = Some []")
  case True
  with assms(1) show ?thesis unfolding key_claimed_def if_P [OF True] by blast
next
  case False
  from assms(1) [unfolded key_claimed_def if_not_P [OF False]] obtain entry where
    e: "claim = Some \<lparr>claim_entry = Some entry, cached_response = None\<rparr>" "key = Some (idem_key entry)"
      "idem_request_hash entry = compute_request_hash sha p"
    and c: "if entry \<in> set (idempotency_keys d)
       then idem_response_body entry = None \<and> idem_status entry = IDEM_COMPLETED \<and> d1 = d
       else idem_key entry \<notin> idem_key ` set (idempotency_keys d) \<and> idem_status entry = IDEM_IN_PROGRESS \<and>
         d1 = d\<lparr>idempotency_keys := idempotency_keys d @ [entry]\<rparr>" by blast
  have "entry \<notin> set (idempotency_keys d)"
  proof
    assume "entry \<in> set (idempotency_keys d)"
    with c assms(2) show False by (auto simp: idem_ok_def)
  qed
  with c e show ?thesis by auto
qed

definition claim_written :: "idempotency_key \<Rightarrow> ident \<Rightarrow> json \<Rightarrow> idempotency_key" where
  "claim_written e oid body =
     e\<lparr>idem_status := IDEM_COMPLETED, idem_order_id := Some oid, idem_response_body := Some body\<rparr>"

lemma claimed_keys_new:
  assumes "idem_key e \<notin> idem_key ` set keys"
  shows "claimed_keys (Some \<lparr>claim_entry = Some e, cached_response = None\<rparr>) oid body (keys @ [e]) =
    keys @ [claim_written e oid body]"
proof -
  have "update_where (\<lambda>r. idem_key r = idem_key e) f keys = keys" for f
    using assms by (intro update_where_none) (metis image_eqI)
  then show ?thesis by (simp add: claimed_keys_def claim_written_def update_where_def)
qed

text \<open>The tables of a new order, spelled out.\<close>

lemma order_created_tables:
  assumes ok: "db_ok cfg d" and claimed: "key_claimed sha p key claim d d1"
    and placed: "order_placed cfg p u key claim found n d1 d' body"
  obtains r irs es e where "new_order p u key n (map fst irs) r" "ord_id r \<notin> ord_id ` set (orders d)"
    "list_all2 (line_taken found (ord_id r) (n + minutes (reservation_timeout_minutes cfg))) (req_items p) irs"
    "orders d' = orders d @ [r]" "order_items d' = order_items d @ map fst irs"
    "reservations d' = reservations d @ map snd irs"
    "outbox_events d' = outbox_events d @ es @ [e]" "\<forall>x\<in>set es. is_alert_event x"
    "order_event (ord_id r) e"
    "distinct (map evt_id (outbox_events d)) \<Longrightarrow> distinct (map evt_id (outbox_events d'))"
    "idempotency_keys d' = (case claim of None \<Rightarrow> idempotency_keys d
       | Some c \<Rightarrow> idempotency_keys d @ [claim_written (the (claim_entry c)) (ord_id r) body])"
    "body = serialize_order r (map fst irs)"
    "\<And>k. available_of d' k = available_of d k - quantity_of k (map snd irs)"
    "dead_letters d' = dead_letters d" "users d' = users d" "products d' = products d"
    "warehouses d' = warehouses d" "map inv_id (inventory d') = map inv_id (inventory d)"
proof -
  from placed obtain r irs d2 e where
    p: "new_order p u key n (map fst irs) r" "ord_id r \<notin> ord_id ` set (orders d1)"
    "list_all2 (line_taken found (ord_id r) (n + minutes (reservation_timeout_minutes cfg))) (req_items p) irs"
    "stock_frame d1 d2" "reservations d2 = reservations d1"
    "\<forall>k. available_of d2 k = available_of d1 k - quantity_of k (map snd irs)"
    "order_event (ord_id r) e" "evt_id e \<notin> evt_id ` set (outbox_events d2)" "body = serialize_order r (map fst irs)"
    and d': "d' = d2\<lparr>orders := orders d2 @ [r], order_items := order_items d2 @ map fst irs,
        reservations := reservations d2 @ map snd irs, outbox_events := outbox_events d2 @ [e],
        idempotency_keys := claimed_keys claim (ord_id r) body (idempotency_keys d2)\<rparr>"
    unfolding order_placed_def by (elim exE conjE) (rule that)
  from key_claimed_frame [OF claimed] obtain t where d1: "d1 = d\<lparr>idempotency_keys := t\<rparr>" by blast
  from p(4) obtain es where es: "outbox_events d2 = outbox_events d @ es" "\<forall>x\<in>set es. is_alert_event x"
    and dist: "distinct (map evt_id (outbox_events d)) \<longrightarrow> distinct (map evt_id (outbox_events d2))"
    by (auto simp: stock_frame_def d1)
  have same: "orders d2 = orders d" "order_items d2 = order_items d" "idempotency_keys d2 = t"
    "dead_letters d2 = dead_letters d" "users d2 = users d" "products d2 = products d" "warehouses d2 = warehouses d"
    "map inv_id (inventory d2) = map inv_id (inventory d)"
    using p(4) by (auto simp: stock_frame_def d1)
  have td: "t = idempotency_keys d1" by (simp add: d1)
  have keys: "claimed_keys claim (ord_id r) body t = (case claim of None \<Rightarrow> idempotency_keys d
       | Some c \<Rightarrow> idempotency_keys d @ [claim_written (the (claim_entry c)) (ord_id r) body])"
    using key_claimed_cases [OF claimed db_okD(3) [OF ok]]
  proof (elim disjE exE conjE)
    fix entry assume c: "claim = Some \<lparr>claim_entry = Some entry, cached_response = None\<rparr>"
      "idem_key entry \<notin> idem_key ` set (idempotency_keys d)"
      "d1 = d\<lparr>idempotency_keys := idempotency_keys d @ [entry]\<rparr>"
    with td have "t = idempotency_keys d @ [entry]" by simp
    with c(1) claimed_keys_new [OF c(2)] show ?thesis by simp
  qed (simp_all add: claimed_keys_def td)
  have av: "available_of d' k = available_of d2 k" "available_of d1 k = available_of d k" for k
    using account_of_unchanged [of d' d2] account_of_unchanged [of d1 d] by (simp_all add: d' d1)
  have avk: "available_of d' k = available_of d k - quantity_of k (map snd irs)" for k
    using spec [OF p(6), of k] av by simp
  show thesis
  proof (rule that [of irs r es e])
    show "available_of d' k = available_of d k - quantity_of k (map snd irs)" for k by (rule avk)
    show "distinct (map evt_id (outbox_events d'))" if "distinct (map evt_id (outbox_events d))"
      using that dist p(8) by (simp add: d')
  qed (use p es same keys av in \<open>simp_all add: d' d1\<close>)
qed

lemma order_created_ok:
  assumes ok: "db_ok cfg d" and claimed: "key_claimed sha p key claim d d1"
    and placed: "order_placed cfg p u key claim found n d1 d' body" and sound: "stock_sound [] d'"
  shows "db_ok cfg d'"
proof -
  from ok claimed placed obtain r irs es e where
    r: "new_order p u key n (map fst irs) r" "ord_id r \<notin> ord_id ` set (orders d)"
    and lines: "list_all2 (line_taken found (ord_id r) (n + minutes (reservation_timeout_minutes cfg))) (req_items p) irs"
    and t: "orders d' = orders d @ [r]" "order_items d' = order_items d @ map fst irs"
      "reservations d' = reservations d @ map snd irs"
    and out: "outbox_events d' = outbox_events d @ es @ [e]" "\<forall>x\<in>set es. is_alert_event x" "order_event (ord_id r) e"
      "distinct (map evt_id (outbox_events d)) \<Longrightarrow> distinct (map evt_id (outbox_events d'))"
    and keys: "idempotency_keys d' = (case claim of None \<Rightarrow> idempotency_keys d
       | Some c \<Rightarrow> idempotency_keys d @ [claim_written (the (claim_entry c)) (ord_id r) body])"
    by (rule order_created_tables) blast
  note old = db_okD(2-5) [OF ok]
  have new: "reservation_ok d' x" if x: "x \<in> set (map snd irs)" for x
  proof -
    from x obtain i l where "line_taken found (ord_id r) (n + minutes (reservation_timeout_minutes cfg)) l (i, x)"
      using lines by (auto simp: list_all2_conv_all_nth in_set_conv_nth) (metis prod.collapse)
    then show ?thesis using r(1) by (auto simp: reservation_ok_def t line_taken_def new_order_def)
  qed
  have "orders_ok cfg d'"
    using old(1) r new
    by (auto simp: orders_ok_def unique_orders_def t order_ok_def new_order_def reservation_ok_def max_attempts_def)
  moreover have "idem_ok d'"
    using key_claimed_cases [OF claimed old(2)] old(2) r
    by (auto simp: idem_ok_def unique_keys_def keys t claim_written_def new_order_def)
  moreover have "filter is_order_event es = []"
    using out(2) not_both_events by (auto simp: filter_empty_conv)
  then have "events_ok d'"
    using old(3) out t by (auto simp: events_ok_def order_event_def is_order_event_def)
  ultimately show ?thesis using sound by (simp add: db_ok_def)
qed

subsection \<open>Preservation\<close>

lemma adjusted_other_tables:
  assumes "adjusted a d d'"
  shows "alerts_appended d d'" "idempotency_keys d' = idempotency_keys d" "orders d' = orders d"
    "reservations d' = reservations d"
proof -
  have "alerts_appended d d' \<and> idempotency_keys d' = idempotency_keys d \<and> orders d' = orders d \<and>
    reservations d' = reservations d"
  proof (cases "(adj_product_id a, adj_warehouse_id a) \<in> inv_key ` set (inventory d)")
    case True
    with assms have "stock_event (adj_product_id a, adj_warehouse_id a) (adjust_spec (adj_quantity a))
        (adj_quantity a) (adjustment_event_type (adj_quantity a)) (adj_quantity a) (adj_reason a) d d'"
      by (simp add: adjusted_def Let_def)
    from stock_event_frame [OF this] show ?thesis
      using stock_frame_alerts by (auto simp: stock_frame_def)
  next
    case False
    with assms show ?thesis by (auto simp: adjusted_def Let_def alerts_appended_def)
  qed
  then show "alerts_appended d d'" "idempotency_keys d' = idempotency_keys d" "orders d' = orders d"
    "reservations d' = reservations d" by simp_all
qed

lemma threshold_other_tables:
  "threshold_set k t d d' \<Longrightarrow> alerts_appended d d' \<and> idempotency_keys d' = idempotency_keys d \<and>
    orders d' = orders d \<and> reservations d' = reservations d"
  by (auto simp: threshold_set_def alerts_appended_def split: if_splits)

theorem db_change_ok:
  assumes "db_change cfg sha n lab d d'" and ok: "db_ok cfg d"
  shows "db_ok cfg d'"
  using assms(1)
proof (cases rule: db_change.cases)
  case (stock_adjusted a)
  from db_ok_other_tables [OF ok adjusted_sound [OF this(2) db_okD(1) [OF ok]] adjusted_other_tables [OF this(2)]]
  show ?thesis .
next
  case (threshold_changed k t)
  from db_ok_other_tables [OF ok threshold_set_sound [OF this(2) db_okD(1) [OF ok]]]
    threshold_other_tables [OF this(2)] show ?thesis by simp
next
  case order_created
  from order_created_ok [OF ok this(3,4,5)] show ?thesis .
next
  case (order_cancelled r)
  from order_closed_ok [OF ok this(2) _ _ settled_released this(4,5)] show ?thesis by simp
next
  case (order_begun r)
  from begun_ok [OF ok this(3,4)] this(2) show ?thesis by simp
next
  case (order_finished r attempt outcome)
  then have "finish_outcome cfg r (ord_processing_attempts r) outcome n d d'" by simp
  from finish_outcome_ok [OF ok order_finished(2) this order_finished(6)] show ?thesis .
next
  case reservations_expired
  from batch_expired_ok [OF ok this(2,3)] show ?thesis .
next
  case (events_published I)
  then show ?thesis using published_ok [OF ok] by simp
next
  case unchanged
  with ok show ?thesis by simp
next
  case (user_added u)
  then show ?thesis
    using db_ok_other_tables [OF ok, of d'] stock_sound_cong [of d' d "[]"] db_okD(1) [OF ok]
    by (simp add: alerts_appended_def)
next
  case (product_added p)
  then show ?thesis
    using db_ok_other_tables [OF ok, of d'] stock_sound_cong [of d' d "[]"] db_okD(1) [OF ok]
    by (simp add: alerts_appended_def)
next
  case (warehouse_added w)
  then show ?thesis
    using db_ok_other_tables [OF ok, of d'] stock_sound_cong [of d' d "[]"] db_okD(1) [OF ok]
    by (simp add: alerts_appended_def)
qed

end
