(* ===== verification/Refinement.thy ===== *)
theory Refinement
  imports Transitions
begin

text \<open>
  Every transaction of the program refines \<open>db_change\<close>: whatever an endpoint or a worker answers,
  the committed database either stays as it was or makes one change of the abstract system. An
  operation that runs over a fresh session (its working state is the committed one) is \<open>fresh\<close>.
\<close>

definition fresh :: "session \<Rightarrow> bool" where
  "fresh s \<longleftrightarrow> working s = committed s"

definition refines :: "settings \<Rightarrow> (string \<Rightarrow> string) \<Rightarrow> 'a op \<Rightarrow> bool" where
  "refines cfg sha m \<longleftrightarrow> (\<forall>s r s'. m s = (r, s') \<longrightarrow> fresh s \<longrightarrow> db_ok cfg (committed s) \<longrightarrow>
     db_change cfg sha (clock s) Quiet (committed s) (committed s'))"

lemma refinesI:
  "(\<And>s r s'. m s = (r, s') \<Longrightarrow> working s = committed s \<Longrightarrow> db_ok cfg (committed s) \<Longrightarrow>
     db_change cfg sha (clock s) Quiet (committed s) (committed s')) \<Longrightarrow> refines cfg sha m"
  by (simp add: refines_def fresh_def)

lemma refinesD:
  "refines cfg sha m \<Longrightarrow> m s = (r, s') \<Longrightarrow> working s = committed s \<Longrightarrow> db_ok cfg (committed s) \<Longrightarrow>
     db_change cfg sha (clock s) Quiet (committed s) (committed s')"
  by (simp add: refines_def fresh_def)

lemma refines_in_transaction: "in_transaction m \<Longrightarrow> refines cfg sha m"
  by (rule refinesI) (auto dest!: in_transactionD intro: db_change.unchanged)

lemma refines_then_read:
  assumes "refines cfg sha m" and "\<And>x. in_transaction (f x)"
  shows "refines cfg sha (and_then m f)"
proof (rule refinesI)
  fix s r s'
  assume run: "and_then m f s = (r, s')" and s: "working s = committed s" "db_ok cfg (committed s)"
  obtain q t where m: "m s = (q, t)" by (cases "m s")
  have "committed s' = committed t"
    using run m in_transactionD [OF assms(2)] by (cases q) (auto simp: and_then_def)
  then show "db_change cfg sha (clock s) Quiet (committed s) (committed s')"
    using refinesD [OF assms(1) m s] by simp
qed

subsection \<open>Endpoints\<close>

lemma refines_register: "refines cfg sha (register_user c p)"
proof (rule refinesI)
  fix s r s' assume run: "register_user c p s = (r, s')" and w: "working s = committed s"
  show "db_change cfg sha (clock s) Quiet (committed s) (committed s')"
  proof (cases r)
    case (Inl e)
    with fails_cleanD [OF fails_clean_register run [unfolded Inl]] show ?thesis
      by (simp add: db_change.unchanged)
  next
    case (Inr u)
    with register_user_Inr(1,7) [OF run [unfolded Inr]] w show ?thesis by (simp add: db_change.user_added)
  qed
qed

lemma refines_create_product: "refines cfg sha (create_product p)"
proof (rule refinesI)
  fix s r s' assume run: "create_product p s = (r, s')" and w: "working s = committed s"
  show "db_change cfg sha (clock s) Quiet (committed s) (committed s')"
  proof (cases r)
    case (Inl e)
    with create_product_Inl [OF run [unfolded Inl]] show ?thesis by (simp add: db_change.unchanged)
  next
    case (Inr x)
    with create_product_insert_Inr(1,6) [OF create_product_Inr(1) [OF run [unfolded Inr]]] w
    show ?thesis by (simp add: db_change.product_added)
  qed
qed

lemma refines_create_warehouse: "refines cfg sha (create_warehouse p)"
proof (rule refinesI)
  fix s r s' assume run: "create_warehouse p s = (r, s')" and w: "working s = committed s"
  show "db_change cfg sha (clock s) Quiet (committed s) (committed s')"
  proof (cases r)
    case (Inl e)
    with create_warehouse_Inl [OF run [unfolded Inl]] show ?thesis by (simp add: db_change.unchanged)
  next
    case (Inr x)
    with create_warehouse_Inr(1,5) [OF run [unfolded Inr]] w show ?thesis by (simp add: db_change.warehouse_added)
  qed
qed

lemma refines_create_adjustment: "refines cfg sha (create_adjustment p)"
proof (rule refinesI)
  fix s r s' assume run: "create_adjustment p s = (r, s')"
    and w: "working s = committed s" "db_ok cfg (committed s)"
  from create_adjustment_commits [OF run] db_okD(1) [OF w(2)] w(1)
  show "db_change cfg sha (clock s) Quiet (committed s) (committed s')"
    by (auto intro: db_change.unchanged db_change.stock_adjusted)
qed

lemma refines_set_threshold: "refines cfg sha (set_threshold p w t)"
proof (rule refinesI)
  fix s r s' assume run: "set_threshold p w t s = (r, s')"
    and w: "working s = committed s" "db_ok cfg (committed s)"
  from set_threshold_commits [OF run] db_okD(1) [OF w(2)] w(1)
  show "db_change cfg sha (clock s) Quiet (committed s) (committed s')"
    by (auto intro: db_change.unchanged db_change.threshold_changed)
qed

lemma refines_create_order:
  assumes valid: "valid_order_request p"
  shows "refines cfg sha (create_order cfg sha p u key)"
proof (rule refinesI)
  fix s r s' assume run: "create_order cfg sha p u key s = (r, s')"
    and w: "working s = committed s" "db_ok cfg (committed s)"
  show "db_change cfg sha (clock s) Quiet (committed s) (committed s')"
  proof (cases r)
    case (Inl e)
    with create_order_Inl [OF run [unfolded Inl]] show ?thesis by (simp add: db_change.unchanged)
  next
    case (Inr body)
    have "stock_sound [] (working s)" using db_okD(1) [OF w(2)] w(1) by simp
    from create_order_Inr [OF run [unfolded Inr] this valid] show ?thesis
    proof
      assume "replayed sha p key (working s) body \<and> s' = s\<lparr>committed := working s\<rparr>"
      with w(1) show ?thesis by (simp add: db_change.unchanged)
    next
      assume "\<exists>claim found d1. key_claimed sha p key claim (working s) d1 \<and>
         (\<forall>l\<in>set (req_items p). \<exists>x\<in>set (products (working s)).
            prod_id x = ol_product_id l \<and> found (ol_product_id l) = Some x) \<and>
         order_placed cfg p u key claim found (clock s) d1 (working s') body \<and>
         stock_sound [] (working s') \<and> committed s' = working s'"
      then obtain claim found d1 where "key_claimed sha p key claim (committed s) d1"
        "order_placed cfg p u key claim found (clock s) d1 (committed s') body" "stock_sound [] (committed s')"
        unfolding w(1) by auto
      from db_change.order_created [OF valid this] show ?thesis .
    qed
  qed
qed

lemma refines_cancel_order: "refines cfg sha (cancel_order i u)"
proof (rule refinesI)
  fix s r s' assume run: "cancel_order i u s = (r, s')"
    and w: "working s = committed s" "db_ok cfg (committed s)"
  have pre: "stock_sound [] (working s)" "unique_orders (working s)"
    using db_okD(1,5) [OF w(2)] w(1) by simp_all
  show "db_change cfg sha (clock s) Quiet (committed s) (committed s')"
  proof (cases r)
    case (Inl e)
    with cancel_order_Inl [OF run [unfolded Inl] pre] show ?thesis by (simp add: db_change.unchanged)
  next
    case (Inr x)
    note c = cancel_order_Inr [OF run [unfolded Inr] pre]
    from c(1) obtain r where "r \<in> set (orders (committed s))" "ord_status r \<in> CANCELLABLE_ORDER_STATUSES"
      "order_closed release_row (\<lambda>q. q) r CANCELLED (clock s) (committed s) (committed s')"
      using c(3) w(1) by auto
    then show ?thesis using db_change.order_cancelled c(2,3) by metis
  qed
qed

lemma in_transaction_responses [in_transaction_intro]:
  "in_transaction (order_response r)" "in_transaction (order_responses rs)"
proof -
  show one: "in_transaction (order_response r)" for r
    unfolding order_response_def by (intro in_transaction_intro)
  show "in_transaction (order_responses rs)"
    by (induction rs) (auto intro: in_transaction_intro one)
qed

lemma in_transaction_reads [in_transaction_intro]:
  "in_transaction (get_product_or_404 i)" "in_transaction (list_alerts w n)"
  "in_transaction (get_inventory_for_product i)" "in_transaction (get_order_or_404 i u)"
  "in_transaction (list_orders u st a b pg l)" "in_transaction (authenticate c t req)"
  unfolding get_product_or_404_def list_alerts_def get_inventory_for_product_def get_order_or_404_def
    authorize_view_def list_orders_def Let_def authenticate_def
  by (intro in_transaction_intro)+

lemma refines_endpoint:
  assumes "valid_request req"
  shows "refines cfg sha (endpoint cfg sha c req u)"
proof (cases req)
  case (ReqCreateOrder p key)
  with assms refines_create_order show ?thesis
    by (cases u) (auto simp: routes intro: refines_in_transaction in_transaction_raise)
next
  case (ReqCancelOrder i)
  then show ?thesis
    by (cases u) (auto simp: routes intro!: refines_then_read refines_cancel_order in_transaction_intro
      intro: refines_in_transaction)
next
  case (ReqListOrders st a b pg l)
  then show ?thesis
    by (cases u) (auto simp: routes intro!: refines_in_transaction in_transaction_intro split: prod.splits)
qed (auto simp: routes intro!: refines_then_read refines_register refines_create_product refines_create_warehouse
    refines_create_adjustment refines_set_threshold in_transaction_return,
    (cases u; auto simp: routes intro!: refines_in_transaction in_transaction_intro)+)

text \<open>A request, over its own session.\<close>

lemma refines_run_endpoint: "refines cfg sha (run_endpoint cfg sha c token req)"
proof (rule refinesI)
  fix s r s' assume run: "run_endpoint cfg sha c token req s = (r, s')"
    and w: "working s = committed s" "db_ok cfg (committed s)"
  obtain q t where auth: "authenticate c token req s = (q, t)" by (cases "authenticate c token req s")
  have state: "t = s"
    using auth by (cases "allowed_roles req")
      (auto simp: authenticate_def return_def and_then_def dest!: require_roles_state split: prod.splits sum.splits)
  show "db_change cfg sha (clock s) Quiet (committed s) (committed s')"
  proof (cases q)
    case (Inl e)
    with run auth state show ?thesis by (auto simp: run_endpoint_def and_then_def db_change.unchanged)
  next
    case (Inr u)
    show ?thesis
    proof (cases "valid_request req")
      case False
      with run auth state Inr show ?thesis
        by (auto simp: run_endpoint_def and_then_def return_def db_change.unchanged)
    next
      case True
      with run auth state Inr have "and_then (endpoint cfg sha c req u) (\<lambda>j. return (Answer j)) s = (r, s')"
        by (simp add: run_endpoint_def and_then_def)
      from refinesD [OF refines_then_read [OF refines_endpoint [OF True] in_transaction_return] this w]
      show ?thesis .
    qed
  qed
qed

theorem handle_request_refines:
  assumes "handle_request cfg sha c errors token req s = (resp, s')" and "db_ok cfg (committed s)"
  shows "db_change cfg sha (clock s) Quiet (committed s) (committed s')" and "working s' = committed s'"
proof -
  from assms(1) obtain r t where run: "run_endpoint cfg sha c token req (s\<lparr>working := committed s\<rparr>) = (r, t)"
    and s': "s' = t\<lparr>working := committed t\<rparr>"
    by (auto simp: handle_request_def with_session_def split: prod.splits)
  from refinesD [OF refines_run_endpoint run] assms(2)
  show "db_change cfg sha (clock s) Quiet (committed s) (committed s')" "working s' = committed s'"
    by (simp_all add: s')
qed

subsection \<open>Workers\<close>

lemma worker_guard_committed:
  "worker_guard m s = (r, s') \<Longrightarrow> \<exists>t. m s = (r, t) \<and> committed s' = committed t"
  by (cases "m s") (auto simp: worker_guard_def try_except_def raise_def and_then_def rollback_def
      split: sum.splits exn.splits)

definition begin_transaction :: "ident \<Rightarrow> order_row option op" where
  "begin_transaction i = with_session (worker_guard (process_begin i))"

definition finish_transaction :: "settings \<Rightarrow> ident \<Rightarrow> int \<Rightarrow> payment_outcome \<Rightarrow> unit op" where
  "finish_transaction cfg i attempt outcome =
     with_session (worker_guard (process_finish cfg i attempt outcome))"

lemma begin_transaction_refines:
  assumes run: "begin_transaction i s = (r, s')" and ok: "db_ok cfg (committed s)"
  shows "db_change cfg sha (clock s) Quiet (committed s) (committed s')"
    and "r = Inr (Some job) \<Longrightarrow> \<exists>x\<in>set (orders (committed s)). ord_id x = i \<and> ord_status x = RESERVED \<and>
      job = x\<lparr>ord_processing_attempts := ord_processing_attempts x + 1\<rparr> \<and>
      committed s' = (committed s)\<lparr>orders := update_where (\<lambda>y. ord_id y = i) (begun (clock s)) (orders (committed s))\<rparr>"
    and "(\<exists>e. r = Inl e) \<or> r = Inr None \<Longrightarrow> committed s' = committed s"
proof -
  let ?s = "s\<lparr>working := committed s\<rparr>"
  from run obtain t where g: "worker_guard (process_begin i) ?s = (r, t)" and s': "committed s' = committed t"
    by (auto simp: begin_transaction_def with_session_eq)
  from worker_guard_committed [OF g] obtain t' where b: "process_begin i ?s = (r, t')"
    and c: "committed t = committed t'" by blast
  have u: "unique_orders (working ?s)" using db_okD(5) [OF ok] by simp
  show none: "committed s' = committed s" if "(\<exists>e. r = Inl e) \<or> r = Inr None"
    using that fails_cleanD [OF fails_clean_begin, of i ?s _ t'] b c s' process_begin_Inr [of i ?s None t'] u
    by auto
  show some: "\<exists>x\<in>set (orders (committed s)). ord_id x = i \<and> ord_status x = RESERVED \<and>
      job = x\<lparr>ord_processing_attempts := ord_processing_attempts x + 1\<rparr> \<and>
      committed s' = (committed s)\<lparr>orders := update_where (\<lambda>y. ord_id y = i) (begun (clock s)) (orders (committed s))\<rparr>"
    if "r = Inr (Some job)" for job
    using process_begin_Inr [of i ?s "Some job" t'] b that u c s' by auto
  show "db_change cfg sha (clock s) Quiet (committed s) (committed s')"
  proof (cases "(\<exists>e. r = Inl e) \<or> r = Inr None")
    case True
    with none show ?thesis by (simp add: db_change.unchanged)
  next
    case False
    then obtain job where "r = Inr (Some job)" by (cases r) auto
    from some [OF this] obtain x where "x \<in> set (orders (committed s))" "ord_status x = RESERVED"
      "committed s' = (committed s)\<lparr>orders := update_where (\<lambda>y. ord_id y = ord_id x) (begun (clock s)) (orders (committed s))\<rparr>"
      by auto
    with db_change.order_begun [OF this(1,2), of cfg sha "clock s"] show ?thesis by simp
  qed
qed

lemma finish_transaction_commits:
  assumes run: "finish_transaction cfg i attempt outcome s = (r, s')" and sound: "stock_sound [] (committed s)"
    and uniq: "unique_orders (committed s)" and x: "x \<in> set (orders (committed s))" "ord_id x = i"
  shows "committed s' = committed s \<or> (stock_sound [] (committed s') \<and>
    finish_outcome cfg x attempt outcome (clock s) (committed s) (committed s'))"
proof -
  let ?s = "s\<lparr>working := committed s\<rparr>"
  from run obtain t where g: "worker_guard (process_finish cfg i attempt outcome) ?s = (r, t)"
    and s': "committed s' = committed t"
    by (auto simp: finish_transaction_def with_session_eq)
  from worker_guard_committed [OF g] obtain t' where f: "process_finish cfg i attempt outcome ?s = (r, t')"
    and c: "committed t = committed t'" by blast
  have one: "y = x" if "y \<in> set (orders (working ?s))" "ord_id y = i" for y
    using unique_row [OF uniq [unfolded unique_orders_def] _ x(1), of y] that x(2) by simp
  have same: "committed t' = committed s'" using c s' by simp
  have "working ?s = committed ?s" "stock_sound [] (working ?s)" using sound by simp_all
  from process_finish_commits [OF f this] show ?thesis
  proof (elim disjE bexE conjE)
    fix y assume "y \<in> set (orders (working ?s))" "ord_id y = i" "stock_sound [] (committed t')"
      "finish_outcome cfg y attempt outcome (clock ?s) (working ?s) (committed t')"
    with one [of y] same show ?thesis by simp
  next
    assume "committed t' = committed ?s"
    with same show ?thesis by simp
  qed
qed

lemma finish_refines:
  assumes "committed s' = committed s \<or> (stock_sound [] (committed s') \<and>
      finish_outcome cfg x attempt outcome (clock s) (committed s) (committed s'))"
    and x: "x \<in> set (orders (committed s))" "ord_id x = i" "ord_status x = PROCESSING" "ord_processing_attempts x = attempt"
  shows "db_change cfg sha (clock s) Quiet (committed s) (committed s') \<or>
      db_change cfg sha (clock s) (Finishes i) (committed s) (committed s')"
  using assms(1) db_change.order_finished [OF x(1,3)] x(2,4) by (auto simp: db_change.unchanged)

lemma finish_transaction_refines:
  assumes run: "finish_transaction cfg i attempt outcome s = (r, s')" and ok: "db_ok cfg (committed s)"
    and x: "x \<in> set (orders (committed s))" "ord_id x = i" "ord_status x = PROCESSING"
      "ord_processing_attempts x = attempt"
  shows "db_change cfg sha (clock s) Quiet (committed s) (committed s') \<or>
      db_change cfg sha (clock s) (Finishes i) (committed s) (committed s')"
    and "committed s' = committed s \<or> finish_outcome cfg x attempt outcome (clock s) (committed s) (committed s')"
proof -
  note cases = finish_transaction_commits [OF run db_okD(1,5) [OF ok] x(1,2)]
  from finish_refines [OF cases x] show "db_change cfg sha (clock s) Quiet (committed s) (committed s') \<or>
      db_change cfg sha (clock s) (Finishes i) (committed s) (committed s')" .
  from cases show "committed s' = committed s \<or> finish_outcome cfg x attempt outcome (clock s) (committed s) (committed s')"
    by blast
qed

text \<open>
  \<open>process_finish\<close> commits a permanent failure and its dead letter one after the other. This is its run
  when the worker dies between the two.
\<close>

definition fails_for_good :: "settings \<Rightarrow> int \<Rightarrow> payment_outcome \<Rightarrow> bool" where
  "fails_for_good cfg attempt outcome \<longleftrightarrow> pay_result outcome \<noteq> PAY_SUCCESS \<and>
     \<not> (pay_retryable outcome \<and> attempt < payment_max_attempts cfg)"

definition fail_transaction :: "ident \<Rightarrow> unit op" where
  "fail_transaction i = with_session (worker_guard (and_then (order_get_by_id_for_update i) (\<lambda>found.
     case found of None \<Rightarrow> raise AttributeError | Some order \<Rightarrow> fail_order i order)))"

lemma fail_transaction_eq:
  assumes "pay_result outcome \<noteq> PAY_SUCCESS"
  shows "fail_transaction i = finish_transaction (cfg\<lparr>payment_max_attempts := attempt + 1\<rparr>) i attempt
    (outcome\<lparr>pay_retryable := False\<rparr>)"
proof -
  have "and_then m (\<lambda>_. return ()) = m" for m :: "unit op"
    by (auto simp: fun_eq_iff and_then_def return_def split: prod.splits sum.splits)
  then show ?thesis
    using assms by (simp add: fail_transaction_def finish_transaction_def process_finish_def cong: option.case_cong)
qed

lemma fail_transaction_refines:
  assumes run: "fail_transaction i s = (r, s')" and perm: "fails_for_good cfg attempt outcome" and ok: "db_ok cfg (committed s)"
    and x: "x \<in> set (orders (committed s))" "ord_id x = i" "ord_status x = PROCESSING" "ord_processing_attempts x = attempt"
  shows "db_change cfg sha (clock s) Quiet (committed s) (committed s') \<or>
      db_change cfg sha (clock s) (Finishes i) (committed s) (committed s')"
proof -
  let ?cfg = "cfg\<lparr>payment_max_attempts := attempt + 1\<rparr>"
  have "pay_result outcome \<noteq> PAY_SUCCESS" using perm by (simp add: fails_for_good_def)
  from run [unfolded fail_transaction_eq [OF this, where i = i and cfg = cfg and attempt = attempt]]
  have fin: "finish_transaction ?cfg i attempt (outcome\<lparr>pay_retryable := False\<rparr>) s = (r, s')" .
  have "finish_outcome cfg x attempt outcome n d d'"
    if "finish_outcome ?cfg x attempt (outcome\<lparr>pay_retryable := False\<rparr>) n d d'" for n d d'
    using that perm by (auto simp: finish_outcome_def fails_for_good_def intro!: exI [of _ "[]"])
  with finish_transaction_commits [OF fin db_okD(1,5) [OF ok] x(1,2)] have
    "committed s' = committed s \<or> (stock_sound [] (committed s') \<and>
      finish_outcome cfg x attempt outcome (clock s) (committed s) (committed s'))" by blast
  from finish_refines [OF this x] show ?thesis .
qed

lemma expire_pass_refines:
  assumes run: "expire_pass limit s = (r, s')" and ok: "db_ok cfg (committed s)"
  shows "db_change cfg sha (clock s) Quiet (committed s) (committed s')"
  using expire_pass_commits(2) [OF run db_okD(1,5) [OF ok]]
  by (auto intro: db_change.unchanged db_change.reservations_expired)

lemma relay_once_refines:
  assumes run: "relay_once broker queue s = (r, queue', s')" and ok: "db_ok cfg (committed s)"
  shows "db_change cfg sha (clock s) Quiet (committed s) (committed s') \<or>
    db_change cfg sha (clock s) Publishes (committed s) (committed s')"
proof (cases r)
  case (Inl e)
  with relay_once_Inl(1) [OF run [unfolded Inl]] show ?thesis by (simp add: db_change.unchanged)
next
  case (Inr n)
  let ?batch = "take RELAY_BATCH_SIZE (sort_key evt_created_at
     (filter (\<lambda>e. evt_status e = OUTBOX_PENDING) (outbox_events (committed s))))"
  have batch: "set (handled ?batch) \<subseteq> {x \<in> set (outbox_events (committed s)). evt_status x = OUTBOX_PENDING}"
    by (auto simp: handled_def dest: in_set_takeD)
  have dist: "distinct (map evt_id (outbox_events (committed s)))"
    using db_okD(4) [OF ok] by (simp add: events_ok_def)
  have "\<forall>e\<in>set (outbox_events (committed s)). evt_id e \<in> evt_id ` set (handled ?batch) \<longrightarrow> evt_status e = OUTBOX_PENDING"
  proof (intro ballI impI)
    fix e assume e: "e \<in> set (outbox_events (committed s))" "evt_id e \<in> evt_id ` set (handled ?batch)"
    then obtain x where "x \<in> set (handled ?batch)" "evt_id e = evt_id x" by auto
    with batch unique_row [OF dist e(1), of x] show "evt_status e = OUTBOX_PENDING" by auto
  qed
  from db_change.events_published [OF this, of cfg sha "clock s"] relay_once_Inr(4) [OF run [unfolded Inr]]
  show ?thesis by simp
qed

end
