(* ===== verification/Sample.thy ===== *)
theory Sample
  imports Refinement
begin

text \<open>
  A small shop for the concrete runs: one administrator, two clients, one product at 9.99 and one
  at 20.00, two warehouses, and the sessions that run on it. Ids are the successive numerals; a
  token is the id of its user; passwords are not hashed.
\<close>

subsection \<open>No operation replaces the stream the ids are drawn from\<close>

definition keeps_stream :: "'a op \<Rightarrow> bool" where
  "keeps_stream m \<longleftrightarrow> (\<forall>s. uuid_stream (snd (m s)) = uuid_stream s)"

lemma keeps_in_transaction: "in_transaction m \<Longrightarrow> keeps_stream m"
  by (simp add: keeps_stream_def in_transaction_def)

lemma keeps_and_then: "keeps_stream m \<Longrightarrow> (\<And>x. keeps_stream (f x)) \<Longrightarrow> keeps_stream (and_then m f)"
  by (auto simp: keeps_stream_def and_then_def split: prod.splits sum.splits) (metis snd_conv)+

lemma keeps_try_except: "keeps_stream m \<Longrightarrow> (\<And>e. keeps_stream (h e)) \<Longrightarrow> keeps_stream (try_except m h)"
  by (auto simp: keeps_stream_def try_except_def split: prod.splits sum.splits) (metis snd_conv)+

lemma keeps_case: 
  "keeps_stream m \<Longrightarrow> keeps_stream n \<Longrightarrow> keeps_stream (if b then m else n)"
  "keeps_stream m \<Longrightarrow> (\<And>x. keeps_stream (f x)) \<Longrightarrow> keeps_stream (case z of None \<Rightarrow> m | Some x \<Rightarrow> f x)"
  "(\<And>a b. keeps_stream (g a b)) \<Longrightarrow> keeps_stream (case p of (a, b) \<Rightarrow> g a b)"
  by (auto split: option.splits prod.splits)

lemma keeps_commit: "keeps_stream commit" "keeps_stream rollback"
  by (simp_all add: keeps_stream_def commit_def rollback_def)

lemma keeps_leaf: "keeps_stream (return x)" "keeps_stream (raise e)"
  by (simp_all add: keeps_stream_def return_def raise_def)

lemma keeps_rolling_back: "keeps_stream m \<Longrightarrow> keeps_stream (rolling_back m)"
  unfolding rolling_back_def by (rule keeps_try_except, assumption) (intro keeps_and_then keeps_commit keeps_leaf)

lemma keeps_with_session: "keeps_stream m \<Longrightarrow> keeps_stream (with_session m)"
  by (simp add: keeps_stream_def with_session_def case_prod_beta)

lemma keeps_handler: "keeps_stream m \<Longrightarrow> keeps_stream (case e of IntegrityError x \<Rightarrow> m | _ \<Rightarrow> raise e)"
  by (cases e) (simp_all add: keeps_leaf)

lemmas keeps_intro = keeps_handler keeps_and_then keeps_try_except keeps_case keeps_commit keeps_leaf keeps_rolling_back
  keeps_in_transaction

lemma keeps_inserts: "keeps_stream (user_create u)" "keeps_stream (create_product_insert p)"
  unfolding user_create_def create_product_insert_def by (intro keeps_intro in_transaction_intro)+

lemma keeps_services:
  "keeps_stream (register_user c p)" "keeps_stream (create_product q)" "keeps_stream (create_warehouse w)"
  "keeps_stream (create_adjustment a)" "keeps_stream (set_threshold x y t)"
  "keeps_stream (create_order cfg sha payload u key)" "keeps_stream (cancel_order i u)"
  unfolding register_user_def create_product_def create_product_precheck_def create_warehouse_def create_adjustment_def
    set_threshold_def set_threshold_write_def create_order_def create_order_impl_def place_order_def write_order_def
    cancel_order_def release_and_cancel_def cancellable_order_def
  by (intro keeps_intro keeps_inserts in_transaction_intro)+

lemma keeps_worker_guard: "keeps_stream m \<Longrightarrow> keeps_stream (worker_guard m)"
  unfolding worker_guard_def
proof (rule keeps_try_except)
  show "keeps_stream (case e of RetryablePaymentError x y \<Rightarrow> raise e | _ \<Rightarrow> and_then rollback (\<lambda>_. raise e))" for e
    by (cases e) (simp_all add: keeps_and_then keeps_commit keeps_leaf)
qed

lemma keeps_begin_transaction: "keeps_stream (begin_transaction i)"
  unfolding begin_transaction_def process_begin_def Let_def
  by (intro keeps_with_session keeps_worker_guard keeps_intro in_transaction_intro)+

lemma keeps_endpoint: "keeps_stream (endpoint cfg sha c req u)"
  by (cases "(cfg, sha, c, req, u)" rule: endpoint.cases)
    (simp_all add: routes, (intro keeps_services keeps_intro in_transaction_intro)+)

lemma keeps_request: "uuid_stream (snd (handle_request cfg sha c errors token req s)) = uuid_stream s"
proof -
  have "keeps_stream (run_endpoint cfg sha c token req)"
    unfolding run_endpoint_def by (intro keeps_intro keeps_endpoint in_transaction_intro)
  from keeps_with_session [OF this] show ?thesis
    by (simp add: handle_request_def keeps_stream_def case_prod_beta)
qed

subsection \<open>The shop\<close>

definition admin :: user where
  "admin = \<lparr>user_id = ''user_a'', user_email = ''a@x'', user_hashed_password = ''pw'', user_role = ADMIN, user_created_at = 0\<rparr>"

definition client :: user where
  "client = \<lparr>user_id = ''user_c'', user_email = ''c@x'', user_hashed_password = ''pw'', user_role = CLIENT, user_created_at = 0\<rparr>"

definition client2 :: user where
  "client2 = \<lparr>user_id = ''user_d'', user_email = ''d@x'', user_hashed_password = ''pw'', user_role = CLIENT, user_created_at = 0\<rparr>"

definition shop :: db where
  "shop = empty_db\<lparr>users := [admin, client, client2],
     products := [\<lparr>prod_id = ''p1'', prod_sku = ''S1'', prod_name = ''one'', prod_price = 999, prod_created_at = 0, prod_updated_at = 0\<rparr>,
       \<lparr>prod_id = ''p2'', prod_sku = ''S2'', prod_name = ''two'', prod_price = 2000, prod_created_at = 0, prod_updated_at = 0\<rparr>],
     warehouses := [\<lparr>wh_id = ''w1'', wh_name = ''north'', wh_location = ''here'', wh_created_at = 0\<rparr>,
       \<lparr>wh_id = ''w2'', wh_name = ''south'', wh_location = ''there'', wh_created_at = 0\<rparr>]\<rparr>"

definition ids :: "nat \<Rightarrow> string" where
  "ids = digit_chars"

definition opened :: "db \<Rightarrow> session" where
  "opened d = \<lparr>committed = d, working = d, clock = 0, uuid_stream = ids, uuid_pos = 0\<rparr>"

definition toy_crypto :: crypto where
  "toy_crypto = \<lparr>hash_password = (\<lambda>p. p), verify_password = (=),
     jwt_encode = (\<lambda>claims. case map_of claims ''sub'' of Some (JStr i) \<Rightarrow> i | _ \<Rightarrow> []),
     jwt_decode = (\<lambda>_ t. if t = [] then None else Some [(''sub'', JStr t)]), jwt_expire_minutes = 60\<rparr>"

definition no_detail :: "api_request \<Rightarrow> json" where
  "no_detail _ = JNull"

definition call :: "string \<Rightarrow> api_request \<Rightarrow> session \<Rightarrow> http_response \<times> session" where
  "call token req = handle_request default_settings (\<lambda>x. []) toy_crypto no_detail (Some token) req"

text \<open>Requests one after the other; the responses' statuses and the last session.\<close>

fun calls :: "(string \<times> api_request) list \<Rightarrow> session \<Rightarrow> int list \<times> session" where
  "calls [] s = ([], s)"
| "calls ((t, q) # rest) s = (case call t q s of (r, s') \<Rightarrow>
     (case calls rest s' of (rs, s'') \<Rightarrow> (http_status r # rs, s'')))"

definition stocked :: session where
  "stocked = snd (calls [
     (''user_a'', ReqAdjust \<lparr>adj_product_id = ''p1'', adj_warehouse_id = ''w1'', adj_quantity = 5, adj_reason = ''in''\<rparr>),
     (''user_a'', ReqThreshold ''p1'' ''w1'' 2)] (opened shop))"

lemma calls_stream: "uuid_stream (snd (calls qs s)) = uuid_stream s"
proof (induction qs s rule: calls.induct)
  case (2 t q rest s)
  obtain r s' where run: "call t q s = (r, s')" by (cases "call t q s")
  with keeps_request [of default_settings "\<lambda>x. []" toy_crypto no_detail "Some t" q s] "2.IH" [OF run [symmetric]]
  show ?case by (simp add: call_def case_prod_beta)
qed simp

text \<open>The sessions the runs start from are evaluated once; a later evaluation begins at the value.\<close>

lemma session_value:
  "(committed s, working s, clock s, uuid_pos s) = (d, w, t, n) \<Longrightarrow> uuid_stream s = ids \<Longrightarrow>
     s = \<lparr>committed = d, working = w, clock = t, uuid_stream = ids, uuid_pos = n\<rparr>"
  by (cases s) simp

definition stocked_db :: db where
  "stocked_db = shop\<lparr>
    inventory :=
      [\<lparr>inv_id = ''inv_0'', inv_product_id = ''p1'',
          inv_warehouse_id = ''w1'', available_quantity = 5,
          reserved_quantity = 0, low_stock_threshold = Some 2,
          is_low_stock = False, inv_updated_at = 0\<rparr>],
    audit_logs :=
      [\<lparr>audit_id = ''audit_1'', audit_product_id = ''p1'',
          audit_warehouse_id = ''w1'', audit_change = 5,
          audit_type = STOCK_ADDED, audit_reference_id = ''in'',
          audit_created_at = 0\<rparr>]\<rparr>"

lemma stocked_value [code]:
  "stocked = \<lparr>committed = stocked_db, working = stocked_db, clock = 0, uuid_stream = ids, uuid_pos = 2\<rparr>"
proof (rule session_value)
  show "(committed stocked, working stocked, clock stocked, uuid_pos stocked) = (stocked_db, stocked_db, 0, 2)"
    by code_simp
qed (simp only: stocked_def calls_stream opened_def session.select_convs)

definition buy :: "int \<Rightarrow> order_request" where
  "buy q = \<lparr>req_items = [\<lparr>ol_product_id = ''p1'', ol_quantity = q\<rparr>], req_payment_token = ''success''\<rparr>"

lemma ran: "fst m = r \<Longrightarrow> m = (r, snd m)"
  by (cases m) simp

subsection \<open>The invariant on concrete runs\<close>

lemma shop_ok: "db_ok cfg shop"
  by (simp add: shop_def db_ok_def stock_sound_def stock_base_def reservations_ok_def conserved_def
      unique_pairs_def ledger_balanced_def alerts_announced_def available_of_def reserved_of_def
      account_def ledger_def held_def quantity_of_def orders_ok_def unique_orders_def idem_ok_def
      unique_keys_def events_ok_def empty_db_def)

lemma call_ok: "db_ok default_settings (committed s) \<Longrightarrow> db_ok default_settings (committed (snd (call t q s)))"
proof -
  assume ok: "db_ok default_settings (committed s)"
  obtain r s' where run: "call t q s = (r, s')" by (cases "call t q s")
  from db_change_ok [OF handle_request_refines(1) [OF run [unfolded call_def] ok] ok] run show ?thesis by simp
qed

lemma calls_ok: "db_ok default_settings (committed s) \<Longrightarrow> db_ok default_settings (committed (snd (calls qs s)))"
proof (induction qs s rule: calls.induct)
  case (2 t q rest s)
  obtain r s' where run: "call t q s = (r, s')" by (cases "call t q s")
  with call_ok [OF "2.prems", of t q] have "db_ok default_settings (committed s')" by simp
  from "2.IH" [OF run [symmetric] this] run show ?case by (cases "calls rest s'") simp
qed simp

lemma stocked_ok: "db_ok default_settings (committed stocked)"
  unfolding stocked_def by (rule calls_ok) (simp add: opened_def shop_ok)

definition held_shop :: session where
  "held_shop = snd (calls [(''user_c'', ReqCreateOrder (buy 4) (Some ''k''))] stocked)"

definition held_shop_db :: db where
  "held_shop_db = shop\<lparr>
    inventory :=
      [\<lparr>inv_id = ''inv_0'', inv_product_id = ''p1'',
          inv_warehouse_id = ''w1'', available_quantity = 1,
          reserved_quantity = 4, low_stock_threshold = Some 2,
          is_low_stock = True, inv_updated_at = 0\<rparr>],
    orders :=
      [\<lparr>ord_id = ''order_2'', ord_status = RESERVED, ord_total = 3996,
          ord_created_by_user_id = ''user_c'',
          ord_payment_token = ''success'', ord_processing_attempts = 0,
          ord_idempotency_key = Some ''k'', ord_created_at = 0,
          ord_updated_at = 0\<rparr>],
    order_items :=
      [\<lparr>item_id = ''item_6'', item_order_id = ''order_2'',
          item_product_id = ''p1'', item_warehouse_id = ''w1'',
          item_quantity = 4, item_unit_price = 999\<rparr>],
    reservations :=
      [\<lparr>resv_id = ''resv_7'', resv_order_id = ''order_2'',
          resv_product_id = ''p1'', resv_warehouse_id = ''w1'',
          resv_quantity = 4, resv_status = ACTIVE,
          resv_expires_at = 900000000, resv_created_at = 0,
          resv_released_at = None\<rparr>],
    audit_logs :=
      [\<lparr>audit_id = ''audit_1'', audit_product_id = ''p1'',
          audit_warehouse_id = ''w1'', audit_change = 5,
          audit_type = STOCK_ADDED, audit_reference_id = ''in'',
          audit_created_at = 0\<rparr>,
       \<lparr>audit_id = ''audit_3'', audit_product_id = ''p1'',
          audit_warehouse_id = ''w1'', audit_change = - 4,
          audit_type = INVENTORY_RESERVED, audit_reference_id = ''order_2'',
          audit_created_at = 0\<rparr>],
    idempotency_keys :=
      [\<lparr>idem_key = ''k'', idem_request_hash = [],
          idem_order_id = Some ''order_2'', idem_status = IDEM_COMPLETED,
          idem_response_body =
            Some
             (JObj
               [(''id'', JStr ''order_2''), (''status'', JStr ''RESERVED''),
                (''total'', JDec 3996),
                (''items'',
                 JArr
                  [JObj
                    [(''product_id'', JStr ''p1''), (''quantity'', JInt 4),
                     (''unit_price'', JDec 999)]]),
                (''created_at'', JTime 0), (''updated_at'', JTime 0)]),
          idem_created_at = 0\<rparr>],
    outbox_events :=
      [\<lparr>evt_id = ''outbox_5'', evt_aggregate_type = ''low_stock_alert'',
          evt_aggregate_id = ''lsa_4'',
          evt_event_type = ''LOW_STOCK_ALERT_CREATED'',
          evt_payload =
            JObj
             [(''alert_id'', JStr ''lsa_4''), (''product_id'', JStr ''p1''),
              (''warehouse_id'', JStr ''w1''),
              (''quantity_at_alert'', JInt 1), (''threshold'', JInt 2)],
          evt_status = OUTBOX_PENDING, evt_created_at = 0,
          evt_published_at = None\<rparr>,
       \<lparr>evt_id = ''outbox_8'', evt_aggregate_type = ''order'',
          evt_aggregate_id = ''order_2'',
          evt_event_type = ''ORDER_RESERVED'',
          evt_payload = JObj [(''order_id'', JStr ''order_2'')],
          evt_status = OUTBOX_PENDING, evt_created_at = 0,
          evt_published_at = None\<rparr>],
    low_stock_alerts :=
      [\<lparr>lsa_id = ''lsa_4'', lsa_product_id = ''p1'',
          lsa_warehouse_id = ''w1'', lsa_quantity_at_alert = 1,
          lsa_threshold = 2, lsa_created_at = 0\<rparr>]\<rparr>"

lemma held_shop_value [code]:
  "held_shop = \<lparr>committed = held_shop_db, working = held_shop_db, clock = 0, uuid_stream = ids, uuid_pos = 9\<rparr>"
proof (rule session_value)
  show "(committed held_shop, working held_shop, clock held_shop, uuid_pos held_shop) = (held_shop_db, held_shop_db, 0, 9)"
    by code_simp
qed (simp only: held_shop_def calls_stream stocked_value session.select_convs)

lemma held_shop_facts:
  "db_ok default_settings (committed held_shop)" "working held_shop = committed held_shop"
proof -
  show "db_ok default_settings (committed held_shop)" unfolding held_shop_def by (rule calls_ok) (rule stocked_ok)
  show "working held_shop = committed held_shop" by (simp add: held_shop_value)
qed

end
