(* ===== verification/Stock_Properties.thy ===== *)
theory Stock_Properties
  imports Contention Sample
begin

text \<open>
  What the inventory repository, the inventory service and the threshold service promise: which
  warehouse is chosen, how each guarded statement moves an account, what contention can and cannot
  do, when an alert is raised, and what adjustments and thresholds change.
\<close>

section \<open>Guarded statements\<close>

text \<open>
  C21. \<open>find_best_warehouse\<close> never raises. It returns a row of the product with at least the wanted
  quantity and with the most stock of the product's rows, and returns nothing only when every row of
  the product has too little.
\<close>

theorem warehouse_choice:
  assumes "find_best_warehouse p q s = (res, s')"
  shows "s' = s \<and> (\<exists>best. res = Inr best \<and>
    (best = None \<longleftrightarrow> (\<forall>r\<in>set (inventory (working s)). inv_product_id r = p \<longrightarrow> available_quantity r < q)) \<and>
    (\<forall>b. best = Some b \<longrightarrow> b \<in> set (inventory (working s)) \<and> inv_product_id b = p \<and> q \<le> available_quantity b \<and>
      (\<forall>r\<in>set (inventory (working s)). inv_product_id r = p \<longrightarrow> available_quantity r \<le> available_quantity b)))"
proof -
  from assms find_best_warehouse_no_error [of p q s] obtain best where res: "res = Inr best" by (cases res) auto
  show ?thesis
  proof (cases best)
    case None
    with assms res find_best_warehouse_None [of p q s s'] show ?thesis by simp
  next
    case (Some b)
    note f = find_best_warehouse_Some [OF assms [unfolded res Some]]
    have "\<not> (\<forall>r\<in>set (inventory (working s)). inv_product_id r = p \<longrightarrow> available_quantity r < q)"
      using f(2-4) by (auto simp: not_less)
    with f res Some show ?thesis by auto
  qed
qed

theorem warehouse_choice_witness:
  "\<exists>b. find_best_warehouse ''p1'' 3 stocked = (Inr (Some b), stocked) \<and> available_quantity b = 5 \<and>
     inv_product_id b = ''p1''"
proof -
  let ?r = "fst (find_best_warehouse ''p1'' 3 stocked)"
  have run: "find_best_warehouse ''p1'' 3 stocked = (?r, snd (find_best_warehouse ''p1'' 3 stocked))" by simp
  have val: "map_option available_quantity (projr ?r) = Some 5" by code_simp
  from warehouse_choice [OF run] obtain best where best: "?r = Inr best"
    "\<forall>b. best = Some b \<longrightarrow> inv_product_id b = ''p1''" and s: "snd (find_best_warehouse ''p1'' 3 stocked) = stocked" by blast
  from val best(1) obtain b where b: "best = Some b" "available_quantity b = 5" by auto
  from run [unfolded s best(1) b(1)] best(2) b show ?thesis by blast
qed

text \<open>
  Each of the four statements that move stock is atomic and exact: it reports success precisely
  when its guard holds of the pair's account, moves that account as its specification says, and
  touches no other account.
\<close>

theorem stock_statements_move_accounts:
  assumes "(step, spec) \<in> {(try_reserve, reserve_spec), (inventory_release, release_spec),
      (inventory_consume, consume_spec), (adjust_available, adjust_spec)}"
    and "step p w q s = (Inr b, s')" and "unique_pairs (working s)"
  shows "(b \<longleftrightarrow> Option.bind (account (working s) (p, w)) (spec q) \<noteq> None) \<and>
    account (working s') = (if b then (account (working s))((p, w) := Option.bind (account (working s) (p, w)) (spec q))
      else account (working s))"
proof -
  have "stock_operation step spec"
    using assms(1) reserving.stock_operation_axioms releasing.stock_operation_axioms
      consuming.stock_operation_axioms adjusting.stock_operation_axioms by auto
  from stock_operation.account_step [OF this assms(2,3)] show ?thesis by blast
qed

theorem stock_statements_move_accounts_witness:
  "account (working (snd (try_reserve ''p1'' ''w1'' 4 stocked))) (''p1'', ''w1'') = Some (1, 4)"
proof -
  have "fst (try_reserve ''p1'' ''w1'' 4 stocked) = Inr True" by code_simp
  note run = ran [OF this]
  have "unique_pairs (working stocked)" unfolding unique_pairs_def by code_simp
  moreover have "account (working stocked) (''p1'', ''w1'') = Some (5, 0)" by code_simp
  ultimately show ?thesis
    using stock_statements_move_accounts [where step = try_reserve and spec = reserve_spec, OF _ run] by simp
qed

section \<open>Contention\<close>

text \<open>
  C20. However many clients reserve \<open>q\<close> units of one pair, in whatever order their statements run,
  exactly \<open>min(clients, stock div q)\<close> of them succeed, those units and no more leave the available
  quantity for the reserved one, and at most one low-stock alert is raised: exactly when the row
  becomes low.
\<close>

theorem contended_stock_is_granted_exactly:
  assumes "reserve_each p w q clients s = (Inr oks, s')" and "stock_sound [] (working s)" and "0 < q"
    and "r \<in> set (inventory (working s))" and "inv_key r = (p, w)" and "0 \<le> available_quantity r"
    and "n = min (length clients) (nat (available_quantity r div q))"
  shows "length (filter id oks) = n \<and>
    (\<exists>r'\<in>set (inventory (working s')). inv_key r' = (p, w) \<and> 0 \<le> available_quantity r' \<and>
       available_quantity r' = available_quantity r - q * int n \<and>
       reserved_quantity r' = reserved_quantity r + q * int n \<and>
       length (low_stock_alerts (working s')) = length (low_stock_alerts (working s)) +
         (if is_low_stock r' \<and> \<not> is_low_stock r then 1 else 0))"
proof -
  let ?k = "nat (available_quantity r div q)"
  from reserve_each_exact [OF assms(1-6)] obtain r' al where
    r': "r' \<in> set (inventory (working s'))" "granted_from q n r r'"
      "low_stock_alerts (working s') = low_stock_alerts (working s) @ al"
      "length al = (if is_low_stock r' \<and> \<not> is_low_stock r then 1 else 0)"
    and oks: "oks = map (\<lambda>j. j < ?k) [0..<length clients]" unfolding assms(7) by auto
  have "length (filter (\<lambda>j. j < k) [0..<m]) = min m k" for m k :: nat by (induction m) auto
  then have "length (filter id oks) = n" by (simp add: oks assms(7) filter_map comp_def)
  moreover have "q * int n \<le> q * (available_quantity r div q)"
    using assms(3,6,7) by (intro mult_left_mono) (auto simp: pos_imp_zdiv_nonneg_iff of_nat_min)
  then have "q * int n \<le> available_quantity r"
    using assms(3) by (metis mult_div_mod_eq add_increasing2 order_trans pos_mod_sign order_refl)
  ultimately show ?thesis using r' assms(5) by (intro conjI bexI [of _ r']) (simp_all add: granted_from_def)
qed

definition stocked_row :: inventory_row where
  "stocked_row = hd (inventory (working stocked))"

lemma stocked_row_facts:
  "stocked_row \<in> set (inventory (working stocked))" "inv_key stocked_row = (''p1'', ''w1'')"
  "available_quantity stocked_row = 5" "stock_sound [] (working stocked)"
proof -
  have "working stocked = committed stocked" by code_simp
  then show "stock_sound [] (working stocked)" using db_okD(1) [OF stocked_ok] by simp
qed code_simp+

theorem contended_stock_is_granted_exactly_witness:
  "\<exists>oks s' r'. reserve_each ''p1'' ''w1'' 2 [''o1'', ''o2'', ''o3''] stocked = (Inr oks, s') \<and>
     length (filter id oks) = 2 \<and> r' \<in> set (inventory (working s')) \<and> available_quantity r' = 1"
proof -
  let ?run = "reserve_each ''p1'' ''w1'' 2 [''o1'', ''o2'', ''o3''] stocked"
  have "fst ?run = Inr [True, True, False]" by code_simp
  from ran [OF this] obtain s' where run: "?run = (Inr [True, True, False], s')" by blast
  from contended_stock_is_granted_exactly [OF run stocked_row_facts(4) _ stocked_row_facts(1,2) _ refl]
  obtain r' where "r' \<in> set (inventory (working s'))" "available_quantity r' = 1"
    using stocked_row_facts(3) by auto
  with run show ?thesis
    by (intro exI [of _ "[True, True, False]"] exI [of _ s'] exI [of _ r']) (simp del: reserve_each.simps)
qed

text \<open>
  C22. A reservation moves stock once. After it was released (or consumed), releasing or consuming it
  again, by whichever caller, reports False and changes nothing.
\<close>

theorem settled_once:
  assumes "settle \<in> {release_reservation, consume_reservation}" "again \<in> {release_reservation, consume_reservation}"
    and "r \<in> set (reservations (working s))" "resv_status r = ACTIVE" "stock_sound [] (working s)"
    and "settle r ref s = (Inr b, s1)" and "again r ref' s1 = (Inr b', s2)"
  shows "b \<and> \<not> b' \<and> s2 = s1"
proof -
  have first: "b \<and> stock_sound [] (working s1) \<and>
    (\<forall>x\<in>set (reservations (working s1)). resv_id x = resv_id r \<longrightarrow> resv_status x \<noteq> ACTIVE)"
    using assms(1,6) releasing_r.settle_done [OF _ assms(5,3,4)] consuming_r.settle_done [OF _ assms(5,3,4)]
    by (elim insertE emptyE) metis+
  then have "distinct (map resv_id (reservations (working s1)))" using stock_soundD(5) by blast
  with first assms(2,7) releasing_r.settle_inactive consuming_r.settle_inactive show ?thesis
    by (elim insertE emptyE) metis+
qed

theorem settled_once_witness:
  "\<exists>r s1 s2. release_reservation r ''x'' held_shop = (Inr True, s1) \<and>
     consume_reservation r ''y'' s1 = (Inr False, s2) \<and> s2 = s1"
proof -
  let ?r = "hd (reservations (working held_shop))"
  let ?one = "release_reservation ?r ''x'' held_shop" and ?two = "consume_reservation ?r ''y'' (snd (release_reservation ?r ''x'' held_shop))"
  have r: "?r \<in> set (reservations (working held_shop))" "resv_status ?r = ACTIVE" by code_simp+
  have "fst ?one = Inr True" "fst ?two = Inr False" by code_simp+
  note run = this [THEN ran]
  have "stock_sound [] (working held_shop)" using db_okD(1) [OF held_shop_facts(1)] held_shop_facts(2) by simp
  from settled_once [of release_reservation consume_reservation, OF _ _ r this run] run show ?thesis by auto
qed

section \<open>Alerts\<close>

text \<open>
  C24. The low-stock check after a change of stock: the flag of the pair rises exactly when a decrease
  left at most the threshold, falls exactly when an increase left more than the threshold, and
  nothing else about the row changes. One alert, and one outbox event that announces it, are written
  exactly when the flag rises.
\<close>

theorem alert_exactly_on_crossing:
  assumes "check_low_stock_transition p w delta s = (Inr u, s')" and "unique_pairs (working s)"
    and "r \<in> set (inventory (working s))" and "inv_key r = (p, w)"
  shows "\<exists>r' al es. r' \<in> set (inventory (working s')) \<and> same_stock r r' \<and>
    is_low_stock r' = (case low_stock_threshold r of None \<Rightarrow> is_low_stock r
      | Some t \<Rightarrow> if delta < 0 then is_low_stock r \<or> available_quantity r \<le> t
          else if delta > 0 then is_low_stock r \<and> available_quantity r \<le> t else is_low_stock r) \<and>
    low_stock_alerts (working s') = low_stock_alerts (working s) @ al \<and>
    outbox_events (working s') = outbox_events (working s) @ es \<and> list_all2 alert_event al es \<and>
    length al = (if is_low_stock r' \<and> \<not> is_low_stock r then 1 else 0)"
proof -
  from check_low_stock_transition_effect [OF assms(1,2)] obtain h al es where
    w': "working s' = (working s)\<lparr>inventory := map h (inventory (working s)),
        low_stock_alerts := low_stock_alerts (working s) @ al, outbox_events := outbox_events (working s) @ es\<rparr>"
    and es: "list_all2 alert_event al es"
    and rows: "\<forall>r\<in>set (inventory (working s)). same_stock r (h r) \<and>
        (if inv_key r = (p, w)
         then is_low_stock (h r) = flag_after delta (low_stock_threshold r) (available_quantity r) (is_low_stock r) \<and>
              (if row_crosses delta r then \<exists>a. al = [a] \<and> alert_of r a else al = [])
         else h r = r)" by blast
  from rows [rule_format, OF assms(3)] assms(4)
  have same: "same_stock r (h r)"
    and flag: "is_low_stock (h r) = flag_after delta (low_stock_threshold r) (available_quantity r) (is_low_stock r)"
    and al: "if row_crosses delta r then \<exists>a. al = [a] \<and> alert_of r a else al = []" by simp_all
  have "length al = (if is_low_stock (h r) \<and> \<not> is_low_stock r then 1 else 0)"
    using al flag by (auto simp: crosses_def flag_after_def split: if_splits option.splits)
  moreover have "h r \<in> set (inventory (working s'))" using assms(3) by (simp add: w')
  ultimately show ?thesis using same flag es w'
    by (intro exI [of _ "h r"] exI [of _ al] exI [of _ es])
      (auto simp: flag_after_def not_less split: option.splits)
qed

theorem alert_exactly_on_crossing_witness:
  "\<exists>s s'. check_low_stock_transition ''p1'' ''w1'' (-4) s = (Inr (), s') \<and>
     length (low_stock_alerts (working s')) = length (low_stock_alerts (working s)) + 1"
proof -
  define s where "s = snd (try_reserve ''p1'' ''w1'' 4 stocked)"
  let ?r = "hd (inventory (working s))"
  have "fst (check_low_stock_transition ''p1'' ''w1'' (-4) s) = Inr ()" unfolding s_def by code_simp
  from ran [OF this] obtain s' where run: "check_low_stock_transition ''p1'' ''w1'' (-4) s = (Inr (), s')" by blast
  have u: "unique_pairs (working s)" unfolding unique_pairs_def s_def by code_simp
  have r: "?r \<in> set (inventory (working s))" "inv_key ?r = (''p1'', ''w1'')" unfolding s_def by code_simp+
  have low: "\<not> is_low_stock ?r \<and> low_stock_threshold ?r = Some 2 \<and> available_quantity ?r = 1"
    unfolding s_def by code_simp
  from alert_exactly_on_crossing [OF run u r] low run show ?thesis by force
qed

section \<open>Adjustments and thresholds\<close>

text \<open>
  C25. An accepted adjustment adds its signed quantity to the pair's available stock (a pair without a
  row starts from zero), leaves reserved stock and every other pair alone, appends exactly one audit
  record with the quantity and the reason, and is committed.
\<close>

theorem adjustment_effect:
  assumes "create_adjustment p s = (Inr row, s')" and "unique_pairs (working s)"
    and "k = (adj_product_id p, adj_warehouse_id p)"
  shows "\<exists>a v log. (account (working s) k = Some (a, v) \<or> account (working s) k = None \<and> a = 0 \<and> v = 0) \<and>
    0 \<le> a + adj_quantity p \<and>
    account (committed s') = (account (working s))(k \<mapsto> (a + adj_quantity p, v)) \<and>
    audit_logs (committed s') = audit_logs (working s) @ [log] \<and>
    audit_of k (adjustment_event_type (adj_quantity p)) (adj_quantity p) (adj_reason p) log"
proof -
  from commit_then_read [OF assms(1) [unfolded create_adjustment_def] in_transaction_adjustment in_transaction_service(4)]
  obtain x t where "apply_adjustment p s = (Inr x, t)" and s': "committed s' = working t" by auto
  from apply_adjustment_Inr [OF this(1) assms(2)] have adj: "adjusted p (working s) (committed s')" by (simp add: s')
  show ?thesis
  proof (cases "k \<in> inv_key ` set (inventory (working s))")
    case True
    with adj assms(3) have ev: "stock_event k (adjust_spec (adj_quantity p)) (adj_quantity p)
        (adjustment_event_type (adj_quantity p)) (adj_quantity p) (adj_reason p) (working s) (committed s')"
      by (simp add: adjusted_def Let_def)
    from ev obtain log where "audit_logs (committed s') = audit_logs (working s) @ [log]"
      "audit_of k (adjustment_event_type (adj_quantity p)) (adj_quantity p) (adj_reason p) log"
      by (rule stock_eventE) auto
    moreover from ev obtain a v a' v' where "account (working s) k = Some (a, v)"
      "adjust_spec (adj_quantity p) (a, v) = Some (a', v')"
      "account (committed s') = (account (working s))(k \<mapsto> (a', v'))"
      by (rule stock_event_account) blast
    ultimately show ?thesis by (auto split: if_splits)
  next
    case False
    with adj assms(3) obtain x log where x: "0 \<le> adj_quantity p" "inv_key x = k" "row_account x = (adj_quantity p, 0)"
      "audit_of k STOCK_ADDED (adj_quantity p) (adj_reason p) log"
      "committed s' = (working s)\<lparr>inventory := inventory (working s) @ [x], audit_logs := audit_logs (working s) @ [log]\<rparr>"
      by (auto simp: adjusted_def Let_def)
    have "account (committed s') = (account (working s))(k \<mapsto> (adj_quantity p, 0))"
      using account_append [of "committed s'" "working s" x] False x by simp
    moreover have "account (working s) k = None" using False unfolding account_none_iff .
    ultimately show ?thesis using x by (auto simp: adjustment_event_type_def)
  qed
qed

definition take_two :: adjustment_request where
  "take_two = \<lparr>adj_product_id = ''p1'', adj_warehouse_id = ''w1'', adj_quantity = -2, adj_reason = ''damaged''\<rparr>"

theorem adjustment_effect_witness:
  "\<exists>row s'. create_adjustment take_two stocked = (Inr row, s') \<and> account (committed s') (''p1'', ''w1'') = Some (3, 0)"
proof -
  let ?m = "create_adjustment take_two stocked"
  have "fst ?m = Inr (projr (fst ?m))" by code_simp
  from ran [OF this] obtain row s' where run: "?m = (Inr row, s')" by blast
  have "unique_pairs (working stocked)" unfolding unique_pairs_def by code_simp
  moreover have "account (working stocked) (''p1'', ''w1'') = Some (5, 0)" by code_simp
  ultimately show ?thesis
    using adjustment_effect [OF run _ refl] run by (auto simp: take_two_def)
qed

text \<open>
  A threshold below zero is refused. Otherwise setting it marks the pair low exactly when its
  stock is at most the threshold (a new pair starts empty and low), and writes no alert, no outbox
  event and no audit record, whatever the stock is: configuring is not a crossing.
\<close>

theorem threshold_effect:
  assumes "set_threshold p w t s = (Inr row, s')" and "r' \<in> set (inventory (committed s'))" and "inv_key r' = (p, w)"
  shows "0 \<le> t \<and> low_stock_threshold r' = Some t \<and> is_low_stock r' = (available_quantity r' \<le> t) \<and>
    low_stock_alerts (committed s') = low_stock_alerts (working s) \<and>
    outbox_events (committed s') = outbox_events (working s) \<and>
    audit_logs (committed s') = audit_logs (working s) \<and>
    (\<forall>k. account (committed s') k = (if k = (p, w) \<and> account (working s) k = None then Some (0, 0) else account (working s) k))"
proof -
  from commit_then_read [OF assms(1) [unfolded set_threshold_def] in_transaction_set_threshold in_transaction_service(4)]
  obtain x u where "set_threshold_write p w t s = (Inr x, u)" and s': "committed s' = working u" by auto
  from set_threshold_write_Inr [OF this(1)] have set: "threshold_set (p, w) t (working s) (committed s')" by (simp add: s')
  show ?thesis
  proof (cases "(p, w) \<in> inv_key ` set (inventory (working s))")
    case True
    with set obtain h where h: "committed s' = (working s)\<lparr>inventory := map h (inventory (working s))\<rparr>"
      "\<forall>r\<in>set (inventory (working s)). threshold_row (p, w) t r (h r)" and t: "0 \<le> t" by (auto simp: threshold_set_def)
    have "find (\<lambda>r. inv_key r = k) (map h rs) = map_option h (find (\<lambda>r. inv_key r = k) rs)"
      if "\<forall>r\<in>set rs. threshold_row (p, w) t r (h r)" for k rs
      using that by (intro find_map_key) (auto simp: threshold_row_def)
    moreover have "map_option row_account (map_option h (find P (inventory (working s)))) =
        map_option row_account (find P (inventory (working s)))" for P
    proof (cases "find P (inventory (working s))")
      case (Some x)
      then have "x \<in> set (inventory (working s))" by (auto simp: find_Some_iff)
      with h(2) have "row_account (h x) = row_account x" by (simp add: threshold_row_def)
      with Some show ?thesis by simp
    qed simp
    ultimately have "account (committed s') k = account (working s) k" for k
      using h by (simp add: account_def)
    moreover have "account (working s) (p, w) \<noteq> None" using True by (simp only: account_none_iff) simp
    moreover have "low_stock_threshold r' = Some t \<and> is_low_stock r' = (available_quantity r' \<le> t)"
      using assms(2,3) h by (auto simp: threshold_row_def split: if_splits)
    ultimately show ?thesis using t h(1) by auto
  next
    case False
    with set obtain x where x: "0 \<le> t" "inv_key x = (p, w)" "row_account x = (0, 0)" "low_stock_threshold x = Some t"
      "is_low_stock x" "committed s' = (working s)\<lparr>inventory := inventory (working s) @ [x]\<rparr>"
      by (auto simp: threshold_set_def)
    have "account (committed s') = (account (working s))((p, w) \<mapsto> (0, 0))"
      using account_append [of "committed s'" "working s" x] False x by simp
    moreover have "account (working s) (p, w) = None" using False unfolding account_none_iff .
    moreover have "r' = x" using assms(2,3) False x(6) by auto
    ultimately show ?thesis using x by (auto simp: row_account_def)
  qed
qed

theorem threshold_effect_witness:
  "\<exists>row s'. set_threshold ''p1'' ''w1'' 9 stocked = (Inr row, s') \<and> low_stock_alerts (committed s') = []"
proof -
  let ?m = "set_threshold ''p1'' ''w1'' 9 stocked"
  have ok: "fst ?m = Inr (projr (fst ?m))" by code_simp
  let ?r = "hd (inventory (committed (snd ?m)))"
  have "?r \<in> set (inventory (committed (snd ?m)))" "inv_key ?r = (''p1'', ''w1'')" by code_simp+
  from threshold_effect [OF ran [OF ok] this] have "low_stock_alerts (committed (snd ?m)) = low_stock_alerts (working stocked)"
    by blast
  moreover have "low_stock_alerts (working stocked) = []" by code_simp
  ultimately show ?thesis using ran [OF ok] by metis
qed

end
