(* ===== verification/Bootstrap.thy ===== *)
theory Bootstrap
  imports Access
begin

text \<open>
  \<open>src/bootstrap.py\<close>: the default administrator, created before the API starts unless a user with
  its email exists. Nothing is rolled back explicitly: closing the session drops what was not committed.
\<close>

definition ensure_default_admin :: "settings \<Rightarrow> crypto \<Rightarrow> unit op" where
  "ensure_default_admin cfg c = with_session
     (and_then (user_get_by_email (default_admin_email cfg)) (\<lambda>found.
      if found \<noteq> None then return ()
      else
        and_then (generate_id ''user'') (\<lambda>i. and_then now (\<lambda>n.
        and_then (user_create \<lparr>user_id = i, user_email = default_admin_email cfg,
           user_hashed_password = hash_password c (default_admin_password cfg),
           user_role = ADMIN, user_created_at = n\<rparr>) (\<lambda>_.
        commit)))))"

text \<open>A run changes nothing or adds the administrator.\<close>

lemma ensure_default_admin_found:
  assumes "user_get_by_email (default_admin_email cfg) (s\<lparr>working := committed s\<rparr>) = (Inr (Some x), s\<lparr>working := committed s\<rparr>)"
  shows "ensure_default_admin cfg c s = (Inr (), s\<lparr>working := committed s\<rparr>)"
  by (simp add: ensure_default_admin_def with_session_def and_then_def assms return_def)

lemma ensure_default_admin_fresh:
  assumes run: "ensure_default_admin cfg c s = (res, s')"
    and fresh: "default_admin_email cfg \<notin> user_email ` set (users (committed s))"
  shows "working s' = committed s'" and "clock s' = clock s"
    and "(\<exists>e. res = Inl e \<and> committed s' = committed s) \<or>
      (\<exists>u. res = Inr () \<and> check_user (committed s) u = None \<and>
         committed s' = (committed s)\<lparr>users := users (committed s) @ [u]\<rparr> \<and> user_email u = default_admin_email cfg \<and>
         user_role u = ADMIN \<and> user_hashed_password u = hash_password c (default_admin_password cfg))"
proof -
  let ?s = "s\<lparr>working := committed s\<rparr>"
  let ?u = "\<lparr>user_id = ''user_'' @ uuid_stream s (uuid_pos s), user_email = default_admin_email cfg,
    user_hashed_password = hash_password c (default_admin_password cfg), user_role = ADMIN, user_created_at = clock s\<rparr>"
  have "user_get_by_email (default_admin_email cfg) ?s = (Inr None, ?s)"
  proof -
    have "\<forall>r\<in>set (users (committed s)). user_email r \<noteq> default_admin_email cfg" using fresh by (metis image_eqI)
    then show ?thesis by (simp add: user_get_by_email_def select_one_None)
  qed
  then have eq: "ensure_default_admin cfg c s = (case check_user (committed s) ?u of
      Some e \<Rightarrow> (Inl e, ?s\<lparr>uuid_pos := Suc (uuid_pos s)\<rparr>)
    | None \<Rightarrow> (Inr (), s\<lparr>uuid_pos := Suc (uuid_pos s), working := (committed s)\<lparr>users := users (committed s) @ [?u]\<rparr>,
        committed := (committed s)\<lparr>users := users (committed s) @ [?u]\<rparr>\<rparr>))"
    by (simp add: ensure_default_admin_def with_session_def and_then_def generate_id_def now_def
        user_create_def exec_insert_def commit_def split: option.splits)
  show "working s' = committed s'" "clock s' = clock s"
    using run unfolding eq by (auto split: option.splits)
  show "(\<exists>e. res = Inl e \<and> committed s' = committed s) \<or>
      (\<exists>u. res = Inr () \<and> check_user (committed s) u = None \<and>
         committed s' = (committed s)\<lparr>users := users (committed s) @ [u]\<rparr> \<and> user_email u = default_admin_email cfg \<and>
         user_role u = ADMIN \<and> user_hashed_password u = hash_password c (default_admin_password cfg))"
    using run unfolding eq by (cases "check_user (committed s) ?u") (auto intro!: exI [of _ ?u])
qed

lemma ensure_default_admin_users:
  assumes run: "ensure_default_admin cfg c s = (res, s')"
  shows "committed s' = committed s \<or>
    (\<exists>u. check_user (committed s) u = None \<and> committed s' = (committed s)\<lparr>users := users (committed s) @ [u]\<rparr>)"
proof -
  let ?s = "s\<lparr>working := committed s\<rparr>"
  obtain found t where get: "user_get_by_email (default_admin_email cfg) ?s = (found, t)"
    by (cases "user_get_by_email (default_admin_email cfg) ?s")
  have t: "t = ?s" using get by (simp add: user_get_by_email_def select_one_def)
  show ?thesis
  proof (cases "found = Inr None")
    case True
    with get t have "default_admin_email cfg \<notin> user_email ` set (users (committed s))"
      by (auto simp: user_get_by_email_def select_one_None)
    from ensure_default_admin_fresh(3) [OF run this] show ?thesis by blast
  next
    case False
    with get t run have "committed s' = committed s"
      by (cases found) (auto simp: ensure_default_admin_def with_session_eq and_then_def return_def split: option.splits)
    then show ?thesis ..
  qed
qed

end
