(* ===== verification/System.thy ===== *)
theory System
  imports Refinement Bootstrap
begin

text \<open>
  The whole service: the database, the Celery queue and the workers that are between their two
  transactions. A step is one transaction of some process (an HTTP request, a poll of the relay, one
  half of the processing of an order, a pass of the cleanup, the bootstrap), the death of a worker, or
  the passing of time. Deliveries are arbitrary: any worker may be handed any order id at any moment, as often
  as it likes, which covers duplicates, retries and reordering.
\<close>

subsection \<open>The life of an order\<close>

fun lifecycle :: "order_status \<Rightarrow> order_status \<Rightarrow> bool" where
  "lifecycle PENDING t = (t = CANCELLED)"
| "lifecycle RESERVED t = (t \<in> {PROCESSING, CANCELLED, EXPIRED})"
| "lifecycle PROCESSING t = (t \<in> {COMPLETED, FAILED, RESERVED})"
| "lifecycle _ t = False"

lemma lifecycle_terminal: "lifecycle s t \<Longrightarrow> s \<notin> TERMINAL_ORDER_STATUSES"
  by (cases s) (auto simp: TERMINAL_ORDER_STATUSES_def)

text \<open>What a change may do to an order row.\<close>

definition row_step :: "change_label \<Rightarrow> order_row \<Rightarrow> order_row \<Rightarrow> bool" where
  "row_step lab r r' \<longleftrightarrow> same_order r r' \<and> (r' = r \<or>
     (lifecycle (ord_status r) (ord_status r') \<and>
      (ord_status r = PROCESSING \<longrightarrow> lab = Finishes (ord_id r)) \<and>
      ord_processing_attempts r' = ord_processing_attempts r + (if ord_status r' = PROCESSING then 1 else 0)))"

definition orders_step :: "change_label \<Rightarrow> db \<Rightarrow> db \<Rightarrow> bool" where
  "orders_step lab d d' \<longleftrightarrow> (\<exists>h new. orders d' = map h (orders d) @ new \<and>
     (\<forall>r\<in>set (orders d). row_step lab r (h r)) \<and>
     (\<forall>r\<in>set new. ord_status r = RESERVED \<and> ord_processing_attempts r = 0))"

lemma orders_stepI:
  "orders d' = map h (orders d) \<Longrightarrow> (\<And>r. r \<in> set (orders d) \<Longrightarrow> row_step lab r (h r)) \<Longrightarrow> orders_step lab d d'"
  unfolding orders_step_def by (rule exI [of _ h], rule exI [of _ "[]"]) simp

lemma row_step_refl [simp]: "row_step lab r r"
  by (simp add: row_step_def same_order_def)

lemma orders_step_same: "orders d' = orders d \<Longrightarrow> orders_step lab d d'"
  by (rule orders_stepI [where h = id]) simp_all

lemma order_closed_step:
  assumes closed: "order_closed f credit r st n d d'" and uniq: "unique_orders d" and r: "r \<in> set (orders d)"
    and st: "lifecycle (ord_status r) st" "st \<noteq> PROCESSING" "ord_status r = PROCESSING \<longrightarrow> lab = Finishes (ord_id r)"
  shows "orders_step lab d d'"
proof -
  let ?h = "\<lambda>x. if ord_id x = ord_id r then x\<lparr>ord_status := st,
    ord_processing_attempts := ord_processing_attempts r, ord_updated_at := n\<rparr> else x"
  have "orders d' = map ?h (orders d)"
    using closed by (auto simp: order_closed_def stock_frame_def update_where_def)
  then show ?thesis
  proof (rule orders_stepI)
    fix x assume "x \<in> set (orders d)"
    with unique_row [OF uniq [unfolded unique_orders_def] this r] st
    show "row_step lab x (?h x)" by (auto simp: row_step_def same_order_def)
  qed
qed

lemma put_back_step:
  assumes "put_back r n d d'" and uniq: "unique_orders d" and r: "r \<in> set (orders d)" "ord_status r = PROCESSING"
  shows "orders_step (Finishes (ord_id r)) d d'"
proof (rule orders_stepI [where h = "\<lambda>x. if ord_id x = ord_id r then x\<lparr>ord_status := RESERVED,
    ord_processing_attempts := ord_processing_attempts r, ord_updated_at := n\<rparr> else x"])
  fix x assume "x \<in> set (orders d)"
  with unique_row [OF uniq [unfolded unique_orders_def] this r(1)] r(2)
  show "row_step (Finishes (ord_id r)) x (if ord_id x = ord_id r then x\<lparr>ord_status := RESERVED,
    ord_processing_attempts := ord_processing_attempts r, ord_updated_at := n\<rparr> else x)"
    by (auto simp: row_step_def same_order_def)
qed (use assms(1) in \<open>simp add: put_back_def update_where_def\<close>)

lemma finish_outcome_step:
  assumes fin: "finish_outcome cfg r attempt outcome n d d'" and uniq: "unique_orders d"
    and r: "r \<in> set (orders d)" "ord_status r = PROCESSING"
  shows "orders_step (Finishes (ord_id r)) d d'"
proof (cases "pay_result outcome = PAY_SUCCESS")
  case True
  with fin have "order_closed consume_row (\<lambda>_. 0) r COMPLETED n d d'" by (simp add: finish_outcome_def)
  from order_closed_step [OF this uniq r(1)] r(2) show ?thesis by simp
next
  case failed: False
  show ?thesis
  proof (cases "pay_retryable outcome \<and> attempt < payment_max_attempts cfg")
    case True
    with fin failed put_back_step [OF _ uniq r] show ?thesis by (simp add: finish_outcome_def)
  next
    case False
    with fin failed obtain d1 where closed: "order_closed release_row (\<lambda>q. q) r FAILED n d d1"
      and "orders d' = orders d1" by (auto simp: finish_outcome_def)
    moreover have "orders_step (Finishes (ord_id r)) d d1"
      using order_closed_step [OF closed uniq r(1)] r(2) by simp
    ultimately show ?thesis by (simp add: orders_step_def)
  qed
qed

lemma begun_step:
  assumes "unique_orders d" and r: "r \<in> set (orders d)" "ord_status r = RESERVED"
  shows "orders_step lab d (d\<lparr>orders := update_where (\<lambda>x. ord_id x = ord_id r) (begun n) (orders d)\<rparr>)"
proof (rule orders_stepI [where h = "\<lambda>x. if ord_id x = ord_id r then begun n x else x"])
  fix x assume "x \<in> set (orders d)"
  with unique_row [OF assms(1) [unfolded unique_orders_def] this r(1)] r(2)
  show "row_step lab x (if ord_id x = ord_id r then begun n x else x)"
    by (auto simp: row_step_def same_order_def begun_def)
qed (simp add: update_where_def)

lemma order_placed_appends:
  assumes "order_placed cfg p u key claim found n d d' body"
  shows "\<exists>r irs. new_order p u key n (map fst irs) r \<and> orders d' = orders d @ [r] \<and>
    reservations d' = reservations d @ map snd irs"
  using assms by (auto simp: order_placed_def stock_frame_def)

lemma db_change_orders:
  assumes "db_change cfg sha n lab d d'" and ok: "db_ok cfg d"
  shows "orders_step lab d d'"
  using assms(1)
proof (cases rule: db_change.cases)
  case (stock_adjusted a)
  then show ?thesis using adjusted_other_tables(3) by (auto intro: orders_step_same)
next
  case (threshold_changed k t)
  then show ?thesis using threshold_other_tables by (intro orders_step_same) blast
next
  case (order_created p key claim d1 u found body)
  from key_claimed_frame [OF order_created(3)] have "orders d1 = orders d" by fastforce
  with order_placed_appends [OF order_created(4)]
  have "\<exists>r items. new_order p u key n items r \<and> orders d' = orders d @ [r]" by auto
  then obtain r items where "new_order p u key n items r" "orders d' = orders d @ [r]" by blast
  then show ?thesis unfolding orders_step_def new_order_def
    by (intro exI [of _ id] exI [of _ "[r]"]) simp
next
  case (order_cancelled r)
  then show ?thesis using db_okD(5) [OF ok]
    by (intro order_closed_step [OF order_cancelled(4)]) (auto simp: CANCELLABLE_ORDER_STATUSES_def)
next
  case (order_begun r)
  then show ?thesis using begun_step [OF db_okD(5) [OF ok]] by simp
next
  case (order_finished r attempt outcome)
  then show ?thesis using finish_outcome_step [OF _ db_okD(5) [OF ok]] by simp
next
  case (reservations_expired limit batch)
  show ?thesis
    by (rule orders_stepI [OF batch_expiredD(4) [OF reservations_expired(2)]])
      (auto simp: expire_orders_def row_step_def same_order_def)
qed (simp_all add: orders_step_same)

subsection \<open>The outbox and the reservations\<close>

definition outbox_grows :: "db \<Rightarrow> db \<Rightarrow> bool" where
  "outbox_grows d d' \<longleftrightarrow> (\<exists>new. outbox_events d' = outbox_events d @ new \<and>
     (\<forall>e\<in>set new. evt_status e = OUTBOX_PENDING))"

lemma outbox_grows_same: "outbox_events d' = outbox_events d \<Longrightarrow> outbox_grows d d'"
  by (simp add: outbox_grows_def)

lemma stock_frame_outbox: "stock_frame d d' \<Longrightarrow> outbox_grows d d'"
  unfolding stock_frame_def outbox_grows_def by blast

lemma outbox_grows_cong: "outbox_grows d d' \<Longrightarrow> outbox_events d'' = outbox_events d' \<Longrightarrow> outbox_grows d d''"
  by (simp add: outbox_grows_def)

lemma order_closed_outbox: "order_closed f credit r st n d d' \<Longrightarrow> outbox_grows d d'"
  unfolding order_closed_def by (elim exE conjE) (auto dest!: stock_frame_outbox elim: outbox_grows_cong)

lemma order_placed_outbox: "order_placed cfg p u key claim found n d d' body \<Longrightarrow> outbox_grows d d'"
  unfolding order_placed_def outbox_grows_def order_event_def stock_frame_def
  by (elim exE conjE) (auto simp: ball_Un)

lemma finish_outcome_outbox: "finish_outcome cfg r attempt outcome n d d' \<Longrightarrow> outbox_grows d d'"
  by (auto simp: finish_outcome_def put_back_def dest: order_closed_outbox
      intro: outbox_grows_same outbox_grows_cong [OF order_closed_outbox] split: if_splits)

lemma adjusted_outbox:
  assumes "adjusted a d d'"
  shows "outbox_grows d d'"
proof (cases "(adj_product_id a, adj_warehouse_id a) \<in> inv_key ` set (inventory d)")
  case True
  with assms have "stock_event (adj_product_id a, adj_warehouse_id a) (adjust_spec (adj_quantity a))
      (adj_quantity a) (adjustment_event_type (adj_quantity a)) (adj_quantity a) (adj_reason a) d d'"
    by (simp add: adjusted_def Let_def)
  from stock_frame_outbox [OF stock_event_frame(1) [OF this]] show ?thesis .
next
  case False
  with assms show ?thesis by (auto simp: adjusted_def Let_def intro: outbox_grows_same)
qed

lemma db_change_outbox:
  assumes "db_change cfg sha n lab d d'" and "lab \<noteq> Publishes"
  shows "outbox_grows d d'"
  using assms(1)
proof (cases rule: db_change.cases)
  case (threshold_changed k t)
  then show ?thesis by (intro outbox_grows_same) (auto simp: threshold_set_def split: if_splits)
next
  case (order_created p key claim d1 u found body)
  from order_placed_outbox [OF order_created(4)] key_claimed_frame [OF order_created(3)]
  show ?thesis by (auto simp: outbox_grows_def)
next
  case (reservations_expired limit batch)
  from stock_frame_outbox [OF batch_expiredD(6) [OF reservations_expired(2), unfolded tables_frame_def]]
  show ?thesis by (simp add: outbox_grows_def)
qed (use assms(2) in \<open>auto intro: outbox_grows_same dest: adjusted_outbox order_closed_outbox finish_outcome_outbox\<close>)

subsection \<open>States and steps of the service\<close>

text \<open>A worker between its two transactions: the order it holds, its attempt, and the payment's outcome.\<close>

record job =
  job_order :: ident
  job_attempt :: int
  job_outcome :: payment_outcome

record system =
  sys_session :: session
  sys_queue :: "task_message list"
  sys_jobs :: "job list"

definition job_of :: "order_row \<Rightarrow> job" where
  "job_of order = \<lparr>job_order = ord_id order, job_attempt = ord_processing_attempts order,
     job_outcome = charge (ord_payment_token order)\<rparr>"

inductive sys_step ::
  "settings \<Rightarrow> (string \<Rightarrow> string) \<Rightarrow> crypto \<Rightarrow> (api_request \<Rightarrow> json) \<Rightarrow> system \<Rightarrow> system \<Rightarrow> bool"
  for cfg :: settings and sha :: "string \<Rightarrow> string" and c :: crypto and errors :: "api_request \<Rightarrow> json" where
  time_passes: "clock (sys_session st) \<le> t \<Longrightarrow>
    sys_step cfg sha c errors st (st\<lparr>sys_session := (sys_session st)\<lparr>clock := t\<rparr>\<rparr>)"
| http_request: "handle_request cfg sha c errors token req (sys_session st) = (resp, s') \<Longrightarrow>
    sys_step cfg sha c errors st (st\<lparr>sys_session := s'\<rparr>)"
| relay_poll: "relay_once broker (sys_queue st) (sys_session st) = (res, queue', s') \<Longrightarrow>
    sys_step cfg sha c errors st (st\<lparr>sys_session := s', sys_queue := queue'\<rparr>)"
| worker_begins: "begin_transaction i (sys_session st) = (Inr (Some order), s') \<Longrightarrow>
    sys_step cfg sha c errors st (st\<lparr>sys_session := s', sys_jobs := sys_jobs st @ [job_of order]\<rparr>)"
| worker_skips: "begin_transaction i (sys_session st) = (r, s') \<Longrightarrow> (\<exists>e. r = Inl e) \<or> r = Inr None \<Longrightarrow>
    sys_step cfg sha c errors st (st\<lparr>sys_session := s'\<rparr>)"
| worker_finishes: "j \<in> set (sys_jobs st) \<Longrightarrow>
    finish_transaction cfg (job_order j) (job_attempt j) (job_outcome j) (sys_session st) = (res, s') \<Longrightarrow>
    sys_step cfg sha c errors st (st\<lparr>sys_session := s', sys_jobs := remove1 j (sys_jobs st)\<rparr>)"
| worker_dies_failing: "j \<in> set (sys_jobs st) \<Longrightarrow> fails_for_good cfg (job_attempt j) (job_outcome j) \<Longrightarrow>
    fail_transaction (job_order j) (sys_session st) = (res, s') \<Longrightarrow>
    sys_step cfg sha c errors st (st\<lparr>sys_session := s', sys_jobs := remove1 j (sys_jobs st)\<rparr>)"
| worker_dies: "j \<in> set (sys_jobs st) \<Longrightarrow>
    sys_step cfg sha c errors st (st\<lparr>sys_jobs := remove1 j (sys_jobs st)\<rparr>)"
| cleanup_pass: "expire_pass BATCH_SIZE (sys_session st) = (res, s') \<Longrightarrow>
    sys_step cfg sha c errors st (st\<lparr>sys_session := s'\<rparr>)"
| bootstraps: "ensure_default_admin cfg c (sys_session st) = (res, s') \<Longrightarrow>
    sys_step cfg sha c errors st (st\<lparr>sys_session := s'\<rparr>)"

inductive_cases sys_stepE: "sys_step cfg sha c errors st st'"

text \<open>Every running job holds its own order, which is PROCESSING in the job's attempt.\<close>

definition job_ok :: "db \<Rightarrow> job \<Rightarrow> bool" where
  "job_ok d j \<longleftrightarrow> (\<exists>r\<in>set (orders d). ord_id r = job_order j \<and> ord_status r = PROCESSING \<and>
     ord_processing_attempts r = job_attempt j)"

definition sys_ok :: "settings \<Rightarrow> system \<Rightarrow> bool" where
  "sys_ok cfg st \<longleftrightarrow> db_ok cfg (committed (sys_session st)) \<and>
     published_enqueued (committed (sys_session st)) (sys_queue st) \<and>
     distinct (map job_order (sys_jobs st)) \<and> (\<forall>j\<in>set (sys_jobs st). job_ok (committed (sys_session st)) j)"

lemma sys_okD:
  "sys_ok cfg st \<Longrightarrow> db_ok cfg (committed (sys_session st))"
  "sys_ok cfg st \<Longrightarrow> published_enqueued (committed (sys_session st)) (sys_queue st)"
  "sys_ok cfg st \<Longrightarrow> distinct (map job_order (sys_jobs st))"
  "sys_ok cfg st \<Longrightarrow> j \<in> set (sys_jobs st) \<Longrightarrow> job_ok (committed (sys_session st)) j"
  by (simp_all add: sys_ok_def)

subsection \<open>What one change leaves of the jobs and of the outbox\<close>

lemma job_ok_step:
  assumes "orders_step lab d d'" and "job_ok d j" and "lab \<noteq> Finishes (job_order j)"
  shows "job_ok d' j"
proof -
  from assms(1) obtain h new where orders: "orders d' = map h (orders d) @ new"
    and rows: "\<forall>r\<in>set (orders d). row_step lab r (h r)" by (auto simp: orders_step_def)
  from assms(2) obtain r where r: "r \<in> set (orders d)" "ord_id r = job_order j" "ord_status r = PROCESSING"
    "ord_processing_attempts r = job_attempt j" by (auto simp: job_ok_def)
  with rows assms(3) have "h r = r" by (auto simp: row_step_def)
  with r show ?thesis by (force simp: job_ok_def orders)
qed

lemma published_enqueued_grows:
  "published_enqueued d q \<Longrightarrow> outbox_grows d d' \<Longrightarrow> published_enqueued d' q"
  by (auto simp: published_enqueued_def outbox_grows_def)

lemma sys_ok_quiet:
  assumes ok: "sys_ok cfg st" and ch: "db_change cfg sha n Quiet (committed (sys_session st)) (committed s')"
  shows "sys_ok cfg (st\<lparr>sys_session := s'\<rparr>)"
proof -
  note d = sys_okD(1) [OF ok]
  have "job_ok (committed s') j" if "j \<in> set (sys_jobs st)" for j
    using job_ok_step [OF db_change_orders [OF ch d] sys_okD(4) [OF ok that]] by simp
  with db_change_ok [OF ch d] published_enqueued_grows [OF sys_okD(2) [OF ok] db_change_outbox [OF ch]]
    sys_okD(3) [OF ok] show ?thesis by (simp add: sys_ok_def)
qed

lemma remove_job:
  assumes "distinct (map job_order js)" and "j \<in> set js" and "x \<in> set (remove1 j js)"
  shows "job_order x \<noteq> job_order j" and "x \<in> set js"
  using assms by (auto simp: distinct_map inj_on_def set_remove1_eq)

lemma sys_ok_finished:
  assumes ok: "sys_ok cfg st" and j: "j \<in> set (sys_jobs st)"
    and ch: "db_change cfg sha n lab (committed (sys_session st)) (committed s')"
    and lab: "lab = Quiet \<or> lab = Finishes (job_order j)"
  shows "sys_ok cfg (st\<lparr>sys_session := s', sys_jobs := remove1 j (sys_jobs st)\<rparr>)"
proof -
  note d = sys_okD(1) [OF ok]
  have "job_ok (committed s') x" if "x \<in> set (remove1 j (sys_jobs st))" for x
    using job_ok_step [OF db_change_orders [OF ch d] sys_okD(4) [OF ok]]
      remove_job [OF sys_okD(3) [OF ok] j that] lab by auto
  moreover have "outbox_grows (committed (sys_session st)) (committed s')"
    using db_change_outbox [OF ch] lab by auto
  moreover have "distinct (map job_order (remove1 j (sys_jobs st)))"
    using sys_okD(3) [OF ok] by (simp add: distinct_map inj_on_def set_remove1_eq)
  ultimately show ?thesis
    using db_change_ok [OF ch d] published_enqueued_grows [OF sys_okD(2) [OF ok]] by (simp add: sys_ok_def)
qed

subsection \<open>Every step keeps the invariant\<close>

lemma begin_transaction_job:
  assumes run: "begin_transaction i s = (Inr (Some order), s')" and ok: "db_ok cfg (committed s)"
  shows "job_ok (committed s') (job_of order)" and "ord_id order = i"
    and "\<forall>r\<in>set (orders (committed s)). ord_id r = i \<longrightarrow> ord_status r = RESERVED"
proof -
  from begin_transaction_refines(2) [OF run ok refl] obtain x where
    x: "x \<in> set (orders (committed s))" "ord_id x = i" "ord_status x = RESERVED"
    and order: "order = x\<lparr>ord_processing_attempts := ord_processing_attempts x + 1\<rparr>"
    and s': "committed s' = (committed s)\<lparr>orders :=
      update_where (\<lambda>y. ord_id y = i) (begun (clock s)) (orders (committed s))\<rparr>" by blast
  from x(2) order show "ord_id order = i" by simp
  from x(1,2) have "begun (clock s) x \<in> set (orders (committed s'))" by (force simp: s' update_where_def)
  then show "job_ok (committed s') (job_of order)" unfolding job_ok_def
    by (rule rev_bexI) (simp add: order job_of_def begun_def)
  show "\<forall>r\<in>set (orders (committed s)). ord_id r = i \<longrightarrow> ord_status r = RESERVED"
    using unique_row [OF db_okD(5) [OF ok, unfolded unique_orders_def] _ x(1)] x(2,3) by auto
qed

lemma worker_begins_ok:
  assumes run: "begin_transaction i (sys_session st) = (Inr (Some order), s')" and ok: "sys_ok cfg st"
  shows "sys_ok cfg (st\<lparr>sys_session := s', sys_jobs := sys_jobs st @ [job_of order]\<rparr>)"
proof -
  note d = sys_okD(1) [OF ok]
  note b = begin_transaction_job [OF run d]
  have "sys_ok cfg (st\<lparr>sys_session := s'\<rparr>)" by (rule sys_ok_quiet [OF ok begin_transaction_refines(1) [OF run d]])
  moreover have "job_order j \<noteq> ord_id order" if "j \<in> set (sys_jobs st)" for j
    using sys_okD(4) [OF ok that] b(2,3) by (auto simp: job_ok_def)
  then have "job_order (job_of order) \<notin> job_order ` set (sys_jobs st)" by (simp add: job_of_def image_iff) metis
  ultimately show ?thesis using b(1) by (simp add: sys_ok_def)
qed

text \<open>A worker that ends, whether it comes to its end or dies between the two commits of a failure.\<close>

definition worker_ends :: "settings \<Rightarrow> job \<Rightarrow> session \<Rightarrow> session \<Rightarrow> bool" where
  "worker_ends cfg j s s' \<longleftrightarrow>
     (\<exists>res. finish_transaction cfg (job_order j) (job_attempt j) (job_outcome j) s = (res, s')) \<or>
     (fails_for_good cfg (job_attempt j) (job_outcome j) \<and> (\<exists>res. fail_transaction (job_order j) s = (res, s')))"

lemma worker_ends_change:
  assumes ends: "worker_ends cfg j (sys_session st) s'" and ok: "sys_ok cfg st" and j: "j \<in> set (sys_jobs st)"
  shows "\<exists>n lab. db_change cfg sha n lab (committed (sys_session st)) (committed s') \<and>
    (lab = Quiet \<or> lab = Finishes (job_order j))"
proof -
  from sys_okD(4) [OF ok j] obtain r where r: "r \<in> set (orders (committed (sys_session st)))"
    "ord_id r = job_order j" "ord_status r = PROCESSING" "ord_processing_attempts r = job_attempt j"
    by (auto simp: job_ok_def)
  from ends show ?thesis
    unfolding worker_ends_def
  proof (elim disjE exE conjE)
    fix res assume "finish_transaction cfg (job_order j) (job_attempt j) (job_outcome j) (sys_session st) = (res, s')"
    from finish_transaction_refines(1) [OF this sys_okD(1) [OF ok] r] show ?thesis by blast
  next
    fix res assume "fails_for_good cfg (job_attempt j) (job_outcome j)" "fail_transaction (job_order j) (sys_session st) = (res, s')"
    from fail_transaction_refines [OF this(2,1) sys_okD(1) [OF ok] r] show ?thesis by blast
  qed
qed

lemma worker_ends_ok:
  assumes "worker_ends cfg j (sys_session st) s'" and ok: "sys_ok cfg st" and j: "j \<in> set (sys_jobs st)"
  shows "sys_ok cfg (st\<lparr>sys_session := s', sys_jobs := remove1 j (sys_jobs st)\<rparr>)"
  using worker_ends_change [OF assms, where sha = "\<lambda>x. x"] sys_ok_finished [OF ok j] by blast

lemma relay_poll_ok:
  assumes run: "relay_once broker (sys_queue st) (sys_session st) = (res, queue', s')" and ok: "sys_ok cfg st"
  shows "sys_ok cfg (st\<lparr>sys_session := s', sys_queue := queue'\<rparr>)"
proof -
  note d = sys_okD(1) [OF ok]
  have "\<exists>n lab. db_change cfg (\<lambda>x. x) n lab (committed (sys_session st)) (committed s') \<and> (\<forall>i. lab \<noteq> Finishes i)"
    using relay_once_refines [OF run d] by blast
  then obtain n lab where ch: "db_change cfg (\<lambda>x. x) n lab (committed (sys_session st)) (committed s')"
    and lab: "\<And>i. lab \<noteq> Finishes i" by blast
  have "distinct (map evt_id (outbox_events (committed (sys_session st))))"
    using db_okD(4) [OF d] by (simp add: events_ok_def)
  from relay_once_published [OF run sys_okD(2) [OF ok] this] db_change_ok [OF ch d]
    job_ok_step [OF db_change_orders [OF ch d]] sys_okD(3,4) [OF ok] lab
  show ?thesis by (simp add: sys_ok_def)
qed

lemma bootstrap_refines:
  assumes "ensure_default_admin cfg c s = (res, s')"
  shows "db_change cfg sha n Quiet (committed s) (committed s')"
  using ensure_default_admin_users [OF assms] by (auto intro: db_change.unchanged db_change.user_added)

theorem sys_step_ok:
  assumes "sys_step cfg sha c errors st st'" and ok: "sys_ok cfg st"
  shows "sys_ok cfg st'"
  using assms(1)
proof (cases rule: sys_step.cases)
  case (time_passes t)
  with ok show ?thesis by (simp add: sys_ok_def)
next
  case (http_request token req resp s')
  with sys_ok_quiet [OF ok handle_request_refines(1) [OF this(2) sys_okD(1) [OF ok]]] show ?thesis by simp
next
  case (relay_poll broker res queue' s')
  with relay_poll_ok [OF _ ok] show ?thesis by blast
next
  case (worker_begins i order s')
  with worker_begins_ok [OF _ ok] show ?thesis by blast
next
  case (worker_skips i r s')
  with begin_transaction_refines(3) [OF this(2) sys_okD(1) [OF ok]] ok show ?thesis by (simp add: sys_ok_def)
next
  case (worker_finishes j res s')
  then have "worker_ends cfg j (sys_session st) s'" by (auto simp: worker_ends_def)
  from worker_ends_ok [OF this ok] worker_finishes show ?thesis by simp
next
  case (worker_dies_failing j res s')
  then have "worker_ends cfg j (sys_session st) s'" by (auto simp: worker_ends_def)
  from worker_ends_ok [OF this ok] worker_dies_failing show ?thesis by simp
next
  case (worker_dies j)
  moreover have "distinct (map job_order (remove1 j (sys_jobs st)))"
    using sys_okD(3) [OF ok] by (simp add: distinct_map inj_on_def set_remove1_eq)
  ultimately show ?thesis using ok set_remove1_subset by (fastforce simp: sys_ok_def)
next
  case (cleanup_pass res s')
  with sys_ok_quiet [OF ok expire_pass_refines [OF this(2) sys_okD(1) [OF ok], where sha = sha]]
  show ?thesis by simp
next
  case (bootstraps res s')
  with sys_ok_quiet [OF ok bootstrap_refines [OF this(2), where sha = sha and n = 0]] show ?thesis by simp
qed

end
