(* ===== verification/History.thy ===== *)
theory History
  imports System
begin

text \<open>
  What the database remembers along any run. Rows are never deleted; the audit log, the alerts, the
  dead letters, the items, the catalog and the completed idempotency keys are append-only; a
  published event stays published; a settled reservation and a terminal order are final.
\<close>

subsection \<open>Tables that grow\<close>

definition extends :: "('r \<Rightarrow> 'r \<Rightarrow> bool) \<Rightarrow> 'r list \<Rightarrow> 'r list \<Rightarrow> bool" where
  "extends R xs ys \<longleftrightarrow> length xs \<le> length ys \<and> (\<forall>i<length xs. R (xs ! i) (ys ! i))"

lemma extends_map: "(\<And>x. x \<in> set xs \<Longrightarrow> R x (h x)) \<Longrightarrow> extends R xs (map h xs @ new)"
  by (simp add: extends_def nth_append)

lemma extends_map_only: "(\<And>x. x \<in> set xs \<Longrightarrow> R x (h x)) \<Longrightarrow> extends R xs (map h xs)"
  using extends_map [of xs R h "[]"] by simp

lemma extends_append: "(\<And>x. R x x) \<Longrightarrow> extends R xs (xs @ new)"
  using extends_map [of xs R id new] by simp

lemma extends_refl: "(\<And>x. R x x) \<Longrightarrow> extends R xs xs"
  by (simp add: extends_def)

lemma extends_trans:
  "(\<And>x y z. R x y \<Longrightarrow> R y z \<Longrightarrow> R x z) \<Longrightarrow> extends R xs ys \<Longrightarrow> extends R ys zs \<Longrightarrow> extends R xs zs"
  unfolding extends_def by (meson le_trans less_le_trans)

lemma extends_member: "extends R xs ys \<Longrightarrow> x \<in> set xs \<Longrightarrow> \<exists>y\<in>set ys. R x y"
  unfolding extends_def in_set_conv_nth by (metis in_set_conv_nth less_le_trans)

lemma extends_eq: "extends (=) xs ys \<longleftrightarrow> (\<exists>new. ys = xs @ new)"
proof
  assume "extends (=) xs ys"
  then have "take (length xs) ys = xs" by (intro nth_equalityI) (simp_all add: extends_def)
  then have "ys = xs @ drop (length xs) ys" by (metis append_take_drop_id)
  then show "\<exists>new. ys = xs @ new" by blast
qed (auto simp: extends_def nth_append)

definition order_kept :: "order_row \<Rightarrow> order_row \<Rightarrow> bool" where
  "order_kept r r' \<longleftrightarrow> same_order r r' \<and> (ord_status r \<in> TERMINAL_ORDER_STATUSES \<longrightarrow> r' = r) \<and>
     ord_processing_attempts r \<le> ord_processing_attempts r'"

definition resv_kept :: "reservation \<Rightarrow> reservation \<Rightarrow> bool" where
  "resv_kept x y \<longleftrightarrow> y = x \<or> (resv_status x = ACTIVE \<and> resv_status y \<noteq> ACTIVE \<and>
     y = x\<lparr>resv_status := resv_status y, resv_released_at := resv_released_at y\<rparr>)"

definition event_kept :: "outbox_event \<Rightarrow> outbox_event \<Rightarrow> bool" where
  "event_kept e e' \<longleftrightarrow> (evt_status e = OUTBOX_PUBLISHED \<longrightarrow> e' = e) \<and>
     e' = e\<lparr>evt_status := evt_status e', evt_published_at := evt_published_at e'\<rparr>"

lemma order_kept_refl [simp]: "order_kept r r" and resv_kept_refl [simp]: "resv_kept x x"
  and event_kept_refl [simp]: "event_kept e e"
  by (simp_all add: order_kept_def same_order_def resv_kept_def event_kept_def)

lemma order_kept_trans: "order_kept x y \<Longrightarrow> order_kept y z \<Longrightarrow> order_kept x z"
  by (auto simp: order_kept_def same_order_def)

lemma resv_kept_trans: "resv_kept x y \<Longrightarrow> resv_kept y z \<Longrightarrow> resv_kept x z"
  by (auto simp: resv_kept_def)

lemma event_kept_trans: "event_kept x y \<Longrightarrow> event_kept y z \<Longrightarrow> event_kept x z"
  unfolding event_kept_def by (cases x; cases y; cases z) auto

lemma row_step_kept: "row_step lab r r' \<Longrightarrow> order_kept r r'"
  using lifecycle_terminal by (auto simp: row_step_def order_kept_def same_order_def)

subsection \<open>The history of a database\<close>

definition history :: "db \<Rightarrow> db \<Rightarrow> bool" where
  "history d d' \<longleftrightarrow> extends (=) (users d) (users d') \<and> extends (=) (products d) (products d') \<and>
     extends (=) (warehouses d) (warehouses d') \<and> extends order_kept (orders d) (orders d') \<and>
     extends (=) (order_items d) (order_items d') \<and> extends resv_kept (reservations d) (reservations d') \<and>
     extends (=) (audit_logs d) (audit_logs d') \<and> extends (=) (idempotency_keys d) (idempotency_keys d') \<and>
     extends event_kept (outbox_events d) (outbox_events d') \<and> extends (=) (dead_letters d) (dead_letters d') \<and>
     extends (=) (low_stock_alerts d) (low_stock_alerts d')"

lemma historyD:
  assumes "history d d'"
  shows "extends order_kept (orders d) (orders d')" "extends resv_kept (reservations d) (reservations d')"
    "extends event_kept (outbox_events d) (outbox_events d')"
    "(\<exists>l. audit_logs d' = audit_logs d @ l) \<and> (\<exists>l. low_stock_alerts d' = low_stock_alerts d @ l) \<and>
     (\<exists>l. dead_letters d' = dead_letters d @ l) \<and> (\<exists>l. order_items d' = order_items d @ l) \<and>
     (\<exists>l. idempotency_keys d' = idempotency_keys d @ l) \<and> (\<exists>l. users d' = users d @ l) \<and>
     (\<exists>l. products d' = products d @ l) \<and> (\<exists>l. warehouses d' = warehouses d @ l)"
  using assms by (simp_all add: history_def extends_eq)

lemmas extends_simps = extends_refl extends_append

lemma history_refl: "history d d"
  by (simp add: history_def extends_simps)

lemma history_trans: "history d d' \<Longrightarrow> history d' d'' \<Longrightarrow> history d d''"
  unfolding history_def
  by (elim conjE, intro conjI)
    ((rule extends_trans [where R = "(=)"] extends_trans [OF order_kept_trans] extends_trans [OF resv_kept_trans]
      extends_trans [OF event_kept_trans]; (assumption | simp; fail))+)

lemma orders_step_kept: "orders_step lab d d' \<Longrightarrow> extends order_kept (orders d) (orders d')"
  unfolding orders_step_def by (elim exE conjE) (metis extends_map row_step_kept)

lemma stock_frame_history:
  assumes "stock_frame d d1" and "extends resv_kept (reservations d) (reservations d1)"
  shows "history d d1"
  using assms by (auto simp: stock_frame_def history_def extends_simps)

lemma order_closed_history:
  assumes closed: "order_closed f credit r st n d d'" and f: "\<And>x. resv_status x = ACTIVE \<Longrightarrow> resv_kept x (f n x)"
    and ord: "extends order_kept (orders d) (orders d')"
  shows "history d d'"
proof -
  from closed obtain d1 t where fr: "stock_frame d d1" and resv: "reservations d1 =
       update_where (\<lambda>x. resv_order_id x = ord_id r \<and> resv_status x = ACTIVE) (f n) (reservations d)"
    and d': "d' = d1\<lparr>orders := t\<rparr>" by (auto simp: order_closed_def)
  have "extends resv_kept (reservations d) (reservations d1)"
    unfolding resv update_where_def by (rule extends_map_only) (simp add: f)
  from stock_frame_history [OF fr this] ord show ?thesis by (simp add: history_def d')
qed

lemma settled_kept: "resv_status x = ACTIVE \<Longrightarrow> resv_kept x (release_row n x)"
  "resv_status x = ACTIVE \<Longrightarrow> resv_kept x (consume_row n x)"
  by (simp_all add: resv_kept_def)

text \<open>Tables that a change leaves alone, and the two it may rewrite.\<close>

lemma history_of_tables:
  assumes "users d' = users d" "products d' = products d" "warehouses d' = warehouses d"
    "order_items d' = order_items d" "idempotency_keys d' = idempotency_keys d"
    "outbox_events d' = outbox_events d" "low_stock_alerts d' = low_stock_alerts d"
    and "extends order_kept (orders d) (orders d')" "extends resv_kept (reservations d) (reservations d')"
    "extends (=) (audit_logs d) (audit_logs d')" "extends (=) (dead_letters d) (dead_letters d')"
  shows "history d d'"
  using assms by (simp add: history_def extends_simps)

lemma history_dead_letters: "history d d1 \<Longrightarrow> history d (d1\<lparr>dead_letters := dead_letters d1 @ l\<rparr>)"
  by (auto simp: history_def extends_eq)

lemma finish_outcome_history:
  assumes fin: "finish_outcome cfg r attempt outcome n d d'" and uniq: "unique_orders d"
    and r: "r \<in> set (orders d)" "ord_status r = PROCESSING"
  shows "history d d'"
proof -
  note kept = orders_step_kept [OF finish_outcome_step [OF fin uniq r]]
  from fin consider
      (completed) "order_closed consume_row (\<lambda>_. 0) r COMPLETED n d d'"
    | (put_back) "put_back r n d d'"
    | (failed) d1 l where "order_closed release_row (\<lambda>q. q) r FAILED n d d1" "d' = d1\<lparr>dead_letters := dead_letters d1 @ l\<rparr>"
    by (auto simp: finish_outcome_def split: if_splits)
  then show ?thesis
  proof cases
    case completed
    from order_closed_history [OF this settled_kept(2) kept] show ?thesis .
  next
    case put_back
    with kept show ?thesis by (intro history_of_tables) (simp_all add: put_back_def extends_simps)
  next
    case failed
    with kept have "extends order_kept (orders d) (orders d1)" by simp
    from history_dead_letters [OF order_closed_history [OF failed(1) settled_kept(1) this]] failed(2)
    show ?thesis by simp
  qed
qed

lemma batch_expired_history:
  assumes b: "batch_expired limit n batch d d'" and kept: "extends order_kept (orders d) (orders d')"
    and uniq: "distinct (map resv_id (reservations d))"
  shows "history d d'"
proof -
  have "resv_kept x (if resv_id x \<in> resv_id ` set batch then release_row n x else x)" if "x \<in> set (reservations d)" for x
  proof (cases "resv_id x \<in> resv_id ` set batch")
    case True
    then obtain y where y: "y \<in> set batch" "resv_id y = resv_id x" by auto
    from y(1) have "y \<in> set (filter (\<lambda>r. resv_status r = ACTIVE \<and> resv_expires_at r < n) (reservations d))"
      by (subst (asm) batch_expiredD(2) [OF b]) (rule in_set_takeD)
    then have "y \<in> set (reservations d)" "resv_status y = ACTIVE" by simp_all
    with unique_row [OF uniq that] y(2) have "resv_status x = ACTIVE" by metis
    from settled_kept(1) [OF this] True show ?thesis by simp
  qed simp
  then have "extends resv_kept (reservations d) (reservations d')"
    unfolding batch_expiredD(3) [OF b] update_where_def by (rule extends_map_only)
  moreover have "history (d\<lparr>reservations := reservations d'\<rparr>) (d'\<lparr>orders := orders d\<rparr>)"
    using stock_frame_history [OF batch_expiredD(6) [OF b, unfolded tables_frame_def]] by (simp add: extends_simps)
  ultimately show ?thesis using kept by (simp add: history_def)
qed

lemma adjusted_history:
  assumes "adjusted a d d'"
  shows "history d d'"
proof (cases "(adj_product_id a, adj_warehouse_id a) \<in> inv_key ` set (inventory d)")
  case True
  with assms have "stock_event (adj_product_id a, adj_warehouse_id a) (adjust_spec (adj_quantity a))
      (adj_quantity a) (adjustment_event_type (adj_quantity a)) (adj_quantity a) (adj_reason a) d d'"
    by (simp add: adjusted_def Let_def)
  from stock_frame_history [OF stock_event_frame(1) [OF this]] stock_event_frame(2) [OF this]
  show ?thesis by (simp add: extends_simps)
next
  case False
  with assms obtain x a' where "d' = d\<lparr>inventory := inventory d @ [x], audit_logs := audit_logs d @ [a']\<rparr>"
    by (auto simp: adjusted_def Let_def)
  then show ?thesis by (intro history_of_tables) (simp_all add: extends_simps)
qed

lemma order_created_history:
  assumes ok: "db_ok cfg d" and claimed: "key_claimed sha p key claim d d1"
    and placed: "order_placed cfg p u key claim found n d1 d' body"
  shows "history d d'"
proof -
  from placed obtain d2 where fr: "stock_frame d1 d2" "reservations d2 = reservations d1"
    "audit_logs d' = audit_logs d2" "low_stock_alerts d' = low_stock_alerts d2"
    unfolding order_placed_def by (elim exE conjE) simp
  from key_claimed_frame [OF claimed] obtain t where d1: "d1 = d\<lparr>idempotency_keys := t\<rparr>" by blast
  have logs: "extends (=) (audit_logs d) (audit_logs d')" "extends (=) (low_stock_alerts d) (low_stock_alerts d')"
    using fr by (auto simp: stock_frame_def d1 extends_eq)
  show ?thesis
    by (rule order_created_tables [OF ok claimed placed])
      (use logs in \<open>simp add: history_def extends_simps split: option.splits\<close>)
qed

theorem db_change_history:
  assumes ch: "db_change cfg sha n lab d d'" and ok: "db_ok cfg d"
  shows "history d d'"
proof -
  note kept = orders_step_kept [OF db_change_orders [OF ch ok]]
  show ?thesis
    using ch
  proof (cases rule: db_change.cases)
    case (stock_adjusted a)
    from adjusted_history [OF this(2)] show ?thesis .
  next
    case (threshold_changed k t)
    then show ?thesis
      by (auto simp: threshold_set_def extends_simps intro!: history_of_tables split: if_splits)
  next
    case order_created
    from order_created_history [OF ok this(3,4)] show ?thesis .
  next
    case (order_cancelled r)
    from order_closed_history [OF this(4) settled_kept(1) kept] show ?thesis .
  next
    case (order_begun r)
    with kept show ?thesis by (intro history_of_tables) (simp_all add: extends_simps)
  next
    case (order_finished r attempt outcome)
    from finish_outcome_history [OF this(5) db_okD(5) [OF ok] this(2,3)] show ?thesis .
  next
    case (reservations_expired limit batch)
    have "distinct (map resv_id (reservations d))"
      using db_okD(1) [OF ok] by (simp add: stock_sound_def reservations_ok_def)
    from batch_expired_history [OF reservations_expired(2) kept this] show ?thesis .
  next
    case (events_published I)
    then show ?thesis
      by (auto simp: history_def extends_simps publish_all_def update_where_def event_kept_def
          publish_row_def intro!: extends_map_only)
  qed (simp_all add: history_def extends_simps)
qed

subsection \<open>Along any run of the service\<close>

abbreviation sys_db :: "system \<Rightarrow> db" where
  "sys_db st \<equiv> committed (sys_session st)"

lemma sys_step_change:
  assumes "sys_step cfg sha c errors st st'" and ok: "sys_ok cfg st"
  shows "\<exists>sha n lab. db_change cfg sha n lab (sys_db st) (sys_db st') \<and>
    (\<forall>i. lab = Finishes i \<longrightarrow> i \<in> job_order ` set (sys_jobs st) \<and> i \<notin> job_order ` set (sys_jobs st'))"
proof -
  have ended: "\<exists>sha n lab. db_change cfg sha n lab (sys_db st) (committed s') \<and>
      (\<forall>i. lab = Finishes i \<longrightarrow> i \<in> job_order ` set (sys_jobs st) \<and> i \<notin> job_order ` set (remove1 j (sys_jobs st)))"
    if ends: "worker_ends cfg j (sys_session st) s'" and j: "j \<in> set (sys_jobs st)" for j s'
  proof -
    have "job_order j \<notin> job_order ` set (remove1 j (sys_jobs st))"
      using remove_job(1) [OF sys_okD(3) [OF ok] j] by (metis imageE)
    with worker_ends_change [OF ends ok j, where sha = sha] j show ?thesis by blast
  qed
  from assms(1) show ?thesis
  proof (cases rule: sys_step.cases)
    case (http_request token req resp s')
    with handle_request_refines(1) [OF this(2) sys_okD(1) [OF ok]] show ?thesis
      by (intro exI [of _ sha] exI [of _ "clock (sys_session st)"] exI [of _ Quiet]) simp
  next
    case (relay_poll broker res queue' s')
    from relay_once_refines [where cfg = cfg and sha = sha, OF this(2) sys_okD(1) [OF ok]] this(1) show ?thesis by fastforce
  next
    case (worker_begins i order s')
    with begin_transaction_refines(1) [OF this(2) sys_okD(1) [OF ok]] show ?thesis by auto
  next
    case (worker_skips i r s')
    with begin_transaction_refines(1) [OF this(2) sys_okD(1) [OF ok]] show ?thesis by auto
  next
    case (worker_finishes j res s')
    then have "worker_ends cfg j (sys_session st) s'" by (auto simp: worker_ends_def)
    from ended [OF this] worker_finishes show ?thesis by simp
  next
    case (worker_dies_failing j res s')
    then have "worker_ends cfg j (sys_session st) s'" by (auto simp: worker_ends_def)
    from ended [OF this] worker_dies_failing show ?thesis by simp
  next
    case (cleanup_pass res s')
    with expire_pass_refines [OF this(2) sys_okD(1) [OF ok]] show ?thesis by auto
  next
    case (bootstraps res s')
    with bootstrap_refines [OF this(2), where sha = sha and n = 0] show ?thesis
      by (intro exI [of _ sha] exI [of _ "0 :: time"] exI [of _ Quiet]) simp
  qed (auto intro: db_change.unchanged)
qed

interpretation service: transition_system "sys_step cfg sha c errors" "sys_ok cfg"
  "\<lambda>st st'. history (sys_db st) (sys_db st')"
  for cfg sha c errors
proof
  show "sys_ok cfg st'" if "sys_ok cfg st" "sys_step cfg sha c errors st st'" for st st'
    using sys_step_ok [OF that(2,1)] .
  show "history (sys_db st) (sys_db st')" if "sys_ok cfg st" "sys_step cfg sha c errors st st'" for st st'
    using sys_step_change [OF that(2,1)] db_change_history sys_okD(1) [OF that(1)] by blast
qed (blast intro: history_refl history_trans)+

subsection \<open>The orders along a step\<close>

lemma sys_step_orders:
  assumes "sys_step cfg sha c errors st st'" and ok: "sys_ok cfg st" and r: "r \<in> set (orders (sys_db st))"
  shows "\<exists>r'\<in>set (orders (sys_db st')). same_order r r' \<and> (r' = r \<or>
    lifecycle (ord_status r) (ord_status r') \<and>
    ord_processing_attempts r' = ord_processing_attempts r + (if ord_status r' = PROCESSING then 1 else 0) \<and>
    (ord_status r = PROCESSING \<longrightarrow>
      ord_id r \<in> job_order ` set (sys_jobs st) \<and> ord_id r \<notin> job_order ` set (sys_jobs st')))"
proof -
  from sys_step_change [OF assms(1,2)] obtain sha n lab
    where ch: "db_change cfg sha n lab (sys_db st) (sys_db st')"
      and lab: "\<forall>i. lab = Finishes i \<longrightarrow> i \<in> job_order ` set (sys_jobs st) \<and> i \<notin> job_order ` set (sys_jobs st')" by blast
  from db_change_orders [OF ch sys_okD(1) [OF ok]] obtain h new where
    "orders (sys_db st') = map h (orders (sys_db st)) @ new" "row_step lab r (h r)" using r by (auto simp: orders_step_def)
  with r lab show ?thesis by (intro bexI [of _ "h r"]) (auto simp: row_step_def)
qed

lemma new_orders_reserved:
  assumes "sys_step cfg sha c errors st st'" and ok: "sys_ok cfg st"
    and r: "r \<in> set (orders (sys_db st'))" "ord_id r \<notin> ord_id ` set (orders (sys_db st))"
  shows "ord_status r = RESERVED \<and> ord_processing_attempts r = 0"
proof -
  from sys_step_change [OF assms(1,2)] obtain sha n lab
    where ch: "db_change cfg sha n lab (sys_db st) (sys_db st')" by blast
  from db_change_orders [OF ch sys_okD(1) [OF ok]] obtain h new where
    orders: "orders (sys_db st') = map h (orders (sys_db st)) @ new"
    and old: "\<forall>r\<in>set (orders (sys_db st)). row_step lab r (h r)"
    and "\<forall>r\<in>set new. ord_status r = RESERVED \<and> ord_processing_attempts r = 0"
    by (auto simp: orders_step_def)
  moreover have "ord_id (h x) = ord_id x" if "x \<in> set (orders (sys_db st))" for x
    using old that by (simp add: row_step_def same_order_def)
  ultimately show ?thesis using r by auto
qed

text \<open>A worker only takes an order that is RESERVED; so an order that is PROCESSING and held by no
  worker is never held again.\<close>

lemma new_job_reserved:
  assumes "sys_step cfg sha c errors st st'" and ok: "sys_ok cfg st" and j: "j \<in> set (sys_jobs st')" "j \<notin> set (sys_jobs st)"
    and r: "r \<in> set (orders (sys_db st))" "ord_id r = job_order j"
  shows "ord_status r = RESERVED"
  using assms(1)
proof (cases rule: sys_step.cases)
  case (worker_begins i order s')
  with j have "j = job_of order" by simp
  with begin_transaction_job(2,3) [OF worker_begins(2) sys_okD(1) [OF ok]] r show ?thesis by (simp add: job_of_def)
qed (use j in \<open>auto dest: notin_set_remove1\<close>)

definition forsaken :: "order_row \<Rightarrow> system \<Rightarrow> bool" where
  "forsaken r st \<longleftrightarrow> r \<in> set (orders (sys_db st)) \<and> ord_status r = PROCESSING \<and>
     ord_id r \<notin> job_order ` set (sys_jobs st)"

interpretation forsaken: transition_system "sys_step cfg sha c errors" "\<lambda>st. sys_ok cfg st \<and> forsaken r st"
  "\<lambda>st st'. history (sys_db st) (sys_db st')"
  for cfg sha c errors r
proof
  show "sys_ok cfg st' \<and> forsaken r st'" if inv: "sys_ok cfg st \<and> forsaken r st" and step: "sys_step cfg sha c errors st st'" for st st'
  proof
    show ok: "sys_ok cfg st'" using service.step_inv step inv by blast
    from inv have r: "r \<in> set (orders (sys_db st))" "ord_status r = PROCESSING" "ord_id r \<notin> job_order ` set (sys_jobs st)"
      by (simp_all add: forsaken_def)
    have "r \<in> set (orders (sys_db st'))" using sys_step_orders [OF step _ r(1)] inv r(2,3) by auto
    moreover have "job_order j \<noteq> ord_id r" if "j \<in> set (sys_jobs st')" for j
    proof (cases "j \<in> set (sys_jobs st)")
      case True
      with r(3) show ?thesis by (metis image_eqI)
    next
      case False
      with new_job_reserved [OF step _ that _ r(1)] inv r(2) show ?thesis by force
    qed
    then have "ord_id r \<notin> job_order ` set (sys_jobs st')" by (metis imageE)
    ultimately show "forsaken r st'" using r(2) by (simp add: forsaken_def)
  qed
qed (use service.step_rel history_refl history_trans in blast)+

definition service_start :: "session \<Rightarrow> system" where
  "service_start s = \<lparr>sys_session = s, sys_queue = [], sys_jobs = []\<rparr>"

lemma service_start_ok:
  "db_ok cfg (committed s) \<Longrightarrow> (\<forall>e\<in>set (outbox_events (committed s)). evt_status e = OUTBOX_PENDING) \<Longrightarrow>
    sys_ok cfg (service_start s)"
  by (auto simp: sys_ok_def service_start_def published_enqueued_def)

lemma empty_start_ok: "committed s = empty_db \<Longrightarrow> sys_ok cfg (service_start s)"
  by (rule service_start_ok) (simp_all add: empty_db_ok, simp add: empty_db_def)

lemma reachable_ok:
  assumes "committed s = empty_db" and "steps_to (sys_step cfg sha c errors) (service_start s) st"
  shows "sys_ok cfg st"
  by (rule service.run_inv [OF assms(2) empty_start_ok [OF assms(1)]])

lemma reachable_db_ok:
  assumes "committed s = empty_db" and "steps_to (sys_step cfg sha c errors) (service_start s) st"
  shows "stock_sound [] (sys_db st)" "orders_ok cfg (sys_db st)" "idem_ok (sys_db st)" "events_ok (sys_db st)"
  using db_okD [OF sys_okD(1) [OF reachable_ok [OF assms]]] by simp_all

end
