(* ===== verification/Order_Properties.thy ===== *)
theory Order_Properties
  imports History Sample
begin

text \<open>
  What the order service promises: what a placed order is, that a failed one leaves nothing, what a
  replayed key returns, what a cancellation gives back and to whom it is refused, and how orders are
  listed.
\<close>

section \<open>Creation\<close>

definition new_key :: "string option \<Rightarrow> db \<Rightarrow> bool" where
  "new_key key d \<longleftrightarrow> (\<forall>k. key = Some k \<longrightarrow> k \<notin> idem_key ` set (idempotency_keys d))"

lemma new_key_not_replayed: "new_key key d \<Longrightarrow> \<not> replayed sha p key d body"
  by (auto simp: new_key_def replayed_def)

lemma create_order_new:
  assumes run: "create_order cfg sha p u key s = (Inr body, s')" and ok: "db_ok cfg (working s)"
    and valid: "valid_order_request p" and new: "new_key key (working s)"
  obtains r irs es e found claim where "committed s' = working s'" "new_order p u key (clock s) (map fst irs) r"
    "ord_id r \<notin> ord_id ` set (orders (working s))"
    "list_all2 (line_taken found (ord_id r) (clock s + minutes (reservation_timeout_minutes cfg))) (req_items p) irs"
    "\<forall>l\<in>set (req_items p). \<exists>x\<in>set (products (working s)). prod_id x = ol_product_id l \<and> found (ol_product_id l) = Some x"
    "orders (working s') = orders (working s) @ [r]" "order_items (working s') = order_items (working s) @ map fst irs"
    "reservations (working s') = reservations (working s) @ map snd irs"
    "outbox_events (working s') = outbox_events (working s) @ es @ [e]" "\<forall>x\<in>set es. is_alert_event x"
    "order_event (ord_id r) e" "body = serialize_order r (map fst irs)"
    "\<And>k. available_of (working s') k = available_of (working s) k - quantity_of k (map snd irs)"
    "idempotency_keys (working s') = (case claim of None \<Rightarrow> idempotency_keys (working s)
       | Some c \<Rightarrow> idempotency_keys (working s) @ [claim_written (the (claim_entry c)) (ord_id r) body])"
    "key_claimed sha p key claim (working s) (working s\<lparr>idempotency_keys := idempotency_keys (working s) @
       (case claim of None \<Rightarrow> [] | Some c \<Rightarrow> [the (claim_entry c)])\<rparr>)"
    "db_ok cfg (working s')"
proof -
  from create_order_Inr [OF run db_okD(1) [OF ok] valid] new_key_not_replayed [OF new]
  obtain claim found d1 where claimed: "key_claimed sha p key claim (working s) d1"
    and found: "\<forall>l\<in>set (req_items p). \<exists>x\<in>set (products (working s)). prod_id x = ol_product_id l \<and> found (ol_product_id l) = Some x"
    and placed: "order_placed cfg p u key claim found (clock s) d1 (working s') body"
    and rest: "stock_sound [] (working s')" "committed s' = working s'" by blast
  have d1: "d1 = working s\<lparr>idempotency_keys := idempotency_keys (working s) @
       (case claim of None \<Rightarrow> [] | Some c \<Rightarrow> [the (claim_entry c)])\<rparr>"
    using key_claimed_cases [OF claimed db_okD(3) [OF ok]] by auto
  have ok': "db_ok cfg (working s')" by (rule order_created_ok [OF ok claimed placed rest(1)])
  show thesis
    by (rule order_created_tables [OF ok claimed placed], rule that [OF rest(2)])
      (use found ok' claimed d1 in \<open>assumption | simp\<close>)+
qed

text \<open>
  C6. An order that is accepted (and is not a replay) is one new RESERVED order of the user, with
  one item per requested line at the product's current price, the total of those lines, one ACTIVE
  reservation per item from a warehouse of its own, expiring after the configured minutes; the
  available stock of every pair falls by exactly what was reserved there, exactly one ORDER_RESERVED
  event follows, and the answer is the order. The order carries the idempotency key of the request;
  a key that is not empty is stored COMPLETED with the hash of the request, the order and the answer,
  and without one no key is stored. All of it is committed together.
\<close>

theorem accepted_order:
  assumes "create_order cfg sha p u key s = (Inr body, s')" and "db_ok cfg (working s)"
    and "valid_order_request p" and "new_key key (working s)"
  shows "\<exists>r items resvs es e. committed s' = working s' \<and> body = serialize_order r items \<and>
    orders (working s') = orders (working s) @ [r] \<and> ord_id r \<notin> ord_id ` set (orders (working s)) \<and>
    ord_status r = RESERVED \<and> ord_created_by_user_id r = user_id u \<and> ord_idempotency_key r = key \<and>
    ord_payment_token r = req_payment_token p \<and> ord_processing_attempts r = 0 \<and>
    ord_total r = sum_list (map (\<lambda>i. item_unit_price i * item_quantity i) items) \<and>
    order_items (working s') = order_items (working s) @ items \<and>
    map (\<lambda>i. (item_product_id i, item_quantity i)) items = map (\<lambda>l. (ol_product_id l, ol_quantity l)) (req_items p) \<and>
    (\<forall>i\<in>set items. \<exists>x\<in>set (products (working s)). prod_id x = item_product_id i \<and> prod_price x = item_unit_price i) \<and>
    reservations (working s') = reservations (working s) @ resvs \<and>
    list_all2 (\<lambda>i x. resv_order_id x = ord_id r \<and> resv_key x = (item_product_id i, item_warehouse_id i) \<and>
      resv_quantity x = item_quantity i \<and> resv_status x = ACTIVE \<and>
      resv_expires_at x = clock s + minutes (reservation_timeout_minutes cfg)) items resvs \<and>
    (\<forall>k. available_of (working s') k = available_of (working s) k - quantity_of k resvs) \<and>
    outbox_events (working s') = outbox_events (working s) @ es @ [e] \<and> (\<forall>x\<in>set es. is_alert_event x) \<and>
    order_event (ord_id r) e \<and>
    (if key = None \<or> key = Some [] then idempotency_keys (working s') = idempotency_keys (working s)
     else \<exists>k. idempotency_keys (working s') = idempotency_keys (working s) @ [k] \<and> key = Some (idem_key k) \<and>
       idem_request_hash k = compute_request_hash sha p \<and> idem_status k = IDEM_COMPLETED \<and>
       idem_order_id k = Some (ord_id r) \<and> idem_response_body k = Some body)"
proof -
  obtain r irs es e found claim where c: "committed s' = working s'"
      "new_order p u key (clock s) (map fst irs) r" "ord_id r \<notin> ord_id ` set (orders (working s))"
    and lines: "list_all2 (line_taken found (ord_id r) (clock s + minutes (reservation_timeout_minutes cfg))) (req_items p) irs"
    and found: "\<forall>l\<in>set (req_items p). \<exists>x\<in>set (products (working s)). prod_id x = ol_product_id l \<and> found (ol_product_id l) = Some x"
    and t: "orders (working s') = orders (working s) @ [r]" "order_items (working s') = order_items (working s) @ map fst irs"
      "reservations (working s') = reservations (working s) @ map snd irs"
      "outbox_events (working s') = outbox_events (working s) @ es @ [e]" "\<forall>x\<in>set es. is_alert_event x"
      "order_event (ord_id r) e" "body = serialize_order r (map fst irs)"
      "\<And>k. available_of (working s') k = available_of (working s) k - quantity_of k (map snd irs)"
      "idempotency_keys (working s') = (case claim of None \<Rightarrow> idempotency_keys (working s)
         | Some c \<Rightarrow> idempotency_keys (working s) @ [claim_written (the (claim_entry c)) (ord_id r) body])"
    and claimed: "key_claimed sha p key claim (working s) (working s\<lparr>idempotency_keys := idempotency_keys (working s) @
         (case claim of None \<Rightarrow> [] | Some c \<Rightarrow> [the (claim_entry c)])\<rparr>)"
    by (rule create_order_new [OF assms]) blast
  have keys: "if key = None \<or> key = Some [] then idempotency_keys (working s') = idempotency_keys (working s)
     else \<exists>k. idempotency_keys (working s') = idempotency_keys (working s) @ [k] \<and> key = Some (idem_key k) \<and>
       idem_request_hash k = compute_request_hash sha p \<and> idem_status k = IDEM_COMPLETED \<and>
       idem_order_id k = Some (ord_id r) \<and> idem_response_body k = Some body"
    using key_claimed_cases [OF claimed db_okD(3) [OF assms(2)]] t(9)
  proof (elim disjE exE conjE)
    fix entry assume entry: "claim = Some \<lparr>claim_entry = Some entry, cached_response = None\<rparr>" "key = Some (idem_key entry)"
      "idem_request_hash entry = compute_request_hash sha p"
    have "idem_key entry \<noteq> []" using claimed entry(1,2) unfolding key_claimed_def by (cases "idem_key entry") auto
    then show ?thesis using entry t(9) by (simp add: claim_written_def)
  qed auto
  have len: "length irs = length (req_items p)" using lines by (simp add: list_all2_lengthD)
  have line: "line_taken found (ord_id r) (clock s + minutes (reservation_timeout_minutes cfg)) (req_items p ! j) (irs ! j)"
    if "j < length irs" for j using lines that by (simp add: list_all2_conv_all_nth)
  have "map (\<lambda>i. (item_product_id i, item_quantity i)) (map fst irs) = map (\<lambda>l. (ol_product_id l, ol_quantity l)) (req_items p)"
    using len line by (intro nth_equalityI) (auto simp: line_taken_def case_prod_beta)
  moreover have "\<exists>x\<in>set (products (working s)). prod_id x = item_product_id i \<and> prod_price x = item_unit_price i"
    if i: "i \<in> set (map fst irs)" for i
  proof -
    from i obtain j where j: "j < length irs" "i = fst (irs ! j)" by (auto simp: in_set_conv_nth)
    with len have "req_items p ! j \<in> set (req_items p)" by simp
    with found obtain x where "x \<in> set (products (working s))" "prod_id x = ol_product_id (req_items p ! j)"
      "found (ol_product_id (req_items p ! j)) = Some x" by blast
    with line [OF j(1)] j(2) show ?thesis by (auto simp: line_taken_def case_prod_beta)
  qed
  moreover have "list_all2 (\<lambda>i x. resv_order_id x = ord_id r \<and> resv_key x = (item_product_id i, item_warehouse_id i) \<and>
      resv_quantity x = item_quantity i \<and> resv_status x = ACTIVE \<and>
      resv_expires_at x = clock s + minutes (reservation_timeout_minutes cfg)) (map fst irs) (map snd irs)"
    unfolding list_all2_conv_all_nth using line by (auto simp: line_taken_def case_prod_beta)
  moreover have "ord_total r = sum_list (map (\<lambda>i. item_unit_price i * item_quantity i) (map fst irs))"
    using c(2) by (simp add: new_order_def items_total_def total_of_line_def)
  ultimately show ?thesis using c t(1-8) keys
    by (intro exI [of _ r] exI [of _ "map fst irs"] exI [of _ "map snd irs"] exI [of _ es] exI [of _ e])
      (simp add: new_order_def)
qed

lemma stocked_facts: "working stocked = committed stocked" "db_ok cfg (working stocked) = db_ok cfg (committed stocked)"
proof -
  show "working stocked = committed stocked" by code_simp
  then show "db_ok cfg (working stocked) = db_ok cfg (committed stocked)" by simp
qed

lemma buy_valid: "valid_order_request (buy 4)" "new_key (Some ''k'') (working stocked)" "new_key None d"
proof -
  show "valid_order_request (buy 4)" by code_simp
  have "idempotency_keys (working stocked) = []" by code_simp
  then show "new_key (Some ''k'') (working stocked)" by (simp add: new_key_def)
qed (simp add: new_key_def)

theorem accepted_order_witness:
  "\<exists>body s' r. create_order default_settings (\<lambda>x. []) (buy 4) client (Some ''k'') stocked = (Inr body, s') \<and>
     orders (working s') = [r] \<and> ord_status r = RESERVED \<and> ord_created_by_user_id r = ''user_c'' \<and>
     (\<exists>k. idempotency_keys (working s') = [k] \<and> idem_key k = ''k'' \<and> idem_order_id k = Some (ord_id r))"
proof -
  let ?m = "create_order default_settings (\<lambda>x. []) (buy 4) client (Some ''k'') stocked"
  have "fst ?m = Inr (projr (fst ?m))" by code_simp
  from ran [OF this] obtain body s' where run: "?m = (Inr body, s')" by blast
  have "orders (working stocked) = []" "idempotency_keys (working stocked) = []" by code_simp+
  with accepted_order [OF run _ buy_valid(1,2)] stocked_facts(2) stocked_ok run show ?thesis
    by (auto simp: client_def)
qed

text \<open>
  C7. An order that is refused, for whatever reason and at whatever step (a product that does not
  exist, too little stock for the last of many lines, a key in use, a constraint of the database),
  leaves the committed database and the session's view of it as they were: nothing stays reserved.
\<close>

theorem refused_order_leaves_nothing:
  assumes "create_order cfg sha p u key s = (Inl e, s')"
  shows "committed s' = committed s \<and> working s' = committed s"
  using create_order_Inl [OF assms] by blast

theorem refused_order_leaves_nothing_witness:
  "\<exists>e s'. create_order default_settings (\<lambda>x. []) (buy 6) client None stocked = (Inl e, s') \<and>
     committed s' = committed stocked"
proof -
  let ?m = "create_order default_settings (\<lambda>x. []) (buy 6) client None stocked"
  have "fst ?m = Inl (projl (fst ?m))" by code_simp
  from ran [OF this] obtain e s' where run: "?m = (Inl e, s')" by blast
  from refused_order_leaves_nothing [OF run] run show ?thesis by blast
qed

section \<open>Idempotency keys\<close>

lemma try_claim_fits: "try_claim k h s = (Inr c, s') \<Longrightarrow> varchar 255 k \<and> varchar 64 h"
  by (auto simp: try_claim_def try_except_Inr and_then_Inl exec_insert_Inr exec_insert_Inl
      check_idempotency_key_def split: if_splits)

lemma create_order_fits:
  assumes "create_order cfg sha p u (Some k) s = (Inr body, s')" and "k \<noteq> []"
  shows "varchar 255 k" and "varchar 64 (compute_request_hash sha p)"
proof -
  from assms obtain c t where "idempotency_begin sha k p s = (Inr c, t)"
    by (auto simp: create_order_def rolling_back_Inr create_order_impl_def claim_key_def)
  then obtain e t' where "try_claim k (compute_request_hash sha p) s = (Inr e, t')"
    by (auto simp: idempotency_begin_def Let_def)
  from try_claim_fits [OF this] show "varchar 255 k" "varchar 64 (compute_request_hash sha p)" by simp_all
qed

text \<open>What an answered request leaves under its key, replayed or not.\<close>

lemma answered_key:
  assumes run: "create_order cfg sha p u (Some k) s = (Inr body, s')" and "k \<noteq> []"
    and ok: "db_ok cfg (working s)" and valid: "valid_order_request p"
  shows "\<exists>entry\<in>set (idempotency_keys (committed s')). idem_key entry = k \<and> idem_status entry = IDEM_COMPLETED \<and>
    idem_request_hash entry = compute_request_hash sha p \<and> idem_response_body entry = Some body"
  using create_order_Inr [OF run db_okD(1) [OF ok] valid]
proof (elim disjE exE conjE)
  assume "replayed sha p (Some k) (working s) body" "s' = s\<lparr>committed := working s\<rparr>"
  then show ?thesis by (auto simp: replayed_def)
next
  fix claim found d1
  assume claimed: "key_claimed sha p (Some k) claim (working s) d1"
    and placed: "order_placed cfg p u (Some k) claim found (clock s) d1 (working s') body" and "committed s' = working s'"
  from key_claimed_cases [OF claimed db_okD(3) [OF ok]] \<open>k \<noteq> []\<close> obtain entry where
    e: "claim = Some \<lparr>claim_entry = Some entry, cached_response = None\<rparr>" "k = idem_key entry"
      "idem_request_hash entry = compute_request_hash sha p" by auto
  obtain i where "idempotency_keys (working s') = idempotency_keys (working s) @ [claim_written entry i body]"
    by (rule order_created_tables [OF ok claimed placed]) (use e(1) in auto)
  with e \<open>committed s' = working s'\<close> show ?thesis by (simp add: claim_written_def)
qed

lemma keys_remembered:
  "history d d' \<Longrightarrow> e \<in> set (idempotency_keys d) \<Longrightarrow> e \<in> set (idempotency_keys d')"
  by (auto simp: history_def extends_eq)

text \<open>
  C10. Once a request with an idempotency key was answered, the same request with that key gets the
  same answer at any later moment of any run, and commits nothing: at most one order per key. (The
  key is not tied to the user: whoever repeats the request gets the answer.)
\<close>

theorem replay_returns_first_answer:
  assumes "create_order cfg sha p u (Some k) s = (Inr body, s1)" and "k \<noteq> []" and "db_ok cfg (working s)"
    and "valid_order_request p" and "history (committed s1) (working s2)" and "db_ok cfg (working s2)"
  shows "create_order cfg sha p u' (Some k) s2 = (Inr body, s2\<lparr>committed := working s2\<rparr>)"
proof -
  from answered_key [OF assms(1-4)] keys_remembered [OF assms(5)] obtain entry where
    e: "entry \<in> set (idempotency_keys (working s2))" "idem_key entry = k"
      "idem_request_hash entry = compute_request_hash sha p" "idem_status entry = IDEM_COMPLETED"
      "idem_response_body entry = Some body" by blast
  have "unique_keys (working s2)" using db_okD(3) [OF assms(6)] by (simp add: idem_ok_def)
  from idempotency_begin_known [OF this e(1,2) create_order_fits [OF assms(1,2)]] e(3-5)
  have "idempotency_begin sha k p s2 = (Inr \<lparr>claim_entry = Some entry, cached_response = Some body\<rparr>, s2)" by simp
  with assms(2) show ?thesis
    by (simp add: create_order_def create_order_impl_def claim_key_def rolling_back_Inr)
qed

theorem replay_returns_first_answer_witness:
  "\<exists>body s1. create_order default_settings (\<lambda>x. []) (buy 4) client (Some ''k'') stocked = (Inr body, s1) \<and>
     create_order default_settings (\<lambda>x. []) (buy 4) client2 (Some ''k'') s1 = (Inr body, s1\<lparr>committed := working s1\<rparr>)"
proof -
  let ?m = "create_order default_settings (\<lambda>x. []) (buy 4) client (Some ''k'') stocked"
  have "fst ?m = Inr (projr (fst ?m))" by code_simp
  from ran [OF this] obtain body s1 where run: "?m = (Inr body, s1)" by blast
  have ok: "db_ok default_settings (working stocked)" using stocked_facts(2) stocked_ok by simp
  from create_order_Inr [OF run db_okD(1) [OF ok] buy_valid(1)] have same: "committed s1 = working s1" by auto
  from refinesD [OF refines_create_order [OF buy_valid(1)] run stocked_facts(1) stocked_ok] db_change_ok stocked_ok
  have "db_ok default_settings (committed s1)" by blast
  with replay_returns_first_answer [OF run _ ok buy_valid(1), of s1 client2] run same history_refl show ?thesis by auto
qed

text \<open>
  C11. A key that was answered for one request and comes again with a request of another hash is
  refused with the 400 of a reused key, and nothing is committed.
\<close>

theorem reused_key_is_refused:
  assumes "create_order cfg sha p u (Some k) s = (Inr body, s1)" and "k \<noteq> []" and "db_ok cfg (working s)"
    and "valid_order_request p" and "history (committed s1) (working s2)" and "db_ok cfg (working s2)"
    and "compute_request_hash sha p' \<noteq> compute_request_hash sha p" and "varchar 64 (compute_request_hash sha p')"
  shows "create_order cfg sha p' u' (Some k) s2 = (Inl (key_reused k), s2\<lparr>working := committed s2\<rparr>)"
proof -
  from answered_key [OF assms(1-4)] keys_remembered [OF assms(5)] obtain entry where
    e: "entry \<in> set (idempotency_keys (working s2))" "idem_key entry = k"
      "idem_request_hash entry = compute_request_hash sha p" by blast
  have "unique_keys (working s2)" using db_okD(3) [OF assms(6)] by (simp add: idem_ok_def)
  from idempotency_begin_known [OF this e(1,2) create_order_fits(1) [OF assms(1,2)] assms(8)] e(3) assms(7)
  have "idempotency_begin sha k p' s2 = (Inl (key_reused k), s2)" by simp
  with assms(2) show ?thesis
    by (simp add: create_order_def create_order_impl_def claim_key_def rolling_back_Inl and_then_Inl)
qed

theorem reused_key_is_refused_witness:
  "\<exists>body s1. create_order default_settings (\<lambda>x. take 64 x) (buy 4) client (Some ''k'') stocked = (Inr body, s1) \<and>
     fst (create_order default_settings (\<lambda>x. take 64 x) (buy 1) client (Some ''k'') s1) = Inl (key_reused ''k'')"
proof -
  let ?m = "create_order default_settings (\<lambda>x. take 64 x) (buy 4) client (Some ''k'') stocked"
  have "fst ?m = Inr (projr (fst ?m))" by code_simp
  from ran [OF this] obtain body s1 where run: "?m = (Inr body, s1)" by blast
  have ok: "db_ok default_settings (working stocked)" using stocked_facts(2) stocked_ok by simp
  from create_order_Inr [OF run db_okD(1) [OF ok] buy_valid(1)] have same: "committed s1 = working s1" by auto
  from refinesD [OF refines_create_order [OF buy_valid(1)] run stocked_facts(1) stocked_ok] db_change_ok stocked_ok
  have "db_ok default_settings (committed s1)" by blast
  moreover have "compute_request_hash (\<lambda>x. take 64 x) (buy 1) \<noteq> compute_request_hash (\<lambda>x. take 64 x) (buy 4)"
    "varchar 64 (compute_request_hash (\<lambda>x. take 64 x) (buy 1))" by code_simp+
  ultimately show ?thesis
    using reused_key_is_refused [OF run _ ok buy_valid(1), of s1 "buy 1" client] run same history_refl by auto
qed

section \<open>Cancellation\<close>

definition active_quantity :: "ident \<Rightarrow> db \<Rightarrow> ident \<times> ident \<Rightarrow> int" where
  "active_quantity i d k =
     sum_where (\<lambda>x. resv_key x = k \<and> resv_order_id x = i \<and> resv_status x = ACTIVE) resv_quantity (reservations d)"

lemma cancel_order_effect:
  assumes "cancel_order i u s = (Inr r', s')" and "db_ok cfg (working s)"
  shows "\<exists>r\<in>set (orders (working s)). ord_id r = i \<and> ord_status r = RESERVED \<and>
    (user_role u = ADMIN \<or> ord_created_by_user_id r = user_id u) \<and>
    r' = r\<lparr>ord_status := CANCELLED, ord_updated_at := clock s\<rparr> \<and> r' \<in> set (orders (committed s')) \<and>
    reservations (committed s') = map (\<lambda>x. if resv_order_id x = i \<and> resv_status x = ACTIVE
      then x\<lparr>resv_status := RELEASED, resv_released_at := Some (clock s)\<rparr> else x) (reservations (working s)) \<and>
    (\<forall>k. available_of (committed s') k = available_of (working s) k + active_quantity i (working s) k \<and>
         reserved_of (committed s') k = reserved_of (working s) k - active_quantity i (working s) k)"
proof -
  note sound = db_okD(1,5) [OF assms(2)]
  from cancel_order_Inr(1) [OF assms(1) sound] obtain r where
    r: "r \<in> set (orders (working s))" "ord_id r = i" "ord_status r \<in> CANCELLABLE_ORDER_STATUSES"
      "user_role u = CLIENT \<longrightarrow> ord_created_by_user_id r = user_id u"
    and closed: "order_closed release_row (\<lambda>q. q) r CANCELLED (clock s) (working s) (working s')"
    and r': "r' = r\<lparr>ord_status := CANCELLED, ord_updated_at := clock s\<rparr>" by blast
  have "ord_status r = RESERVED"
    using db_okD(2) [OF assms(2)] r(1,3) by (auto simp: orders_ok_def order_ok_def CANCELLABLE_ORDER_STATUSES_def)
  moreover have "user_role u = ADMIN \<or> ord_created_by_user_id r = user_id u"
    using r(4) by (cases "user_role u") auto
  moreover have "r' \<in> set (orders (working s'))" using order_closed_row(2) [OF closed sound(2) r(1)] r' by simp
  moreover obtain d1 where d1: "reservations d1 = map (\<lambda>x. if resv_order_id x = i \<and> resv_status x = ACTIVE
      then x\<lparr>resv_status := RELEASED, resv_released_at := Some (clock s)\<rparr> else x) (reservations (working s))"
    and av: "\<forall>k. available_of d1 k = available_of (working s) k + active_quantity i (working s) k \<and>
      reserved_of d1 k = reserved_of (working s) k - active_quantity i (working s) k"
    and same: "reservations (working s') = reservations d1" "inventory (working s') = inventory d1"
    using closed r(2) unfolding order_closed_def active_quantity_def update_where_def by force
  moreover have "available_of (working s') = available_of d1 \<and> reserved_of (working s') = reserved_of d1"
    using account_of_unchanged [OF same(2)] by simp
  ultimately show ?thesis
    using r(1,2) r' by (intro bexI [of _ r]) (simp_all add: cancel_order_Inr(3) [OF assms(1) sound])
qed

text \<open>
  C26. A cancellation that succeeds was asked by the order's owner or an administrator (of any order,
  which \<open>api/orders.py\<close> calls a CLIENT action: see \<open>Findings\<close>), of a RESERVED order; it marks the order CANCELLED, releases all its active reservations and no other, returns
  exactly their quantities to the available stock of their pairs, and is committed.
\<close>

theorem cancellation_effect:
  assumes "cancel_order i u s = (Inr r', s')" and "db_ok cfg (working s)"
  shows "\<exists>r\<in>set (orders (working s)). ord_id r = i \<and> ord_status r = RESERVED \<and>
    (user_role u = ADMIN \<or> ord_created_by_user_id r = user_id u) \<and>
    r' = r\<lparr>ord_status := CANCELLED, ord_updated_at := clock s\<rparr> \<and> r' \<in> set (orders (committed s')) \<and>
    reservations (committed s') = map (\<lambda>x. if resv_order_id x = i \<and> resv_status x = ACTIVE
      then x\<lparr>resv_status := RELEASED, resv_released_at := Some (clock s)\<rparr> else x) (reservations (working s)) \<and>
    (\<forall>k. available_of (committed s') k = available_of (working s) k + active_quantity i (working s) k \<and>
         reserved_of (committed s') k = reserved_of (working s) k - active_quantity i (working s) k)"
  by (rule cancel_order_effect [OF assms])

theorem cancellation_effect_witness:
  "\<exists>r' s'. cancel_order ''order_2'' client held_shop = (Inr r', s') \<and> ord_status r' = CANCELLED \<and>
     available_of (committed s') (''p1'', ''w1'') = 5"
proof -
  let ?m = "cancel_order ''order_2'' client held_shop"
  have "fst ?m = Inr (projr (fst ?m))" by code_simp
  from ran [OF this] obtain r' s' where run: "?m = (Inr r', s')" by blast
  have ok: "db_ok default_settings (working held_shop)" using held_shop_facts by simp
  have "available_of (working held_shop) (''p1'', ''w1'') = 1"
    "active_quantity ''order_2'' (working held_shop) (''p1'', ''w1'') = 4" by code_simp+
  with cancellation_effect [OF run ok] run show ?thesis by auto
qed

text \<open>
  C27. Every other cancellation is refused and changes nothing, with the error of the first check
  that fails: the order does not exist, it is another client's, or its status is no longer
  cancellable.
\<close>

theorem cancellation_refusals:
  assumes "unique_orders (working s)" and "fresh s"
    and "find (\<lambda>r. ord_id r = i) (orders (working s)) = found"
    and "refusal = (case found of None \<Rightarrow> Some (order_not_found i)
      | Some r \<Rightarrow> if user_role u = CLIENT \<and> ord_created_by_user_id r \<noteq> user_id u then Some no_access
          else if ord_status r \<in> {PENDING, RESERVED} then None else Some (cannot_cancel i (ord_status r)))"
    and "refusal = Some e"
  shows "cancel_order i u s = (Inl e, s)"
proof -
  have same: "s\<lparr>working := committed s\<rparr> = s" using assms(2) by (simp add: fresh_def)
  have "order_get_by_id_for_update i s = (Inr found, s)"
  proof (cases found)
    case None
    with assms(3) have "\<forall>r\<in>set (orders (working s)). ord_id r \<noteq> i" by (auto simp: find_None_iff)
    with None show ?thesis by (simp add: order_get_by_id_for_update_def select_one_None)
  next
    case (Some r)
    with assms(3) have "r \<in> set (orders (working s))" "ord_id r = i" by (auto simp: find_Some_iff)
    with order_get_found(1) [OF assms(1)] Some show ?thesis by blast
  qed
  then have "cancellable_order i u s = (Inl e, s)"
    using assms(4,5) by (cases found)
      (auto simp: cancellable_order_def and_then_def raise_def CANCELLABLE_ORDER_STATUSES_def split: if_splits)
  then have "and_then (cancellable_order i u) f s = (Inl e, s)" for f :: "order_row \<Rightarrow> order_row op"
    by (simp add: and_then_def)
  then show ?thesis using same by (simp add: cancel_order_def rolling_back_Inl)
qed

theorem cancellation_refusals_witness:
  "cancel_order ''order_2'' client2 held_shop = (Inl no_access, held_shop)"
proof -
  have "unique_orders (working held_shop)" using db_okD(5) [OF held_shop_facts(1)] held_shop_facts(2) by simp
  moreover have "fresh held_shop" using held_shop_facts(2) by (simp add: fresh_def)
  moreover obtain r where "find (\<lambda>r. ord_id r = ''order_2'') (orders (working held_shop)) = Some r"
    "ord_created_by_user_id r = ''user_c''"
  proof
    show "find (\<lambda>r. ord_id r = ''order_2'') (orders (working held_shop)) = Some (hd (orders (working held_shop)))"
      "ord_created_by_user_id (hd (orders (working held_shop))) = ''user_c''" by code_simp+
  qed
  ultimately show ?thesis
    using cancellation_refusals [OF _ _ _ refl, of held_shop "''order_2''" "Some r" client2] by (simp add: client2_def)
qed

lemma cancel_order_stock:
  assumes "cancel_order i u s = (Inr r', s')" and "db_ok cfg (working s)"
  shows "available_of (committed s') k = available_of (working s) k + active_quantity i (working s) k"
    and "reserved_of (committed s') k = reserved_of (working s) k - active_quantity i (working s) k"
  using cancel_order_effect [OF assms] by blast+

lemma lines_reserved:
  assumes "list_all2 (line_taken found oid ex) ls irs"
  shows "\<forall>x\<in>set (map snd irs). resv_order_id x = oid \<and> resv_status x = ACTIVE"
proof
  fix x assume "x \<in> set (map snd irs)"
  then obtain j where "j < length irs" "x = snd (irs ! j)" by (auto simp: in_set_conv_nth simp del: set_map)
  with assms show "resv_order_id x = oid \<and> resv_status x = ACTIVE"
    by (auto simp: list_all2_conv_all_nth line_taken_def case_prod_beta)
qed

lemma active_of_new:
  assumes "\<forall>x\<in>set xs. resv_order_id x \<noteq> i" and "\<forall>x\<in>set ys. resv_order_id x = i \<and> resv_status x = ACTIVE"
  shows "sum_where (\<lambda>x. resv_key x = k \<and> resv_order_id x = i \<and> resv_status x = ACTIVE) resv_quantity (xs @ ys) =
    quantity_of k ys"
proof -
  have "sum_where (\<lambda>x. resv_key x = k \<and> resv_order_id x = i \<and> resv_status x = ACTIVE) resv_quantity xs = 0"
    using assms(1) by (induction xs) auto
  moreover have "sum_where (\<lambda>x. resv_key x = k \<and> resv_order_id x = i \<and> resv_status x = ACTIVE) resv_quantity ys =
      quantity_of k ys"
    using assms(2) by (induction ys) auto
  ultimately show ?thesis by simp
qed

lemma held_of_new:
  "\<forall>x\<in>set ys. resv_order_id x = i \<and> resv_status x = ACTIVE \<Longrightarrow>
    sum_where (\<lambda>x. resv_status x = ACTIVE \<and> resv_key x = k) resv_quantity ys = quantity_of k ys"
  by (induction ys) auto

text \<open>
  C28. Placing an order and cancelling it restores the available and the reserved stock of every pair.
\<close>

theorem place_then_cancel_restores_stock:
  assumes "create_order cfg sha p u key s = (Inr body, s1)" and "db_ok cfg (working s)"
    and "valid_order_request p" and "new_key key (working s)"
    and "cancel_order (ord_id (last (orders (working s1)))) u' s1 = (Inr r, s2)"
  shows "available_of (committed s2) k = available_of (working s) k \<and> reserved_of (committed s2) k = reserved_of (working s) k"
proof -
  from create_order_new [OF assms(1-4)] obtain r0 irs found where
    new: "orders (working s1) = orders (working s) @ [r0]" "ord_id r0 \<notin> ord_id ` set (orders (working s))"
      "reservations (working s1) = reservations (working s) @ map snd irs"
    and av: "\<And>k. available_of (working s1) k = available_of (working s) k - quantity_of k (map snd irs)"
    and lines: "list_all2 (line_taken found (ord_id r0) (clock s + minutes (reservation_timeout_minutes cfg))) (req_items p) irs"
    and ok1: "db_ok cfg (working s1)" by (rule create_order_new [OF assms(1-4)]) blast
  have old: "\<forall>x\<in>set (reservations (working s)). resv_order_id x \<noteq> ord_id r0"
  proof
    fix x assume "x \<in> set (reservations (working s))"
    with db_okD(2) [OF assms(2)] obtain y where "y \<in> set (orders (working s))" "ord_id y = resv_order_id x"
      unfolding orders_ok_def reservation_ok_def by blast
    with new(2) show "resv_order_id x \<noteq> ord_id r0" by (metis image_eqI)
  qed
  note taken = lines_reserved [OF lines]
  have active: "active_quantity (ord_id r0) (working s1) k = quantity_of k (map snd irs)" for k
    using active_of_new [OF old taken] by (simp add: active_quantity_def new(3))
  have "held (working s1) k = held (working s) k + quantity_of k (map snd irs)"
    using held_of_new [OF taken] by (simp add: held_def new(3))
  moreover have "reserved_of d k = held d k" if "db_ok cfg d" for d
    using db_okD(1) [OF that] by (cases k) (simp add: stock_sound_def conserved_def)
  moreover have "ord_id (last (orders (working s1))) = ord_id r0" by (simp add: new(1))
  with cancel_order_stock [OF assms(5) ok1, of k] have
    "available_of (committed s2) k = available_of (working s1) k + quantity_of k (map snd irs)"
    "reserved_of (committed s2) k = reserved_of (working s1) k - quantity_of k (map snd irs)"
    by (simp_all only: active)
  ultimately show ?thesis using av ok1 assms(2) by simp
qed

theorem place_then_cancel_restores_stock_witness:
  "\<exists>body s1 r s2. create_order default_settings (\<lambda>x. []) (buy 4) client None stocked = (Inr body, s1) \<and>
     cancel_order (ord_id (last (orders (working s1)))) client s1 = (Inr r, s2) \<and>
     available_of (committed s2) (''p1'', ''w1'') = 5"
proof -
  let ?m = "create_order default_settings (\<lambda>x. []) (buy 4) client None stocked"
  let ?n = "cancel_order (ord_id (last (orders (working (snd ?m))))) client (snd ?m)"
  have "fst ?m = Inr (projr (fst ?m))" "fst ?n = Inr (projr (fst ?n))" by code_simp+
  note run = this [THEN ran]
  have "db_ok default_settings (working stocked)" using stocked_facts(2) stocked_ok by simp
  from place_then_cancel_restores_stock [OF run(1) this buy_valid(1,3) run(2), of "(''p1'', ''w1'')"]
  have "available_of (committed (snd ?n)) (''p1'', ''w1'') = available_of (working stocked) (''p1'', ''w1'')" by simp
  moreover have "available_of (working stocked) (''p1'', ''w1'') = 5" by code_simp
  ultimately show ?thesis using run by metis
qed

end
