(* ===== verification/Worker_Properties.thy ===== *)
theory Worker_Properties
  imports History Sample
begin

text \<open>
  What the workers promise: processing an order once, whatever the deliveries; retries that end; the
  sweep of expired reservations; the relay of the outbox.
\<close>

section \<open>Processing an order\<close>

text \<open>
  C9. A delivery for an order that is not RESERVED, or that does not exist, ends normally and
  changes nothing: duplicate and late deliveries are harmless.
\<close>

theorem duplicate_delivery_is_harmless:
  assumes "unique_orders (committed s)" and "\<forall>r\<in>set (orders (committed s)). ord_id r = i \<longrightarrow> ord_status r \<noteq> RESERVED"
  shows "process_order cfg i s = (Inr (), s\<lparr>working := committed s\<rparr>)"
proof -
  let ?s = "s\<lparr>working := committed s\<rparr>"
  have same: "?s\<lparr>committed := working ?s\<rparr> = ?s" by simp
  have "process_begin i ?s = (Inr None, ?s)"
  proof (cases "has_order (committed s) i")
    case True
    then obtain r where r: "r \<in> set (orders (committed s))" "ord_id r = i" by (auto simp: has_order_def)
    with order_get_found(1) [of ?s r] assms show ?thesis
      by (simp add: process_begin_def and_then_def commit_def return_def)
  next
    case False
    then have "order_get_by_id_for_update i ?s = (Inr None, ?s)"
      by (auto simp: order_get_by_id_for_update_def select_one_None has_order_def)
    then show ?thesis by (simp add: process_begin_def and_then_def commit_def return_def)
  qed
  then show ?thesis
    by (simp add: process_order_def with_session_def worker_guard_def try_except_def and_then_def return_def)
qed

definition paid_shop :: session where
  "paid_shop = snd (process_order default_settings ''order_2'' held_shop)"

theorem duplicate_delivery_is_harmless_witness:
  "process_order default_settings ''order_2'' paid_shop = (Inr (), paid_shop\<lparr>working := committed paid_shop\<rparr>)"
proof -
  have "unique_orders (committed paid_shop)" unfolding unique_orders_def paid_shop_def by code_simp
  moreover have "map (\<lambda>r. (ord_id r, ord_status r)) (orders (committed paid_shop)) = [(''order_2'', COMPLETED)]"
    unfolding paid_shop_def by code_simp
  then have "\<forall>r\<in>set (orders (committed paid_shop)). ord_id r = ''order_2'' \<longrightarrow> ord_status r \<noteq> RESERVED" by auto
  ultimately show ?thesis by (rule duplicate_delivery_is_harmless)
qed

lemma order_update_status_ok:
  assumes "unique_orders (working s)" and "r \<in> set (orders (working s))" and "ord_id order = ord_id r"
    and "check_order_row (r\<lparr>ord_processing_attempts := ord_processing_attempts order\<rparr>) = None"
  shows "order_update_status order st s = (Inr (), s\<lparr>working := (working s)\<lparr>orders :=
    update_where (\<lambda>x. ord_id x = ord_id r) (\<lambda>x. x\<lparr>ord_status := st,
      ord_processing_attempts := ord_processing_attempts order, ord_updated_at := clock s\<rparr>) (orders (working s))\<rparr>\<rparr>)"
proof -
  have "check_order_row (x\<lparr>ord_status := st, ord_processing_attempts := ord_processing_attempts order,
      ord_updated_at := clock s\<rparr>) = None" if "x \<in> set (orders (working s))" "ord_id x = ord_id r" for x
    using unique_row [OF assms(1) [unfolded unique_orders_def] that(1) assms(2)] that(2) assms(4)
    by (simp add: check_order_row_def)
  then show ?thesis
    by (simp add: order_update_status_def update_orders_def exec_update_Inr assms(3))
qed

text \<open>
  C29. When the provider fails for a transient reason and attempts are left, the delivery ends with
  the retry signal carrying the configured delay of this attempt, and leaves the order RESERVED with
  one attempt more and everything else, its reservations included, as it was.
\<close>

theorem transient_failure_is_retried:
  assumes "unique_orders (committed s)" and "r \<in> set (orders (committed s))" and "ord_status r = RESERVED"
    and "ord_payment_token r = ''fail_retryable''" and "attempt = ord_processing_attempts r + 1"
    and "attempt < payment_max_attempts cfg" and "check_order_row (r\<lparr>ord_processing_attempts := attempt\<rparr>) = None"
    and "payment_retry_backoff_list cfg = Inr backoff" and "retry_countdown backoff attempt = Inr countdown"
  shows "\<exists>s'. process_order_task cfg (ord_id r) s = (Inr (RetryIn countdown (payment_max_attempts cfg)), s') \<and>
    committed s' = (committed s)\<lparr>orders := map (\<lambda>x. if ord_id x = ord_id r
      then r\<lparr>ord_processing_attempts := attempt, ord_updated_at := clock s\<rparr> else x) (orders (committed s))\<rparr>"
proof -
  let ?s = "s\<lparr>working := committed s\<rparr>" and ?i = "ord_id r"
  let ?mark = "\<lambda>st x. x\<lparr>ord_status := st, ord_processing_attempts := attempt, ord_updated_at := clock s\<rparr>"
  let ?on = "\<lambda>st d. d\<lparr>orders := update_where (\<lambda>x. ord_id x = ?i) (?mark st) (orders d)\<rparr>"
  let ?d1 = "?on PROCESSING (committed s)" and ?order = "r\<lparr>ord_processing_attempts := attempt\<rparr>"
  let ?t = "?s\<lparr>working := ?d1, committed := ?d1\<rparr>" and ?r1 = "?mark PROCESSING r"
  have "order_update_status ?order PROCESSING ?s = (Inr (), ?s\<lparr>working := ?d1\<rparr>)"
    using order_update_status_ok [of ?s r ?order PROCESSING] assms by simp
  with order_get_found(1) [of ?s r] assms(1-3,5)
  have first: "process_begin ?i ?s = (Inr (Some ?order), ?t)"
    by (simp add: process_begin_def and_then_def commit_def return_def Let_def)
  have uniq: "unique_orders ?d1" using assms(1) by (simp add: unique_orders_def map_update_where)
  have r1: "?r1 \<in> set (orders ?d1)" using assms(2) by (force simp: update_where_def)
  have "order_update_status ?r1 RESERVED ?t = (Inr (), ?t\<lparr>working := ?on RESERVED ?d1\<rparr>)"
    using order_update_status_ok [of ?t ?r1 ?r1 RESERVED] uniq r1 assms(7) by (simp add: check_order_row_def)
  moreover have "order_get_by_id_for_update ?i ?t = (Inr (Some ?r1), ?t)"
    using order_get_found(1) [of ?t ?r1] uniq r1 by simp
  ultimately have second: "process_finish cfg ?i attempt (charge (ord_payment_token r)) ?t =
      (Inl (RetryablePaymentError (pay_message (charge (ord_payment_token r))) countdown),
       ?t\<lparr>working := ?on RESERVED ?d1, committed := ?on RESERVED ?d1\<rparr>)"
    using assms(4,6,8,9)
    by (simp add: process_finish_def and_then_def commit_def raise_def schedule_retry_def charge_def)
  have "orders (?on RESERVED ?d1) = map (\<lambda>x. if ord_id x = ?i
      then r\<lparr>ord_processing_attempts := attempt, ord_updated_at := clock s\<rparr> else x) (orders (committed s))"
  proof -
    have "?mark RESERVED r = r\<lparr>ord_processing_attempts := attempt, ord_updated_at := clock s\<rparr>"
      using assms(3) by (cases r) simp
    moreover have "x = r" if "x \<in> set (orders (committed s))" "ord_id x = ?i" for x
      using unique_row [OF assms(1) [unfolded unique_orders_def] that(1) assms(2) that(2)] .
    ultimately show ?thesis by (auto simp: update_where_def)
  qed
  then have d2: "?on RESERVED ?d1 = (committed s)\<lparr>orders := map (\<lambda>x. if ord_id x = ?i
      then r\<lparr>ord_processing_attempts := attempt, ord_updated_at := clock s\<rparr> else x) (orders (committed s))\<rparr>" by simp
  from first second assms(5) show ?thesis unfolding d2 [symmetric]
    by (simp add: process_order_task_def process_order_def with_session_def worker_guard_def try_except_def
        and_then_def return_def raise_def)
qed

definition flaky_shop :: session where
  "flaky_shop = snd (calls [(''user_c'', ReqCreateOrder ((buy 4)\<lparr>req_payment_token := ''fail_retryable''\<rparr>) None)] stocked)"

theorem transient_failure_is_retried_witness:
  "\<exists>s'. process_order_task default_settings ''order_2'' flaky_shop = (Inr (RetryIn 5 3), s') \<and>
     map (\<lambda>x. (ord_status x, ord_processing_attempts x)) (orders (committed s')) = [(RESERVED, 1)]"
proof -
  have "map (\<lambda>r. (ord_id r, ord_status r, ord_payment_token r, ord_processing_attempts r,
      check_order_row (r\<lparr>ord_processing_attempts := 1\<rparr>) = None)) (orders (committed flaky_shop)) =
    [(''order_2'', RESERVED, ''fail_retryable'', 0, True)]" unfolding flaky_shop_def by code_simp
  then obtain r where one: "orders (committed flaky_shop) = [r]" and r: "ord_id r = ''order_2''"
    "ord_status r = RESERVED" "ord_payment_token r = ''fail_retryable''" "1 = ord_processing_attempts r + 1"
    "check_order_row (r\<lparr>ord_processing_attempts := 1\<rparr>) = None" by auto
  have "unique_orders (committed flaky_shop)" "r \<in> set (orders (committed flaky_shop))"
    by (simp_all add: unique_orders_def one)
  from transient_failure_is_retried [OF this r(2-4) _ r(5) default_backoff, of 5] r(1,2) one
  show ?thesis by (auto simp: default_settings_def retry_countdown_def)
qed

section \<open>The end of an order\<close>

definition settle_rows :: "ident \<Rightarrow> (reservation \<Rightarrow> reservation) \<Rightarrow> reservation list \<Rightarrow> reservation list" where
  "settle_rows i f = map (\<lambda>x. if resv_order_id x = i \<and> resv_status x = ACTIVE then f x else x)"

definition active_in :: "ident \<Rightarrow> db \<Rightarrow> ident \<times> ident \<Rightarrow> int" where
  "active_in i d k =
     sum_where (\<lambda>x. resv_key x = k \<and> resv_order_id x = i \<and> resv_status x = ACTIVE) resv_quantity (reservations d)"

lemma order_closed_account:
  assumes "order_closed f credit r st n d d'"
  shows "reservations d' = settle_rows (ord_id r) (f n) (reservations d)"
    and "available_of d' k = available_of d k +
      sum_where (\<lambda>x. resv_key x = k \<and> resv_order_id x = ord_id r \<and> resv_status x = ACTIVE)
        (\<lambda>x. credit (resv_quantity x)) (reservations d)"
    and "reserved_of d' k = reserved_of d k - active_in (ord_id r) d k"
    and "dead_letters d' = dead_letters d"
proof -
  from assms obtain d1 t where d1: "stock_frame d d1" "reservations d1 = settle_rows (ord_id r) (f n) (reservations d)"
    "\<forall>k. available_of d1 k = available_of d k +
      sum_where (\<lambda>x. resv_key x = k \<and> resv_order_id x = ord_id r \<and> resv_status x = ACTIVE)
        (\<lambda>x. credit (resv_quantity x)) (reservations d)"
    "\<forall>k. reserved_of d1 k = reserved_of d k - active_in (ord_id r) d k" and d': "d' = d1\<lparr>orders := t\<rparr>"
    unfolding order_closed_def settle_rows_def active_in_def update_where_def by blast
  have "available_of d' = available_of d1" "reserved_of d' = reserved_of d1"
    using account_of_unchanged [of d' d1] by (simp_all add: d')
  then show "reservations d' = settle_rows (ord_id r) (f n) (reservations d)"
    "available_of d' k = available_of d k +
      sum_where (\<lambda>x. resv_key x = k \<and> resv_order_id x = ord_id r \<and> resv_status x = ACTIVE)
        (\<lambda>x. credit (resv_quantity x)) (reservations d)"
    "reserved_of d' k = reserved_of d k - active_in (ord_id r) d k" "dead_letters d' = dead_letters d"
    using d1(1,2) spec [OF d1(3), of k] spec [OF d1(4), of k] by (simp_all add: d' stock_frame_def)
qed

lemma worker_guard_Inr: "worker_guard m s = (Inr x, t) \<Longrightarrow> m s = (Inr x, t)"
proof (cases "m s")
  fix q t' assume run: "worker_guard m s = (Inr x, t)" and m: "m s = (q, t')"
  show "m s = (Inr x, t)"
  proof (cases q)
    case (Inl e)
    with run m show ?thesis by (cases e) (simp_all add: worker_guard_def try_except_def)
  next
    case (Inr y)
    with run m show ?thesis by (simp add: worker_guard_def try_except_def)
  qed
qed

text \<open>A normal end, taken apart.\<close>

lemma process_order_Inr:
  assumes run: "process_order cfg i s = (Inr u, s')" and ok: "db_ok cfg (committed s)"
    and x: "x \<in> set (orders (committed s))" "ord_id x = i" "ord_status x = RESERVED"
  obtains t t' where "process_finish cfg i (ord_processing_attempts x + 1) (charge (ord_payment_token x)) t = (Inr (), t')"
    and "working t = committed t" and "clock t = clock s" and "committed s' = committed t'"
    and "committed t = (committed s)\<lparr>orders := update_where (\<lambda>y. ord_id y = i) (begun (clock s)) (orders (committed s))\<rparr>"
    and "db_ok cfg (committed t)" and "begun (clock s) x \<in> set (orders (committed t))"
proof -
  let ?s = "s\<lparr>working := committed s\<rparr>"
  from run obtain job t t' where b: "process_begin i ?s = (Inr job, t)"
    and f: "(case job of None \<Rightarrow> return () | Some order \<Rightarrow> process_finish cfg i (ord_processing_attempts order)
          (charge (ord_payment_token order))) t = (Inr (), t')" and s': "committed s' = committed t'"
    by (fastforce simp: process_order_def with_session_eq dest!: worker_guard_Inr)
  have u: "unique_orders (working ?s)" using db_okD(5) [OF ok] by simp
  have one: "y = x" if "y \<in> set (orders (committed s))" "ord_id y = i" for y
    using unique_row [OF db_okD(5) [OF ok, unfolded unique_orders_def] that(1) x(1)] that(2) x(2) by simp
  have "job \<noteq> None"
  proof
    assume none: "job = None"
    from process_begin_Inr [OF b [unfolded none] u] x show False by auto
  qed
  then obtain order where job: "job = Some order" by auto
  from process_begin_Inr [OF b [unfolded job] u] obtain y where y: "y \<in> set (orders (committed s))" "ord_id y = i"
      "order = y\<lparr>ord_processing_attempts := ord_processing_attempts y + 1\<rparr>"
    and t: "working t = (committed s)\<lparr>orders := update_where (\<lambda>y. ord_id y = i) (begun (clock s)) (orders (committed s))\<rparr>"
      "committed t = working t" by auto
  have ck: "clock t = clock s"
    using b unfolding process_begin_def
    by (auto simp: and_then_def commit_def return_def Let_def dest!: order_get_Some order_get_None order_update_status_effect
        split: prod.splits sum.splits option.splits if_splits)
  have yx: "y = x" by (rule one [OF y(1,2)])
  from db_change_ok [OF db_change.order_begun [OF x(1,3), of cfg "\<lambda>z. z" "clock s"] ok] x(2)
  have ok': "db_ok cfg (committed t)" by (simp add: t)
  have "begun (clock s) x \<in> set (orders (committed t))"
    using x(1,2) by (force simp: t update_where_def)
  from that [OF _ _ ck s' _ ok' this] f job y(3) yx t show thesis by simp
qed

lemma process_finish_Inr:
  assumes run: "process_finish cfg i attempt outcome s = (Inr u, s')" and ok: "db_ok cfg (working s)"
    and same: "working s = committed s" and r: "r \<in> set (orders (working s))" "ord_id r = i"
  shows "if pay_result outcome = PAY_SUCCESS
    then order_closed consume_row (\<lambda>_. 0) r COMPLETED (clock s) (working s) (committed s')
    else \<exists>d1 dl. order_closed release_row (\<lambda>q. q) r FAILED (clock s) (working s) d1 \<and>
      committed s' = d1\<lparr>dead_letters := dead_letters d1 @ dl\<rparr> \<and>
      map (\<lambda>x. (dlq_order_id x, dlq_reason x, dlq_attempts x)) dl =
        (if payment_max_attempts cfg \<le> attempt then [(i, pay_message outcome, attempt)] else [])"
proof -
  note sound = db_okD(1) [OF ok]
  have "order_get_by_id_for_update i s = (Inr (Some r), s)"
    using order_get_found(1) [OF db_okD(5) [OF ok] r(1)] r(2) by simp
  then have body: "(if pay_result outcome = PAY_SUCCESS then complete_order i r
     else if pay_retryable outcome \<and> attempt < payment_max_attempts cfg then
       and_then (order_update_status r RESERVED) (\<lambda>_. and_then commit (\<lambda>_.
       schedule_retry cfg attempt (pay_message outcome)))
     else and_then (fail_order i r) (\<lambda>_.
       if attempt \<ge> payment_max_attempts cfg then
         and_then (dead_letter_record i (pay_message outcome) attempt) (\<lambda>_. commit)
       else return ())) s = (Inr u, s')"
    using run by (simp add: process_finish_def and_then_def)
  have no_retry: "schedule_retry cfg attempt m t \<noteq> (Inr u, t')" for m t t'
    by (simp add: schedule_retry_def raise_def split: sum.splits)
  show ?thesis
  proof (cases "pay_result outcome = PAY_SUCCESS")
    case True
    with body have "complete_order i r s = (Inr u, s')" by simp
    from complete_order_Inr(1,3) [OF this r(2) sound] True show ?thesis by simp
  next
    case False
    with body no_retry obtain x t where fail: "fail_order i r s = (Inr x, t)"
      and rest: "(if attempt \<ge> payment_max_attempts cfg then
         and_then (dead_letter_record i (pay_message outcome) attempt) (\<lambda>_. commit) else return ()) t = (Inr u, s')"
      by (auto split: if_splits)
    note f = fail_order_Inr [OF fail r(2) sound]
    from rest f(3) have "\<exists>dl. committed s' = (working t)\<lparr>dead_letters := dead_letters (working t) @ dl\<rparr> \<and>
        map (\<lambda>x. (dlq_order_id x, dlq_reason x, dlq_attempts x)) dl =
          (if payment_max_attempts cfg \<le> attempt then [(i, pay_message outcome, attempt)] else [])"
      by (auto simp: dead_letter_record_def exec_insert_Inr split: if_splits)
    with f(1) show ?thesis unfolding if_not_P [OF False] by blast
  qed
qed

text \<open>
  C8. A delivery that ends normally for a RESERVED order decides it. Payment accepted: the order is
  COMPLETED, its active reservations are CONSUMED, the reserved stock falls by them and no available
  stock moves. Payment declined, or out of attempts: the order is FAILED, its active reservations
  are RELEASED and their quantities are available again; a dead letter is written exactly when the
  attempts are used up.
\<close>

theorem normal_end_decides:
  assumes "process_order cfg i s = (Inr u, s')" and "db_ok cfg (committed s)"
    and "r \<in> set (orders (committed s))" and "ord_id r = i" and "ord_status r = RESERVED"
    and "paid \<longleftrightarrow> ord_payment_token r \<notin> {''fail'', ''fail_retryable''}"
  shows "r\<lparr>ord_processing_attempts := ord_processing_attempts r + 1, ord_status := if paid then COMPLETED else FAILED,
       ord_updated_at := clock s\<rparr> \<in> set (orders (committed s')) \<and>
    reservations (committed s') = settle_rows i (if paid then consume_row (clock s) else release_row (clock s)) (reservations (committed s)) \<and>
    (\<forall>k. available_of (committed s') k = available_of (committed s) k + (if paid then 0 else active_in i (committed s) k) \<and>
         reserved_of (committed s') k = reserved_of (committed s) k - active_in i (committed s) k) \<and>
    (\<exists>dl. dead_letters (committed s') = dead_letters (committed s) @ dl \<and>
       length dl = (if \<not> paid \<and> payment_max_attempts cfg \<le> ord_processing_attempts r + 1 then 1 else 0))"
proof -
  let ?a = "ord_processing_attempts r + 1" and ?o = "charge (ord_payment_token r)"
  from process_order_Inr [OF assms(1-5)] obtain t t' where
    fin: "process_finish cfg i ?a ?o t = (Inr (), t')" and t: "working t = committed t" "clock t = clock s"
      "committed s' = committed t'" "committed t = (committed s)\<lparr>orders :=
        update_where (\<lambda>y. ord_id y = i) (begun (clock s)) (orders (committed s))\<rparr>"
      "db_ok cfg (committed t)" "begun (clock s) r \<in> set (orders (committed t))" by blast
  have id: "ord_id (begun (clock s) r) = i" using assms(4) by (simp add: begun_def)
  have ok: "db_ok cfg (working t)" and mem: "begun (clock s) r \<in> set (orders (working t))" using t by simp_all
  have paid: "pay_result ?o = PAY_SUCCESS \<longleftrightarrow> paid" using assms(6) by (simp add: charge_cases(1))
  note f = process_finish_Inr [OF fin ok t(1) mem id]
  have same: "reservations (working t) = reservations (committed s)" "dead_letters (working t) = dead_letters (committed s)"
    "available_of (working t) = available_of (committed s)" "reserved_of (working t) = reserved_of (committed s)"
    "active_in i (working t) = active_in i (committed s)"
    using account_of_unchanged [of "working t" "committed s"] t by (simp_all add: active_in_def [abs_def])
  show ?thesis
  proof (cases paid)
    case True
    with f paid have closed: "order_closed consume_row (\<lambda>_. 0) (begun (clock s) r) COMPLETED (clock s) (working t) (committed s')"
      by (simp add: t)
    have zero: "sum_where p (\<lambda>_. 0) xs = 0" for p and xs :: "reservation list" by (induction xs) auto
    note row = order_closed_row(2) [OF closed db_okD(5) [OF ok] mem]
    show ?thesis
      using order_closed_account [OF closed] row True id zero same by (simp add: begun_def)
  next
    case False
    with f paid obtain d1 dl where closed: "order_closed release_row (\<lambda>q. q) (begun (clock s) r) FAILED (clock s) (working t) d1"
      and d': "committed s' = d1\<lparr>dead_letters := dead_letters d1 @ dl\<rparr>"
      and dl: "map (\<lambda>x. (dlq_order_id x, dlq_reason x, dlq_attempts x)) dl =
        (if payment_max_attempts cfg \<le> ?a then [(i, pay_message ?o, ?a)] else [])" by (auto simp: t)
    have len: "length dl = (if payment_max_attempts cfg \<le> ?a then 1 else 0)"
      using arg_cong [OF dl, of length] by simp
    have acc: "available_of (committed s') = available_of d1" "reserved_of (committed s') = reserved_of d1"
      using account_of_unchanged [of "committed s'" d1] by (simp_all add: d')
    note row = order_closed_row(2) [OF closed db_okD(5) [OF ok] mem]
    show ?thesis
      using order_closed_account [OF closed] row False id same len acc
      by (simp add: begun_def d' active_in_def)
  qed
qed

theorem normal_end_decides_witness:
  "\<exists>s'. process_order default_settings ''order_2'' held_shop = (Inr (), s') \<and>
     available_of (committed s') (''p1'', ''w1'') = 1 \<and> reserved_of (committed s') (''p1'', ''w1'') = 0"
proof -
  let ?m = "process_order default_settings ''order_2'' held_shop"
  have "fst ?m = Inr ()" by code_simp
  note run = ran [OF this]
  let ?r = "hd (orders (committed held_shop))"
  have r: "?r \<in> set (orders (committed held_shop))" "ord_id ?r = ''order_2''" "ord_status ?r = RESERVED"
    and tok: "ord_payment_token ?r = ''success''" by code_simp+
  have "available_of (committed held_shop) (''p1'', ''w1'') = 1" "reserved_of (committed held_shop) (''p1'', ''w1'') = 4"
    "active_in ''order_2'' (committed held_shop) (''p1'', ''w1'') = 4" by code_simp+
  with normal_end_decides [OF run held_shop_facts(1) r refl] tok run show ?thesis by auto
qed

section \<open>Retries end\<close>

fun deliveries :: "nat \<Rightarrow> settings \<Rightarrow> ident \<Rightarrow> session \<Rightarrow> session" where
  "deliveries 0 cfg i s = s"
| "deliveries (Suc n) cfg i s = snd (process_order_task cfg i (deliveries n cfg i s))"

lemma process_order_task_committed:
  "committed (snd (process_order_task cfg i s)) = committed (snd (process_order cfg i s))"
proof (cases "process_order cfg i s")
  case (Pair q t)
  then show ?thesis
  proof (cases q)
    case (Inl e)
    with Pair show ?thesis
      by (cases e) (simp_all add: process_order_task_def try_except_def and_then_def return_def raise_def)
  qed (simp add: process_order_task_def try_except_def and_then_def return_def)
qed

lemma process_order_split:
  assumes "process_order cfg i s = (res, s')"
  obtains q t where "process_begin i (s\<lparr>working := committed s\<rparr>) = (q, t)"
    and "case q of Inr (Some order) \<Rightarrow> (\<exists>t'. process_finish cfg i (ord_processing_attempts order)
          (charge (ord_payment_token order)) t = (res, t') \<and> committed s' = committed t')
      | _ \<Rightarrow> committed s' = committed t"
proof -
  let ?s = "s\<lparr>working := committed s\<rparr>"
  let ?rest = "\<lambda>job. case job of None \<Rightarrow> return () | Some order \<Rightarrow>
    process_finish cfg i (ord_processing_attempts order) (charge (ord_payment_token order))"
  from assms obtain u where "worker_guard (and_then (process_begin i) ?rest) ?s = (res, u)" and s': "committed s' = committed u"
    by (auto simp: process_order_def with_session_eq)
  from worker_guard_committed [OF this(1)] obtain v where
    v: "and_then (process_begin i) ?rest ?s = (res, v)" "committed u = committed v" by blast
  obtain q t where b: "process_begin i ?s = (q, t)" by (cases "process_begin i ?s")
  from v b s' show thesis
    by (intro that [OF b]) (auto simp: and_then_def return_def split: sum.splits option.splits)
qed

lemma finish_keeps_attempts:
  assumes "finish_outcome cfg r attempt outcome n d d'" and "unique_orders d" and "r \<in> set (orders d)" and "ord_status r = PROCESSING"
  shows "\<exists>r'\<in>set (orders d'). ord_id r' = ord_id r \<and> ord_processing_attempts r' = ord_processing_attempts r"
proof -
  from finish_outcome_step [OF assms] obtain h new where h: "orders d' = map h (orders d) @ new"
    "row_step (Finishes (ord_id r)) r (h r)" using assms(3) unfolding orders_step_def by blast
  from h(2) assms(4) have "ord_id (h r) = ord_id r" "ord_processing_attempts (h r) = ord_processing_attempts r"
    by (auto simp: row_step_def same_order_def)
  moreover have "h r \<in> set (orders d')" using h(1) assms(3) by simp
  ultimately show ?thesis by blast
qed

text \<open>What a delivery commits: nothing, or a state with one attempt more.\<close>

lemma process_order_commits:
  assumes run: "process_order cfg i s = (res, s')" and ok: "db_ok cfg (committed s)"
  shows "db_ok cfg (committed s') \<and> (committed s' = committed s \<or>
    (\<exists>r\<in>set (orders (committed s)). \<exists>r'\<in>set (orders (committed s')). ord_id r = i \<and> ord_id r' = i \<and>
       ord_processing_attempts r' = ord_processing_attempts r + 1))"
proof -
  let ?s = "s\<lparr>working := committed s\<rparr>"
  from process_order_split [OF run] obtain q t where b: "process_begin i ?s = (q, t)"
    and rest: "case q of Inr (Some order) \<Rightarrow> (\<exists>t'. process_finish cfg i (ord_processing_attempts order)
          (charge (ord_payment_token order)) t = (res, t') \<and> committed s' = committed t')
      | _ \<Rightarrow> committed s' = committed t" by blast
  have u: "unique_orders (working ?s)" using db_okD(5) [OF ok] by simp
  consider (error) e where "q = Inl e" | (skip) "q = Inr None" | (job) order where "q = Inr (Some order)"
    by (cases q) auto
  then show ?thesis
  proof cases
    case error
    with rest fails_cleanD [OF fails_clean_begin b [unfolded error]] ok show ?thesis by simp
  next
    case skip
    with rest process_begin_Inr [OF b [unfolded skip] u] ok show ?thesis by simp
  next
    case (job order)
    from process_begin_Inr [OF b [unfolded job] u] obtain r where
      r: "r \<in> set (orders (committed s))" "ord_id r = i" "ord_status r = RESERVED"
      and order: "order = r\<lparr>ord_processing_attempts := ord_processing_attempts r + 1\<rparr>"
      and t: "working t = (committed s)\<lparr>orders := update_where (\<lambda>x. ord_id x = i) (begun (clock s)) (orders (committed s))\<rparr>"
        "committed t = working t" by auto
    from db_change_ok [OF db_change.order_begun [OF r(1,3), of cfg "\<lambda>x. x" "clock s"] ok] r(2)
    have ok': "db_ok cfg (working t)" by (simp add: t(1))
    let ?r = "begun (clock s) r"
    have mem: "?r \<in> set (orders (working t))" using r(1,2) by (force simp: t(1) update_where_def)
    have row: "ord_id ?r = i" "ord_status ?r = PROCESSING" "ord_processing_attempts ?r = ord_processing_attempts r + 1"
      using r(2) by (simp_all add: begun_def)
    from rest job obtain t' where f: "process_finish cfg i (ord_processing_attempts order)
        (charge (ord_payment_token order)) t = (res, t')" and s': "committed s' = committed t'" by auto
    from process_finish_commits [OF f t(2) [symmetric] db_okD(1) [OF ok']] show ?thesis
    proof (elim disjE bexE conjE)
      assume "committed t' = committed t"
      with s' t(2) ok' mem row r(1,2) show ?thesis by auto
    next
      fix y assume y: "y \<in> set (orders (working t))" "ord_id y = i" "stock_sound [] (committed t')"
        "finish_outcome cfg y (ord_processing_attempts order) (charge (ord_payment_token order)) (clock t) (working t) (committed t')"
      have y': "y = ?r" using unique_row [OF db_okD(5) [OF ok', unfolded unique_orders_def] y(1) mem] y(2) row(1) by simp
      have "ord_processing_attempts order = ord_processing_attempts ?r" by (simp add: order row(3))
      from db_change_ok [OF db_change.order_finished [OF mem row(2) this y(4) [unfolded y'] y(3), of "\<lambda>x. x"] ok'] s'
      have "db_ok cfg (committed s')" by simp
      with finish_keeps_attempts [OF y(4) [unfolded y'] db_okD(5) [OF ok'] mem row(2)] row r(1,2) s'
      show ?thesis by auto
    qed
  qed
qed

lemma deliveries_ok: "db_ok cfg (committed s) \<Longrightarrow> db_ok cfg (committed (deliveries n cfg i s))"
proof (induction n)
  case (Suc n)
  obtain res s' where run: "process_order cfg i (deliveries n cfg i s) = (res, s')"
    by (cases "process_order cfg i (deliveries n cfg i s)")
  from process_order_commits [OF run Suc.IH [OF Suc.prems]] run show ?case by (simp add: process_order_task_committed)
qed simp

definition attempts_of :: "ident \<Rightarrow> db \<Rightarrow> int" where
  "attempts_of i d = sum_list (map ord_processing_attempts (filter (\<lambda>r. ord_id r = i) (orders d)))"

lemma attempts_of_row: "unique_orders d \<Longrightarrow> r \<in> set (orders d) \<Longrightarrow> attempts_of (ord_id r) d = ord_processing_attempts r"
  using filter_unique [of ord_id "orders d" r] by (simp add: attempts_of_def unique_orders_def)

text \<open>
  C30. However often an order is delivered, at most \<open>max_attempts\<close> of the deliveries change anything:
  retries, redeliveries and duplicates of one order end, and the provider is charged at most that
  often.
\<close>

theorem effective_deliveries_are_bounded:
  assumes "db_ok cfg (committed s)"
  shows "int (card {j. j < n \<and> committed (deliveries (Suc j) cfg i s) \<noteq> committed (deliveries j cfg i s)}) \<le> max_attempts cfg"
proof -
  let ?changed = "\<lambda>n. {j. j < n \<and> committed (deliveries (Suc j) cfg i s) \<noteq> committed (deliveries j cfg i s)}"
  let ?d = "\<lambda>n. committed (deliveries n cfg i s)"
  have bounded: "0 \<le> attempts_of i (?d n) \<and> attempts_of i (?d n) \<le> max_attempts cfg" for n
  proof (cases "\<exists>r\<in>set (orders (?d n)). ord_id r = i")
    case True
    then obtain r where r: "r \<in> set (orders (?d n))" "ord_id r = i" by blast
    from attempts_of_row [OF db_okD(5) [OF deliveries_ok [OF assms]] r(1)] r
      db_okD(2) [OF deliveries_ok [OF assms]] show ?thesis by (auto simp: orders_ok_def order_ok_def)
  next
    case False
    then have "filter (\<lambda>r. ord_id r = i) (orders (?d n)) = []" by (auto simp: filter_empty_conv)
    then show ?thesis by (simp add: attempts_of_def max_attempts_def)
  qed
  have "attempts_of i (?d n) = attempts_of i (?d 0) + int (card (?changed n))" for n
  proof (induction n)
    case (Suc n)
    have step: "?changed (Suc n) = (if ?d (Suc n) \<noteq> ?d n then insert n (?changed n) else ?changed n)"
      by (auto simp: less_Suc_eq simp del: deliveries.simps)
    obtain res s' where run: "process_order cfg i (deliveries n cfg i s) = (res, s')"
      by (cases "process_order cfg i (deliveries n cfg i s)")
    have d: "?d (Suc n) = committed s'" using run by (simp add: process_order_task_committed)
    from process_order_commits [OF run deliveries_ok [OF assms]] attempts_of_row db_okD(5) [OF deliveries_ok [OF assms]] db_okD(5)
    have "?d (Suc n) = ?d n \<or> attempts_of i (?d (Suc n)) = attempts_of i (?d n) + 1" unfolding d by metis
    moreover have "finite (?changed n)" "n \<notin> ?changed n" by simp_all
    ultimately show ?case using Suc.IH unfolding step by (auto simp del: deliveries.simps)
  qed simp
  from this [of n] bounded [of n] bounded [of 0] show ?thesis by linarith
qed

theorem effective_deliveries_are_bounded_witness:
  "int (card {j. j < 9 \<and> committed (deliveries (Suc j) default_settings ''order_2'' flaky_shop) \<noteq>
     committed (deliveries j default_settings ''order_2'' flaky_shop)}) \<le> 3"
proof -
  have "db_ok default_settings (committed flaky_shop)" unfolding flaky_shop_def by (rule calls_ok) (rule stocked_ok)
  from effective_deliveries_are_bounded [OF this, of 9 "''order_2''"] show ?thesis
    by (simp add: max_attempts_def default_settings_def del: deliveries.simps)
qed

section \<open>Expired reservations\<close>

text \<open>
  C31. The sweep ends. With more passes than there are active reservations it either raises or
  returns the number of reservations it released; then no active reservation is left that had
  expired when it began, and the number of active ones fell by exactly the number returned.
\<close>

theorem sweep_ends:
  assumes "expire_reservations fuel nows s = (res, s')" and "active_count (committed s) < fuel"
    and "db_ok cfg (committed s)" and "\<And>i j. i \<le> j \<Longrightarrow> nows i \<le> nows j"
  shows "(\<exists>e. res = Inl e) \<or> (\<exists>n. res = Inr (Some n) \<and> active_count (committed s) = active_count (committed s') + n \<and>
    (\<forall>r\<in>set (reservations (committed s')). resv_status r = ACTIVE \<longrightarrow> nows 0 \<le> resv_expires_at r))"
  using expire_loop_outcome [OF assms(1) [unfolded expire_reservations_def] _ assms(2) db_okD(1,5) [OF assms(3)] assms(4)]
  by (simp add: BATCH_SIZE_def)

theorem sweep_ends_witness:
  "\<exists>s'. expire_reservations 2 (\<lambda>j. 900000001) held_shop = (Inr (Some 1), s') \<and> active_count (committed s') = 0"
proof -
  have "fst (expire_reservations 2 (\<lambda>j. 900000001) held_shop) = Inr (Some 1)" by code_simp
  note run = ran [OF this]
  have "active_count (committed held_shop) = 1" by code_simp
  with sweep_ends [OF run _ held_shop_facts(1)] run show ?thesis by auto
qed

text \<open>
  C32. One pass takes at most \<open>BATCH_SIZE\<close> reservations that are active and past their expiry, all of
  them if there are no more; it marks exactly those RELEASED, gives exactly their quantities back,
  turns the RESERVED orders among theirs to EXPIRED and no other order, all in one commit. A pass
  that raises commits nothing.
\<close>

theorem sweep_pass:
  assumes "expire_pass limit s = (res, s')" and "db_ok cfg (committed s)"
    and "batch = take limit (filter (\<lambda>r. resv_status r = ACTIVE \<and> resv_expires_at r < clock s) (reservations (committed s)))"
  shows "case res of Inl e \<Rightarrow> committed s' = committed s
    | Inr None \<Rightarrow> committed s' = committed s \<and> batch = []
    | Inr (Some n) \<Rightarrow> n = length batch \<and> n \<noteq> 0 \<and>
        reservations (committed s') = map (\<lambda>r. if resv_id r \<in> resv_id ` set batch
          then r\<lparr>resv_status := RELEASED, resv_released_at := Some (clock s)\<rparr> else r) (reservations (committed s)) \<and>
        orders (committed s') = map (\<lambda>o'. if ord_id o' \<in> resv_order_id ` set batch \<and> ord_status o' = RESERVED
          then o'\<lparr>ord_status := EXPIRED, ord_updated_at := clock s\<rparr> else o') (orders (committed s)) \<and>
        (\<forall>k. available_of (committed s') k = available_of (committed s) k + quantity_of k batch)"
proof -
  from expire_pass_commits(2) [OF assms(1) db_okD(1,5) [OF assms(2)]] show ?thesis
  proof (elim disjE exE conjE)
    fix b assume res: "res = Inr (Some (length b))" and b: "batch_expired limit (clock s) b (committed s) (committed s')"
    have "b = batch" using batch_expiredD(2) [OF b] assms(3) by simp
    with res batch_expiredD(1,3,4) [OF b] b show ?thesis
      by (simp add: update_where_def expire_orders_def [abs_def] batch_expired_def)
  qed (use assms(3) in \<open>auto split: option.splits\<close>)
qed

theorem sweep_pass_witness:
  "\<exists>s'. expire_pass 100 (held_shop\<lparr>clock := 900000001\<rparr>) = (Inr (Some 1), s') \<and>
     map ord_status (orders (committed s')) = [EXPIRED]"
proof -
  let ?s = "held_shop\<lparr>clock := 900000001\<rparr>"
  have "fst (expire_pass 100 ?s) = Inr (Some 1)" by code_simp
  note run = ran [OF this]
  have ok: "db_ok default_settings (committed ?s)" using held_shop_facts(1) by simp
  have batch: "map resv_order_id (take 100 (filter (\<lambda>r. resv_status r = ACTIVE \<and> resv_expires_at r < clock ?s)
      (reservations (committed ?s)))) = [''order_2'']" by code_simp
  have "map (\<lambda>r. (ord_id r, ord_status r)) (orders (committed ?s)) = [(''order_2'', RESERVED)]" by code_simp
  then obtain r where r: "orders (committed ?s) = [r]" "ord_id r = ''order_2''" "ord_status r = RESERVED" by auto
  have "''order_2'' \<in> resv_order_id ` set (take 100 (filter (\<lambda>r. resv_status r = ACTIVE \<and> resv_expires_at r < clock ?s)
      (reservations (committed ?s))))"
    using arg_cong [OF batch, of set] by auto
  with sweep_pass [OF run ok refl] run r show ?thesis by auto
qed

end
