(* ===== verification/Catalog_History.thy ===== *)
theory Catalog_History
  imports History
begin

text \<open>
  The users, products and warehouses along any run of the service: their rows keep the types and
  lengths of their columns, and emails, SKUs and ids stay unique, since rows are only ever added and
  PostgreSQL checks each.
\<close>

definition catalog_ok :: "db \<Rightarrow> bool" where
  "catalog_ok d \<longleftrightarrow> distinct (map user_id (users d)) \<and> distinct (map user_email (users d)) \<and>
     distinct (map prod_id (products d)) \<and> distinct (map prod_sku (products d)) \<and>
     distinct (map wh_id (warehouses d)) \<and>
     (\<forall>u\<in>set (users d). varchar 255 (user_email u)) \<and>
     (\<forall>p\<in>set (products d). varchar 64 (prod_sku p) \<and> varchar 255 (prod_name p) \<and> numeric_12_2 (prod_price p)) \<and>
     (\<forall>w\<in>set (warehouses d). varchar 255 (wh_name w) \<and> varchar 255 (wh_location w))"

lemma catalog_ok_cong:
  "users d' = users d \<Longrightarrow> products d' = products d \<Longrightarrow> warehouses d' = warehouses d \<Longrightarrow>
    catalog_ok d' = catalog_ok d"
  by (simp add: catalog_ok_def)

lemma check_user_None: "check_user d u = None \<longleftrightarrow> varchar 64 (user_id u) \<and> varchar 255 (user_email u) \<and>
    varchar 255 (user_hashed_password u) \<and>
    user_id u \<notin> user_id ` set (users d) \<and> user_email u \<notin> user_email ` set (users d)"
  by (simp add: check_user_def)

lemma check_product_None: "check_product d p = None \<longleftrightarrow> varchar 64 (prod_id p) \<and> varchar 64 (prod_sku p) \<and> varchar 255 (prod_name p) \<and>
    numeric_12_2 (prod_price p) \<and> prod_id p \<notin> prod_id ` set (products d) \<and> prod_sku p \<notin> prod_sku ` set (products d)"
  by (simp add: check_product_def)

lemma check_warehouse_None: "check_warehouse d w = None \<longleftrightarrow> varchar 64 (wh_id w) \<and> varchar 255 (wh_name w) \<and>
    varchar 255 (wh_location w) \<and> wh_id w \<notin> wh_id ` set (warehouses d)"
  by (simp add: check_warehouse_def)

text \<open>The widths of the ids and of the password hashes, and the ids of the rows of stock.\<close>

definition ids_ok :: "db \<Rightarrow> bool" where
  "ids_ok d \<longleftrightarrow> (\<forall>u\<in>set (users d). varchar 64 (user_id u) \<and> varchar 255 (user_hashed_password u)) \<and>
     (\<forall>p\<in>set (products d). varchar 64 (prod_id p)) \<and> (\<forall>w\<in>set (warehouses d). varchar 64 (wh_id w)) \<and>
     distinct (map inv_id (inventory d)) \<and> (\<forall>r\<in>set (inventory d). varchar 64 (inv_id r))"

definition typed_ok :: "db \<Rightarrow> bool" where
  "typed_ok d \<longleftrightarrow> catalog_ok d \<and> ids_ok d"

definition stock_ids_grow :: "db \<Rightarrow> db \<Rightarrow> bool" where
  "stock_ids_grow d d' \<longleftrightarrow> map inv_id (inventory d') = map inv_id (inventory d) \<or>
     (\<exists>x. inventory d' = inventory d @ [x] \<and> new_inv_id x d)"

lemma stock_ids_same [simp]: "map inv_id (inventory d') = map inv_id (inventory d) \<Longrightarrow> stock_ids_grow d d'"
  by (simp add: stock_ids_grow_def)

definition same_catalog :: "db \<Rightarrow> db \<Rightarrow> bool" where
  "same_catalog d d' \<longleftrightarrow> users d' = users d \<and> products d' = products d \<and> warehouses d' = warehouses d \<and>
     stock_ids_grow d d'"

lemma same_catalog_typed:
  assumes "same_catalog d d'" and "typed_ok d"
  shows "typed_ok d'"
proof -
  have same: "catalog_ok d' = catalog_ok d" using assms(1) by (intro catalog_ok_cong) (simp_all add: same_catalog_def)
  have ids: "ids_ok d' \<longleftrightarrow> ids_ok (d\<lparr>inventory := inventory d'\<rparr>)"
    using assms(1) by (simp add: ids_ok_def same_catalog_def)
  from assms(1) have "stock_ids_grow d d'" by (simp add: same_catalog_def)
  then have "ids_ok (d\<lparr>inventory := inventory d'\<rparr>)"
  proof (cases "map inv_id (inventory d') = map inv_id (inventory d)")
    case True
    then have "inv_id ` set (inventory d') = inv_id ` set (inventory d)" by (metis list.set_map)
    with True assms(2) show ?thesis by (simp add: typed_ok_def ids_ok_def flip: ball_simps(9))
  next
    case False
    with \<open>stock_ids_grow d d'\<close> assms(2) show ?thesis
      by (auto simp: stock_ids_grow_def typed_ok_def ids_ok_def new_inv_id_def)
  qed
  with same ids assms(2) show ?thesis by (simp add: typed_ok_def)
qed

lemma stock_frame_catalog: "stock_frame d d' \<Longrightarrow> same_catalog d d'"
  by (simp add: stock_frame_def same_catalog_def)

lemma order_closed_catalog: "order_closed f credit r st n d d' \<Longrightarrow> same_catalog d d'"
  unfolding order_closed_def by (elim exE conjE) (drule stock_frame_catalog, simp add: same_catalog_def stock_ids_grow_def)

lemma finish_outcome_catalog: "finish_outcome cfg r attempt outcome n d d' \<Longrightarrow> same_catalog d d'"
  by (auto simp: finish_outcome_def put_back_def same_catalog_def stock_ids_grow_def
      dest!: order_closed_catalog [unfolded same_catalog_def] split: if_splits)

lemma adjusted_catalog:
  assumes "adjusted a d d'"
  shows "same_catalog d d'"
proof (cases "(adj_product_id a, adj_warehouse_id a) \<in> inv_key ` set (inventory d)")
  case True
  with assms have "stock_event (adj_product_id a, adj_warehouse_id a) (adjust_spec (adj_quantity a))
      (adj_quantity a) (adjustment_event_type (adj_quantity a)) (adj_quantity a) (adj_reason a) d d'"
    by (simp add: adjusted_def Let_def)
  from stock_frame_catalog [OF stock_event_frame(1) [OF this]] show ?thesis .
next
  case False
  with assms show ?thesis by (auto simp: adjusted_def Let_def same_catalog_def stock_ids_grow_def)
qed

lemma order_created_catalog:
  assumes "db_ok cfg d" and "key_claimed sha p key claim d d1" and "order_placed cfg p u key claim found n d1 d' body"
  shows "same_catalog d d'"
  by (rule order_created_tables [OF assms]) (simp add: same_catalog_def)

lemma batch_expired_catalog: "batch_expired limit n batch d d' \<Longrightarrow> same_catalog d d'"
proof -
  assume "batch_expired limit n batch d d'"
  from stock_frame_catalog [OF batch_expiredD(6) [OF this, unfolded tables_frame_def]] show ?thesis
    by (auto simp: same_catalog_def stock_ids_grow_def new_inv_id_def)
qed

lemma db_change_catalog:
  assumes ch: "db_change cfg sha n lab d d'" and ok: "db_ok cfg d" and cat: "typed_ok d"
  shows "typed_ok d'"
proof -
  have same: "typed_ok d'" if "same_catalog d d'"
    using same_catalog_typed [OF that cat] .
  show ?thesis
    using ch
  proof (cases rule: db_change.cases)
    case (user_added u)
    with cat show ?thesis by (simp add: typed_ok_def ids_ok_def catalog_ok_def check_user_None)
  next
    case (product_added p)
    with cat show ?thesis by (simp add: typed_ok_def ids_ok_def catalog_ok_def check_product_None)
  next
    case (warehouse_added w)
    with cat show ?thesis by (simp add: typed_ok_def ids_ok_def catalog_ok_def check_warehouse_None)
  next
    case (stock_adjusted a)
    from same [OF adjusted_catalog [OF this(2)]] show ?thesis .
  next
    case (threshold_changed k t)
    then have "same_catalog d d'" by (auto simp: threshold_set_def threshold_row_def same_catalog_def stock_ids_grow_def split: if_splits)
    then show ?thesis by (rule same)
  next
    case order_created
    from same [OF order_created_catalog [OF ok this(3,4)]] show ?thesis .
  next
    case (order_cancelled r)
    from same [OF order_closed_catalog [OF this(4)]] show ?thesis .
  next
    case (order_finished r attempt outcome)
    from same [OF finish_outcome_catalog [OF this(5)]] show ?thesis .
  next
    case (reservations_expired limit batch)
    from same [OF batch_expired_catalog [OF this(2)]] show ?thesis .
  qed (use same in \<open>simp_all add: same_catalog_def cat\<close>)
qed

interpretation catalog: transition_system "sys_step cfg sha c errors" "\<lambda>st. sys_ok cfg st \<and> typed_ok (sys_db st)"
  "\<lambda>st st'. history (sys_db st) (sys_db st')"
  for cfg sha c errors
proof
  show "sys_ok cfg st' \<and> typed_ok (sys_db st')"
    if inv: "sys_ok cfg st \<and> typed_ok (sys_db st)" and step: "sys_step cfg sha c errors st st'" for st st'
  proof
    show "sys_ok cfg st'" using service.step_inv step inv by blast
    from sys_step_change [OF step] inv obtain sha' n lab where "db_change cfg sha' n lab (sys_db st) (sys_db st')" by blast
    from db_change_catalog [OF this sys_okD(1)] inv show "typed_ok (sys_db st')" by blast
  qed
qed (use service.step_rel history_refl history_trans in blast)+

lemma empty_typed_ok: "typed_ok empty_db"
  by (simp add: typed_ok_def ids_ok_def catalog_ok_def empty_db_def)

lemma reachable_typed_ok:
  assumes "committed s = empty_db" and "steps_to (sys_step cfg sha c errors) (service_start s) st"
  shows "typed_ok (sys_db st)"
proof -
  have "sys_ok cfg (service_start s) \<and> typed_ok (sys_db (service_start s))"
    using empty_start_ok [OF assms(1)] empty_typed_ok assms(1) by (simp add: service_start_def)
  from catalog.run_inv [OF assms(2) this] show ?thesis by simp
qed

end
