(* ===== verification/Service_Runs.thy ===== *)
theory Service_Runs
  imports History Sample
begin

text \<open>
  Concrete runs of the whole service, from the empty database: a day on which an administrator
  stocks a product and a client orders it, a worker that holds the order, and the poll that relays
  its event.
\<close>

abbreviation serves :: "system \<Rightarrow> system \<Rightarrow> bool" where
  "serves \<equiv> steps_to (sys_step default_settings (\<lambda>x. []) toy_crypto no_detail)"

lemma calls_run: "serves (st\<lparr>sys_session := s\<rparr>) (st\<lparr>sys_session := snd (calls qs s)\<rparr>)"
proof (induction qs s rule: calls.induct)
  case (2 t q rest s)
  obtain r s' where run: "call t q s = (r, s')" by (cases "call t q s")
  have first: "serves (st\<lparr>sys_session := s\<rparr>) (st\<lparr>sys_session := s'\<rparr>)"
  proof (rule steps_to.after [OF steps_to.here])
    have "handle_request default_settings (\<lambda>x. []) toy_crypto no_detail (Some t) q (sys_session (st\<lparr>sys_session := s\<rparr>)) = (r, s')"
      using run by (simp add: call_def)
    from sys_step.http_request [OF this]
    show "sys_step default_settings (\<lambda>x. []) toy_crypto no_detail (st\<lparr>sys_session := s\<rparr>) (st\<lparr>sys_session := s'\<rparr>)" by simp
  qed
  have join: "serves a c" if "serves b c" "serves a b" for a b c
    using that by (induction rule: steps_to.induct) (auto intro: steps_to.after)
  from join [OF "2.IH" [OF run [symmetric]] first] run show ?case by (cases "calls rest s'") simp
qed (simp add: steps_to.here)

definition setup_requests :: "(string \<times> api_request) list" where
  "setup_requests = [
     ([], ReqRegister \<lparr>reg_email = ''a@x'', reg_password = ''password'', reg_role = ADMIN\<rparr>),
     ([], ReqRegister \<lparr>reg_email = ''c@x'', reg_password = ''password'', reg_role = CLIENT\<rparr>),
     (''user_0'', ReqCreateProduct \<lparr>pcr_sku = ''S'', pcr_name = ''one'', pcr_price = 999 / 100\<rparr>),
     (''user_0'', ReqCreateWarehouse \<lparr>wcr_name = ''n'', wcr_location = ''l''\<rparr>),
     (''user_0'', ReqAdjust \<lparr>adj_product_id = ''prod_2'', adj_warehouse_id = ''wh_3'', adj_quantity = 5, adj_reason = ''in''\<rparr>),
     (''user_0'', ReqThreshold ''prod_2'' ''wh_3'' 2),
     (''user_1'', ReqCreateOrder \<lparr>req_items = [\<lparr>ol_product_id = ''prod_2'', ol_quantity = 4\<rparr>], req_payment_token = ''success''\<rparr> (Some ''k''))]"

definition start :: system where
  "start = service_start (opened empty_db)"

definition ordered :: system where
  "ordered = start\<lparr>sys_session := snd (calls setup_requests (opened empty_db))\<rparr>"

definition ordered_db :: db where
  "ordered_db = empty_db\<lparr>
    users :=
      [\<lparr>user_id = ''user_0'', user_email = ''a@x'',
        user_hashed_password = ''password'', user_role = ADMIN,
        user_created_at = 0\<rparr>,
     \<lparr>user_id = ''user_1'', user_email = ''c@x'',
        user_hashed_password = ''password'', user_role = CLIENT,
        user_created_at = 0\<rparr>],
    products :=
      [\<lparr>prod_id = ''prod_2'', prod_sku = ''S'', prod_name = ''one'',
          prod_price = 999, prod_created_at = 0, prod_updated_at = 0\<rparr>],
    warehouses :=
      [\<lparr>wh_id = ''wh_3'', wh_name = ''n'', wh_location = ''l'',
          wh_created_at = 0\<rparr>],
    inventory :=
      [\<lparr>inv_id = ''inv_4'', inv_product_id = ''prod_2'',
          inv_warehouse_id = ''wh_3'', available_quantity = 1,
          reserved_quantity = 4, low_stock_threshold = Some 2,
          is_low_stock = True, inv_updated_at = 0\<rparr>],
    orders :=
      [\<lparr>ord_id = ''order_6'', ord_status = RESERVED, ord_total = 3996,
          ord_created_by_user_id = ''user_1'',
          ord_payment_token = ''success'', ord_processing_attempts = 0,
          ord_idempotency_key = Some ''k'', ord_created_at = 0,
          ord_updated_at = 0\<rparr>],
    order_items :=
      [\<lparr>item_id = ''item_10'', item_order_id = ''order_6'',
          item_product_id = ''prod_2'', item_warehouse_id = ''wh_3'',
          item_quantity = 4, item_unit_price = 999\<rparr>],
    reservations :=
      [\<lparr>resv_id = ''resv_11'', resv_order_id = ''order_6'',
          resv_product_id = ''prod_2'', resv_warehouse_id = ''wh_3'',
          resv_quantity = 4, resv_status = ACTIVE,
          resv_expires_at = 900000000, resv_created_at = 0,
          resv_released_at = None\<rparr>],
    audit_logs :=
      [\<lparr>audit_id = ''audit_5'', audit_product_id = ''prod_2'',
          audit_warehouse_id = ''wh_3'', audit_change = 5,
          audit_type = STOCK_ADDED, audit_reference_id = ''in'',
          audit_created_at = 0\<rparr>,
       \<lparr>audit_id = ''audit_7'', audit_product_id = ''prod_2'',
          audit_warehouse_id = ''wh_3'', audit_change = - 4,
          audit_type = INVENTORY_RESERVED, audit_reference_id = ''order_6'',
          audit_created_at = 0\<rparr>],
    idempotency_keys :=
      [\<lparr>idem_key = ''k'', idem_request_hash = [],
          idem_order_id = Some ''order_6'', idem_status = IDEM_COMPLETED,
          idem_response_body =
            Some
             (JObj
               [(''id'', JStr ''order_6''), (''status'', JStr ''RESERVED''),
                (''total'', JDec 3996),
                (''items'',
                 JArr
                  [JObj
                    [(''product_id'', JStr ''prod_2''),
                     (''quantity'', JInt 4), (''unit_price'', JDec 999)]]),
                (''created_at'', JTime 0), (''updated_at'', JTime 0)]),
          idem_created_at = 0\<rparr>],
    outbox_events :=
      [\<lparr>evt_id = ''outbox_9'', evt_aggregate_type = ''low_stock_alert'',
          evt_aggregate_id = ''lsa_8'',
          evt_event_type = ''LOW_STOCK_ALERT_CREATED'',
          evt_payload =
            JObj
             [(''alert_id'', JStr ''lsa_8''),
              (''product_id'', JStr ''prod_2''),
              (''warehouse_id'', JStr ''wh_3''),
              (''quantity_at_alert'', JInt 1), (''threshold'', JInt 2)],
          evt_status = OUTBOX_PENDING, evt_created_at = 0,
          evt_published_at = None\<rparr>,
       \<lparr>evt_id = ''outbox_12'', evt_aggregate_type = ''order'',
          evt_aggregate_id = ''order_6'',
          evt_event_type = ''ORDER_RESERVED'',
          evt_payload = JObj [(''order_id'', JStr ''order_6'')],
          evt_status = OUTBOX_PENDING, evt_created_at = 0,
          evt_published_at = None\<rparr>],
    low_stock_alerts :=
      [\<lparr>lsa_id = ''lsa_8'', lsa_product_id = ''prod_2'',
          lsa_warehouse_id = ''wh_3'', lsa_quantity_at_alert = 1,
          lsa_threshold = 2, lsa_created_at = 0\<rparr>]\<rparr>"

lemma ordered_value [code]:
  "ordered = \<lparr>sys_session = \<lparr>committed = ordered_db, working = ordered_db, clock = 0, uuid_stream = ids, uuid_pos = 13\<rparr>,
     sys_queue = [], sys_jobs = []\<rparr>"
proof -
  let ?s = "snd (calls setup_requests (opened empty_db))"
  have "(committed ?s, working ?s, clock ?s, uuid_pos ?s) = (ordered_db, ordered_db, 0, 13)" by code_simp
  moreover have "uuid_stream ?s = ids" by (simp only: calls_stream opened_def session.select_convs)
  ultimately show ?thesis by (simp add: ordered_def start_def service_start_def session_value)
qed

lemma start_facts: "committed (opened empty_db) = empty_db" "sys_session start = opened empty_db"
  by (simp_all add: opened_def start_def service_start_def)

lemma serves_ordered: "serves start ordered"
  using calls_run [where st = start and s = "opened empty_db" and qs = setup_requests] by (simp add: ordered_def start_def service_start_def)

lemma ordered_facts:
  "fst (calls setup_requests (opened empty_db)) = [201, 201, 201, 201, 201, 200, 201]"
  "map (\<lambda>r. (available_quantity r, reserved_quantity r, is_low_stock r)) (inventory (sys_db ordered)) = [(1, 4, True)]"
  "map (\<lambda>r. (ord_id r, ord_status r, ord_idempotency_key r)) (orders (sys_db ordered)) = [(''order_6'', RESERVED, Some ''k'')]"
  "map (\<lambda>e. (evt_event_type e, evt_status e)) (outbox_events (sys_db ordered)) =
     [(''LOW_STOCK_ALERT_CREATED'', OUTBOX_PENDING), (''ORDER_RESERVED'', OUTBOX_PENDING)]"
  by code_simp+

subsection \<open>Single steps of the other processes\<close>

text \<open>A worker takes an order; the first worker that holds one finishes it; the relay polls a broker
  that accepts everything; a pass of the sweep; time goes by.\<close>

definition takes :: "ident \<Rightarrow> system \<Rightarrow> system" where
  "takes i st = (case begin_transaction i (sys_session st) of
     (Inr (Some order), s') \<Rightarrow> st\<lparr>sys_session := s', sys_jobs := sys_jobs st @ [job_of order]\<rparr>
   | _ \<Rightarrow> st)"

definition settles :: "system \<Rightarrow> system" where
  "settles st = (case sys_jobs st of [] \<Rightarrow> st
   | j # _ \<Rightarrow> (case finish_transaction default_settings (job_order j) (job_attempt j) (job_outcome j) (sys_session st) of
       (res, s') \<Rightarrow> st\<lparr>sys_session := s', sys_jobs := remove1 j (sys_jobs st)\<rparr>))"

definition polls :: "system \<Rightarrow> system" where
  "polls st = (case relay_once (\<lambda>_ _. None) (sys_queue st) (sys_session st) of
     (res, queue', s') \<Rightarrow> st\<lparr>sys_session := s', sys_queue := queue'\<rparr>)"

definition sweeps :: "system \<Rightarrow> system" where
  "sweeps st = (case expire_pass BATCH_SIZE (sys_session st) of (res, s') \<Rightarrow> st\<lparr>sys_session := s'\<rparr>)"

definition waits :: "int \<Rightarrow> system \<Rightarrow> system" where
  "waits t st = st\<lparr>sys_session := (sys_session st)\<lparr>clock := max t (clock (sys_session st))\<rparr>\<rparr>"

lemma then_takes: "serves a b \<Longrightarrow> serves a (takes i b)"
  by (auto simp: takes_def intro: steps_to.after sys_step.worker_begins split: sum.splits option.splits prod.splits)

lemma then_settles: "serves a b \<Longrightarrow> serves a (settles b)"
proof (cases "sys_jobs b")
  case (Cons j js)
  obtain res s' where run: "finish_transaction default_settings (job_order j) (job_attempt j) (job_outcome j) (sys_session b) = (res, s')"
    by (cases "finish_transaction default_settings (job_order j) (job_attempt j) (job_outcome j) (sys_session b)")
  have "j \<in> set (sys_jobs b)" by (simp add: Cons)
  from sys_step.worker_finishes [OF this run]
  have "sys_step default_settings (\<lambda>x. []) toy_crypto no_detail b (settles b)"
    by (simp add: settles_def Cons run)
  then show "serves a b \<Longrightarrow> serves a (settles b)" by (rule steps_to.after [rotated])
qed (simp add: settles_def)

lemma then_polls: "serves a b \<Longrightarrow> serves a (polls b)"
  by (auto simp: polls_def intro: steps_to.after sys_step.relay_poll split: prod.splits)

lemma then_sweeps: "serves a b \<Longrightarrow> serves a (sweeps b)"
  by (auto simp: sweeps_def intro: steps_to.after sys_step.cleanup_pass split: prod.splits)

lemma then_waits: "serves a b \<Longrightarrow> serves a (waits t b)"
  unfolding waits_def by (erule steps_to.after) (rule sys_step.time_passes, simp)

lemmas then_steps = then_takes then_settles then_polls then_sweeps then_waits

text \<open>The worker takes the order, then its event is relayed.\<close>

definition taken :: system where
  "taken = takes ''order_6'' ordered"

definition taken_db :: db where
  "taken_db = ordered_db\<lparr>
    orders :=
      [\<lparr>ord_id = ''order_6'', ord_status = PROCESSING, ord_total = 3996,
          ord_created_by_user_id = ''user_1'',
          ord_payment_token = ''success'', ord_processing_attempts = 1,
          ord_idempotency_key = Some ''k'', ord_created_at = 0,
          ord_updated_at = 0\<rparr>]\<rparr>"

lemma taken_value [code]:
  "taken = \<lparr>sys_session = \<lparr>committed = taken_db, working = taken_db, clock = 0, uuid_stream = ids, uuid_pos = 13\<rparr>,
     sys_queue = [], sys_jobs = [\<lparr>job_order = ''order_6'', job_attempt = 1, job_outcome = charge ''success''\<rparr>]\<rparr>"
proof -
  let ?s = "sys_session taken"
  have "(committed ?s, working ?s, clock ?s, uuid_pos ?s) = (taken_db, taken_db, 0, 13)"
    "sys_queue taken = []" "sys_jobs taken = [\<lparr>job_order = ''order_6'', job_attempt = 1, job_outcome = charge ''success''\<rparr>]"
    by code_simp+
  moreover have "uuid_stream ?s = ids"
    using keeps_begin_transaction [of "''order_6''"]
    by (auto simp: taken_def takes_def ordered_value keeps_stream_def split: sum.splits option.splits prod.splits) (metis snd_conv session.select_convs(4))+
  ultimately show ?thesis by (cases taken) (simp add: session_value)
qed

definition relayed :: system where
  "relayed = polls taken"

lemma ordered_to_relayed: "serves ordered relayed"
  by (simp add: relayed_def taken_def then_steps steps_to.here)

lemma serves_taken: "serves start taken" and serves_relayed: "serves start relayed"
  by (simp_all add: relayed_def taken_def then_steps serves_ordered)

lemma taken_facts:
  "map job_order (sys_jobs taken) = [''order_6'']"
  "map (\<lambda>r. (ord_id r, ord_status r)) (orders (sys_db taken)) = [(''order_6'', PROCESSING)]"
  by code_simp+

lemma ordered_step_taken: "sys_step default_settings (\<lambda>x. []) toy_crypto no_detail ordered taken"
proof -
  obtain q s' where run: "begin_transaction ''order_6'' (sys_session ordered) = (q, s')"
    by (cases "begin_transaction ''order_6'' (sys_session ordered)")
  have "sys_jobs ordered = []" by code_simp
  then have "taken \<noteq> ordered" using taken_facts(1) by auto
  with run obtain order where q: "q = Inr (Some order)"
    by (auto simp: taken_def takes_def split: sum.splits option.splits)
  from sys_step.worker_begins [OF run [unfolded q]] show ?thesis by (simp add: taken_def takes_def run q)
qed

lemma relayed_facts:
  "map evt_status (outbox_events (sys_db relayed)) = [OUTBOX_PUBLISHED, OUTBOX_PUBLISHED]"
  "length (sys_queue relayed) = 2"
  by code_simp+

text \<open>The worker is slow: the reservation runs out while it holds the order, a sweep runs, and only
  then does the worker finish.\<close>

definition overtaken :: system where
  "overtaken = settles (sweeps (waits 900000001 taken))"

lemma serves_overtaken: "serves start overtaken"
  by (simp add: overtaken_def then_steps serves_taken)

lemma overtaken_facts:
  "map ord_status (orders (sys_db overtaken)) = [COMPLETED]"
  "map resv_status (reservations (sys_db overtaken)) = [RELEASED]"
  "map (\<lambda>r. (available_quantity r, reserved_quantity r)) (inventory (sys_db overtaken)) = [(5, 0)]"
  by code_simp+

text \<open>The worker dies while it holds the order; its message is delivered again, and the reservation
  runs out.\<close>

definition dies :: "system \<Rightarrow> system" where
  "dies st = (case sys_jobs st of [] \<Rightarrow> st | j # _ \<Rightarrow> st\<lparr>sys_jobs := remove1 j (sys_jobs st)\<rparr>)"

lemma then_dies: "serves a b \<Longrightarrow> serves a (dies b)"
  using sys_step.worker_dies [of "hd (sys_jobs b)" b]
  by (cases "sys_jobs b") (auto simp: dies_def intro: steps_to.after)

definition abandoned :: system where
  "abandoned = dies taken"

definition redelivered :: system where
  "redelivered = sweeps (waits 900000001 (takes ''order_6'' abandoned))"

lemma serves_abandoned: "serves start abandoned" and abandoned_to_redelivered: "serves abandoned redelivered"
  by (simp_all add: abandoned_def redelivered_def then_dies then_steps serves_taken steps_to.here)

lemma redelivered_facts:
  "sys_jobs redelivered = []"
  "map ord_status (orders (sys_db redelivered)) = [PROCESSING]"
  "map resv_status (reservations (sys_db redelivered)) = [RELEASED]"
  by code_simp+

lemma abandoned_facts:
  "sys_jobs abandoned = []"
  "map (\<lambda>r. (ord_id r, ord_status r)) (orders (sys_db abandoned)) = [(''order_6'', PROCESSING)]"
  by code_simp+

end
