(* ===== verification/Relay_Properties.thy ===== *)
theory Relay_Properties
  imports Catalog_History Service_Runs
begin

text \<open>The outbox drains: with a broker that accepts, enough polls send every pending event once.\<close>

lemma events_have_messages: "events_ok d \<Longrightarrow> e \<in> set (outbox_events d) \<Longrightarrow> message_of e \<noteq> None"
  by (auto simp: events_ok_def is_order_event_def is_alert_event_def message_of_def handlers_def json_item_def)

definition pending :: "outbox_event list \<Rightarrow> outbox_event list" where
  "pending es = sort_key evt_created_at (filter (\<lambda>e. evt_status e = OUTBOX_PENDING) es)"

definition all_published :: "time \<Rightarrow> db \<Rightarrow> db" where
  "all_published n d = d\<lparr>outbox_events :=
     update_where (\<lambda>e. evt_status e = OUTBOX_PENDING) (publish_row n) (outbox_events d)\<rparr>"

lemma relay_events_accepted:
  "\<forall>q m. broker q m = None \<Longrightarrow> \<forall>e\<in>set es. message_of e \<noteq> None \<Longrightarrow>
    \<exists>q' s'. relay_events broker es queue s = (Inr (), q', s')"
proof (induction es arbitrary: queue s)
  case (Cons e es)
  from Cons.prems(2) obtain h m where h: "handlers (evt_event_type e) = Some h" "h (evt_payload e) = Inr m"
    by (auto simp: message_of_def split: option.splits sum.splits)
  have rest: "\<exists>q' s'. relay_events broker es q t = (Inr (), q', s')" for q t
    using Cons.IH [OF Cons.prems(1)] Cons.prems(2) by simp
  have "broker queue m = None" using Cons.prems(1) by simp
  with rest [of "queue @ [m]"] show ?case by (simp add: h mark_published_ok)
qed simp

lemma relay_once_accepted:
  assumes accepts: "\<forall>q m. broker q m = None" and ok: "events_ok (committed s)"
    and batch: "batch = take RELAY_BATCH_SIZE (pending (outbox_events (committed s)))"
  shows "\<exists>s'. relay_once broker queue s = (Inr (length batch), queue @ map (the \<circ> message_of) batch, s') \<and>
    clock s' = clock s \<and> committed s' = (committed s)\<lparr>outbox_events :=
      publish_all (evt_id ` set batch) (clock s) (outbox_events (committed s))\<rparr>"
proof -
  have sub: "set batch \<subseteq> set (outbox_events (committed s))"
    using set_take_subset [of RELAY_BATCH_SIZE "pending (outbox_events (committed s))"] by (auto simp: batch pending_def)
  with events_have_messages [OF ok] have msgs: "\<forall>e\<in>set batch. message_of e \<noteq> None" by blast
  then have handled: "handled batch = batch"
    by (auto simp: handled_def filter_id_conv message_of_def split: option.splits)
  from relay_events_accepted [OF accepts msgs] obtain q' t
    where run: "relay_events broker batch queue (s\<lparr>working := committed s\<rparr>) = (Inr (), q', t)" by blast
  have claim: "claim_pending_batch RELAY_BATCH_SIZE (s\<lparr>working := committed s\<rparr>) = (Inr batch, s\<lparr>working := committed s\<rparr>)"
    by (simp add: claim_pending_batch_def batch pending_def)
  from relay_events_Inr [OF run] show ?thesis
    by (simp add: relay_once_def claim run handled)
qed

text \<open>What one poll leaves pending is what it did not take.\<close>

lemma pending_after_publish:
  assumes dist: "distinct (map evt_id es)" and batch: "batch = take k (pending es)"
  shows "pending (publish_all (evt_id ` set batch) n es) = drop k (pending es)"
proof -
  have "filter (\<lambda>e. evt_status e = OUTBOX_PENDING) (publish_all I n es) =
      filter (\<lambda>e. evt_id e \<notin> I) (filter (\<lambda>e. evt_status e = OUTBOX_PENDING) es)" for I
    by (induction es) (auto simp: publish_all_def)
  then have rest: "pending (publish_all (evt_id ` set batch) n es) = filter (\<lambda>e. evt_id e \<notin> evt_id ` set batch) (pending es)"
    by (simp add: pending_def filter_sort)
  have "distinct (map evt_id (filter (\<lambda>e. evt_status e = OUTBOX_PENDING) es))" using dist by (rule distinct_map_filter)
  then have d: "distinct (map evt_id (pending es))" by (simp add: pending_def distinct_map)
  have "evt_id e \<notin> evt_id ` set (take k (pending es))" if "e \<in> set (drop k (pending es))" for e
    using set_take_disj_set_drop_if_distinct [OF d order.refl, of k] that
    by (fastforce simp: take_map drop_map)
  then have late: "filter (\<lambda>e. evt_id e \<notin> evt_id ` set (take k (pending es))) (drop k (pending es)) = drop k (pending es)"
    by (simp add: filter_id_conv)
  have early: "filter (\<lambda>e. evt_id e \<notin> evt_id ` set (take k (pending es))) (take k (pending es)) = []"
    by (simp add: filter_empty_conv)
  have "filter (\<lambda>e. evt_id e \<notin> evt_id ` set (take k (pending es))) (take k (pending es) @ drop k (pending es)) =
      drop k (pending es)" by (simp only: filter_append append_Nil early late)
  with rest show ?thesis by (simp only: append_take_drop_id batch)
qed

lemma all_published_after:
  assumes dist: "distinct (map evt_id (outbox_events d))" and "set batch \<subseteq> set (pending (outbox_events d))"
  shows "all_published n (d\<lparr>outbox_events := publish_all (evt_id ` set batch) n (outbox_events d)\<rparr>) = all_published n d"
proof -
  have "evt_status e = OUTBOX_PENDING" if e: "e \<in> set (outbox_events d)" "evt_id e \<in> evt_id ` set batch" for e
  proof -
    from e(2) obtain b where b: "b \<in> set batch" "evt_id b = evt_id e" by auto
    with assms(2) have "b \<in> set (outbox_events d)" "evt_status b = OUTBOX_PENDING" by (auto simp: pending_def)
    with unique_row [OF dist _ e(1) b(2)] show ?thesis by simp
  qed
  then show ?thesis by (auto simp: all_published_def publish_all_def update_where_def)
qed

text \<open>
  C33. The outbox drains. When the broker accepts, \<open>n\<close> polls with room for every pending event put the
  message of each of them on the queue exactly once, oldest first, mark every event PUBLISHED, and
  change nothing else.
\<close>

theorem outbox_drains:
  assumes "\<forall>q m. broker q m = None" and "db_ok cfg (committed s)"
    and "length (pending (outbox_events (committed s))) \<le> n * RELAY_BATCH_SIZE"
    and "relay_polls n broker queue s = (queue', s')"
  shows "queue' = queue @ map (the \<circ> message_of) (pending (outbox_events (committed s))) \<and>
    committed s' = all_published (clock s) (committed s)"
  using assms(2-4)
proof (induction n arbitrary: queue s)
  case 0
  then have "\<forall>e\<in>set (outbox_events (committed s)). evt_status e \<noteq> OUTBOX_PENDING"
    by (simp add: pending_def filter_empty_conv)
  with 0 show ?case by (simp add: all_published_def update_where_none)
next
  case (Suc n)
  let ?es = "outbox_events (committed s)" and ?batch = "take RELAY_BATCH_SIZE (pending (outbox_events (committed s)))"
  from relay_once_accepted [OF assms(1) db_okD(4) [OF Suc.prems(1)] refl] obtain t
    where once: "relay_once broker queue s = (Inr (length ?batch), queue @ map (the \<circ> message_of) ?batch, t)"
      and t: "clock t = clock s"
        "committed t = (committed s)\<lparr>outbox_events := publish_all (evt_id ` set ?batch) (clock s) ?es\<rparr>" by blast
  have dist: "distinct (map evt_id ?es)" using db_okD(4) [OF Suc.prems(1)] by (simp add: events_ok_def)
  have pend: "pending (outbox_events (committed t)) = drop RELAY_BATCH_SIZE (pending ?es)"
    using pending_after_publish [OF dist refl] by (simp add: t(2))
  have ok: "db_ok cfg (committed t)" unfolding t(2) by (rule published_ok [OF Suc.prems(1)])
  have "length (pending (outbox_events (committed t))) \<le> n * RELAY_BATCH_SIZE"
    using Suc.prems(2) by (simp add: pend)
  moreover have "relay_polls n broker (queue @ map (the \<circ> message_of) ?batch) t = (queue', s')"
    using Suc.prems(3) once by simp
  ultimately have "queue' = (queue @ map (the \<circ> message_of) ?batch) @ map (the \<circ> message_of) (drop RELAY_BATCH_SIZE (pending ?es)) \<and>
      committed s' = all_published (clock s) (committed t)"
    using Suc.IH [OF ok] pend t(1) by metis
  moreover have "all_published (clock s) (committed t) = all_published (clock s) (committed s)"
    unfolding t(2) by (rule all_published_after [OF dist set_take_subset])
  ultimately show ?case by (simp add: map_append [symmetric] del: map_append)
qed

theorem outbox_drains_witness:
  "length (fst (relay_polls 1 (\<lambda>_ _. None) [] (sys_session ordered))) = 2"
proof -
  have ok: "db_ok default_settings (sys_db ordered)"
    using sys_okD(1) [OF reachable_ok [OF start_facts(1) serves_ordered [unfolded start_def]]] .
  have two: "length (pending (outbox_events (sys_db ordered))) = 2" by code_simp
  obtain q s' where run: "relay_polls 1 (\<lambda>_ _. None) [] (sys_session ordered) = (q, s')"
    by (cases "relay_polls 1 (\<lambda>_ _. None) [] (sys_session ordered)")
  from outbox_drains [OF _ ok _ run] two run show ?thesis by (simp add: RELAY_BATCH_SIZE_def)
qed

end
