(* ===== verification/Access_Properties.thy ===== *)
theory Access_Properties
  imports Catalog_History Sample Bootstrap
begin

text \<open>
  What registration, login and the role dependency promise, and that the catalog tables stay typed.
  Bcrypt and JWT are parameters; \<open>crypto_laws\<close> says what their documentation promises: a password
  verifies against its own hash, a signed token decodes to its subject until it expires (a claim is
  in whole seconds), and no longer one second after.
\<close>

definition second :: time where
  "second = 1000000"

text \<open>The claims of \<open>create_access_token\<close>; a library may refuse a token with others, one not yet valid for instance.\<close>

definition user_claims :: "(string \<times> json) list \<Rightarrow> bool" where
  "user_claims claims \<longleftrightarrow> map fst claims = [''sub'', ''email'', ''role'', ''iat'', ''exp'']"

definition crypto_laws :: "crypto \<Rightarrow> bool" where
  "crypto_laws c \<longleftrightarrow> (\<forall>p. verify_password c p (hash_password c p)) \<and>
     (\<forall>claims i t n. user_claims claims \<and> map_of claims ''sub'' = Some (JStr i) \<and> map_of claims ''exp'' = Some (JTime t) \<longrightarrow>
        (n \<le> t \<longrightarrow> (\<exists>got. jwt_decode c n (jwt_encode c claims) = Some got \<and> map_of got ''sub'' = Some (JStr i))) \<and>
        (t + second \<le> n \<longrightarrow> jwt_decode c n (jwt_encode c claims) = None))"

text \<open>A scheme that keeps the laws: passwords in the clear, a token is the rendered expiry, a dot and
  the subject. It forges nothing away, but shows that the laws can hold.\<close>

definition plain_crypto :: crypto where
  "plain_crypto = \<lparr>hash_password = (\<lambda>p. p), verify_password = (=),
     jwt_encode = (\<lambda>claims. case (map_of claims ''exp'', map_of claims ''sub'') of
       (Some (JTime t), Some (JStr i)) \<Rightarrow> render_int t @ CHR ''.'' # i | _ \<Rightarrow> []),
     jwt_decode = (\<lambda>n token. case int_of_string (takeWhile (\<lambda>x. x \<noteq> CHR ''.'') token) of
         Inl e \<Rightarrow> None
       | Inr t \<Rightarrow> if n \<le> t then Some [(''sub'', JStr (tl (dropWhile (\<lambda>x. x \<noteq> CHR ''.'') token)))] else None),
     jwt_expire_minutes = 60\<rparr>"

lemma render_int_dot: "x \<in> set (render_int t) \<Longrightarrow> x \<noteq> CHR ''.''"
  using render_int_chars [of x t] by (auto simp: is_digit_def)

lemma plain_crypto_laws: "crypto_laws plain_crypto"
proof -
  have "takeWhile (\<lambda>x. x \<noteq> CHR ''.'') (render_int t @ CHR ''.'' # i) = render_int t"
    and "dropWhile (\<lambda>x. x \<noteq> CHR ''.'') (render_int t @ CHR ''.'' # i) = CHR ''.'' # i" for t i
    using render_int_dot [of _ t] by (simp_all add: takeWhile_append2 dropWhile_append2)
  then show ?thesis by (simp add: crypto_laws_def plain_crypto_def int_of_render second_def)
qed

subsection \<open>Accounts\<close>

lemma user_by_id:
  assumes "catalog_ok (working s)" and "u \<in> set (users (working s))"
  shows "user_get_by_id (user_id u) s = (Inr (Some u), s)"
proof -
  have "filter (\<lambda>x. user_id x = user_id u) (users (working s)) = [u]"
    using assms by (intro filter_unique [where g = user_id]) (simp_all add: catalog_ok_def)
  then show ?thesis by (simp add: user_get_by_id_def select_one_Inr)
qed

lemma user_by_email:
  assumes "catalog_ok (working s)" and "u \<in> set (users (working s))"
  shows "user_get_by_email (user_email u) s = (Inr (Some u), s)"
proof -
  have "filter (\<lambda>x. user_email x = user_email u) (users (working s)) = [u]"
    using assms by (intro filter_unique [where g = user_email]) (simp_all add: catalog_ok_def)
  then show ?thesis by (simp add: user_get_by_email_def select_one_Inr)
qed

lemma login_refused:
  assumes "catalog_ok (working s)"
    and wrong: "\<forall>u\<in>set (users (working s)). user_email u = login_email q \<longrightarrow> \<not> verify_password c (login_password q) (user_hashed_password u)"
  shows "login c q s = (Inl bad_credentials, s)"
proof (cases "\<exists>u\<in>set (users (working s)). user_email u = login_email q")
  case True
  then obtain u where "u \<in> set (users (working s))" "user_email u = login_email q" by blast
  with user_by_email [OF assms(1)] wrong show ?thesis
    by (fastforce simp: login_def and_then_def raise_def)
next
  case False
  then have "user_get_by_email (login_email q) s = (Inr None, s)"
    by (simp add: user_get_by_email_def select_one_None)
  then show ?thesis by (simp add: login_def and_then_def raise_def)
qed

text \<open>The token of a user, at any later time: accepted until it expires.\<close>

lemma token_names_user:
  assumes laws: "crypto_laws c" and claims: "user_claims claims" "map_of claims ''sub'' = Some (JStr (user_id u))" "map_of claims ''exp'' = Some (JTime t)"
    and "catalog_ok (working s)" and "u \<in> set (users (working s))"
  shows "clock s \<le> t \<Longrightarrow> get_current_user c (Some (jwt_encode c claims)) s = (Inr u, s)"
    and "t + second \<le> clock s \<Longrightarrow>
      get_current_user c (Some (jwt_encode c claims)) s = (Inl (unauthorized ''Invalid or expired token''), s)"
proof -
  assume "clock s \<le> t"
  with laws claims obtain got where got: "jwt_decode c (clock s) (jwt_encode c claims) = Some got"
    "map_of got ''sub'' = Some (JStr (user_id u))" unfolding crypto_laws_def by metis
  with user_by_id [OF assms(5,6)] show "get_current_user c (Some (jwt_encode c claims)) s = (Inr u, s)"
    by (simp add: get_current_user_def claims_subject_def and_then_def now_def return_def)
next
  assume "t + second \<le> clock s"
  with laws claims have "jwt_decode c (clock s) (jwt_encode c claims) = None" unfolding crypto_laws_def by metis
  then show "get_current_user c (Some (jwt_encode c claims)) s = (Inl (unauthorized ''Invalid or expired token''), s)"
    by (simp add: get_current_user_def and_then_def now_def raise_def)
qed

text \<open>
  C34. Registering, logging in and calling fit together. After a registration, however the service
  went on, the user's email and password are answered with a token that carries the registered role;
  until the token expires the role dependency finds exactly that user behind it, and one second
  later refuses it. Any other credentials, of an unknown email or with a password that does not
  verify, get one and the same error.
\<close>

theorem registered_user_can_log_in:
  assumes "register_user c p s = (Inr u, s1)" and "crypto_laws c"
    and "history (committed s1) (working s2)" and "catalog_ok (working s2)"
  shows "(\<exists>t. login c \<lparr>login_email = reg_email p, login_password = reg_password p\<rparr> s2 = (Inr t, s2) \<and>
      token_role t = reg_role p \<and>
      (\<forall>s3. history (working s2) (working s3) \<and> catalog_ok (working s3) \<longrightarrow>
        (clock s3 \<le> clock s2 + jwt_expire_minutes c * 60000000 \<longrightarrow>
           get_current_user c (Some (access_token t)) s3 = (Inr u, s3)) \<and>
        (clock s2 + jwt_expire_minutes c * 60000000 + second \<le> clock s3 \<longrightarrow>
           get_current_user c (Some (access_token t)) s3 = (Inl (unauthorized ''Invalid or expired token''), s3)))) \<and>
    (\<forall>q. (\<forall>x\<in>set (users (working s2)). user_email x = login_email q \<longrightarrow>
        \<not> verify_password c (login_password q) (user_hashed_password x)) \<longrightarrow>
      login c q s2 = (Inl bad_credentials, s2))"
proof (intro conjI allI impI)
  note reg = register_user_Inr [OF assms(1)]
  have u: "u \<in> set (users (working s2))"
    using assms(3) reg(1) by (auto simp: history_def extends_eq)
  let ?claims = "[(''sub'', JStr (user_id u)), (''email'', JStr (user_email u)),
      (''role'', JStr (user_role_value (user_role u))), (''iat'', JTime (clock s2)),
      (''exp'', JTime (clock s2 + jwt_expire_minutes c * 60000000))]"
  let ?t = "\<lparr>access_token = jwt_encode c ?claims, token_role = user_role u\<rparr>"
  have "verify_password c (reg_password p) (user_hashed_password u)"
    using assms(2) reg(5) by (simp add: crypto_laws_def)
  with user_by_email [OF assms(4) u] reg(3)
  have "login c \<lparr>login_email = reg_email p, login_password = reg_password p\<rparr> s2 = (Inr ?t, s2)"
    by (simp add: login_def create_access_token_def and_then_def now_def return_def)
  moreover have "u \<in> set (users (working s3))" if "history (working s2) (working s3)" for s3
    using that u by (auto simp: history_def extends_eq)
  ultimately show "\<exists>t. login c \<lparr>login_email = reg_email p, login_password = reg_password p\<rparr> s2 = (Inr t, s2) \<and>
      token_role t = reg_role p \<and>
      (\<forall>s3. history (working s2) (working s3) \<and> catalog_ok (working s3) \<longrightarrow>
        (clock s3 \<le> clock s2 + jwt_expire_minutes c * 60000000 \<longrightarrow>
           get_current_user c (Some (access_token t)) s3 = (Inr u, s3)) \<and>
        (clock s2 + jwt_expire_minutes c * 60000000 + second \<le> clock s3 \<longrightarrow>
           get_current_user c (Some (access_token t)) s3 = (Inl (unauthorized ''Invalid or expired token''), s3)))"
    using token_names_user [OF assms(2), of ?claims u] reg(4)
    by (intro exI [of _ ?t]) (auto simp: user_claims_def)
next
  fix q :: login_request assume "\<forall>x\<in>set (users (working s2)). user_email x = login_email q \<longrightarrow>
      \<not> verify_password c (login_password q) (user_hashed_password x)"
  from login_refused [OF assms(4) this] show "login c q s2 = (Inl bad_credentials, s2)" .
qed

definition newcomer :: register_request where
  "newcomer = \<lparr>reg_email = ''n@x'', reg_password = ''password'', reg_role = CLIENT\<rparr>"

definition signed_up :: session where
  "signed_up = snd (register_user plain_crypto newcomer (opened shop))"

theorem registered_user_can_log_in_witness:
  "\<exists>t u. login plain_crypto \<lparr>login_email = ''n@x'', login_password = ''password''\<rparr> signed_up = (Inr t, signed_up) \<and>
    token_role t = CLIENT \<and> user_email u = ''n@x'' \<and> get_current_user plain_crypto (Some (access_token t)) signed_up = (Inr u, signed_up)"
proof -
  let ?u = "\<lparr>user_id = ''user_0'', user_email = ''n@x'', user_hashed_password = ''password'', user_role = CLIENT, user_created_at = 0\<rparr>"
  have "fst (register_user plain_crypto newcomer (opened shop)) = Inr ?u" by code_simp
  from ran [OF this] have run: "register_user plain_crypto newcomer (opened shop) = (Inr ?u, signed_up)"
    by (simp add: signed_up_def)
  have same: "committed signed_up = working signed_up" using register_user_Inr(2) [OF run] by simp
  have "catalog_ok shop" by (simp add: catalog_ok_def shop_def empty_db_def admin_def client_def client2_def varchar_def numeric_12_2_def)
  then have cat: "catalog_ok (working signed_up)"
    using register_user_Inr(1,7) [OF run] same by (simp add: opened_def catalog_ok_def check_user_None)
  have hist: "history (committed signed_up) (working signed_up)" by (simp add: same history_refl)
  have "jwt_expire_minutes plain_crypto = 60" by (simp add: plain_crypto_def)
  with registered_user_can_log_in [OF run plain_crypto_laws hist cat] cat
  show ?thesis by (auto simp: newcomer_def history_refl)
qed

text \<open>
  C40. The service always has its administrator. A start that ends normally leaves a user with the
  configured email; when there was none, it is a new ADMIN who can log in with the configured
  password. A second start changes nothing, and a start that fails leaves the database as it was.
\<close>

theorem bootstrap_ensures_an_administrator:
  assumes "ensure_default_admin cfg c s = (res, s1)" and "catalog_ok (committed s)" and "crypto_laws c"
  shows "case res of
      Inl e \<Rightarrow> committed s1 = committed s
    | Inr _ \<Rightarrow> ensure_default_admin cfg c s1 = (Inr (), s1) \<and>
        (if default_admin_email cfg \<in> user_email ` set (users (committed s)) then committed s1 = committed s
         else \<exists>u t. committed s1 = (committed s)\<lparr>users := users (committed s) @ [u]\<rparr> \<and>
           user_email u = default_admin_email cfg \<and> user_role u = ADMIN \<and>
           login c \<lparr>login_email = default_admin_email cfg, login_password = default_admin_password cfg\<rparr> s1 = (Inr t, s1) \<and>
           token_role t = ADMIN)"
proof (cases "default_admin_email cfg \<in> user_email ` set (users (committed s))")
  case True
  let ?s = "s\<lparr>working := committed s\<rparr>"
  from True obtain x where x: "x \<in> set (users (committed s))" "user_email x = default_admin_email cfg" by auto
  have "user_get_by_email (default_admin_email cfg) ?s = (Inr (Some x), ?s)"
    using user_by_email [of ?s x] assms(2) x by simp
  note found = ensure_default_admin_found [OF this, of c]
  have "ensure_default_admin cfg c ?s = (Inr (), ?s)"
    using ensure_default_admin_found [of cfg ?s x c] user_by_email [of ?s x] assms(2) x by simp
  with found assms(1) True show ?thesis by auto
next
  case False
  note new = ensure_default_admin_fresh [OF assms(1) False]
  show ?thesis
  proof (cases res)
    case (Inl e)
    with new(3) show ?thesis by auto
  next
    case (Inr v)
    with new(3) obtain u where u: "check_user (committed s) u = None"
      "committed s1 = (committed s)\<lparr>users := users (committed s) @ [u]\<rparr>" "user_email u = default_admin_email cfg"
      "user_role u = ADMIN" "user_hashed_password u = hash_password c (default_admin_password cfg)" by auto
    have same: "s1\<lparr>working := committed s1\<rparr> = s1" using new(1) by (cases s1) simp
    have cat: "catalog_ok (working s1)"
      using assms(2) u(1,2) new(1) by (simp add: catalog_ok_def check_user_None)
    have mem: "u \<in> set (users (working s1))" using u(2) new(1) by simp
    have get: "user_get_by_email (default_admin_email cfg) s1 = (Inr (Some u), s1)"
      using user_by_email [OF cat mem] u(3) by simp
    have "ensure_default_admin cfg c s1 = (Inr (), s1)"
      using ensure_default_admin_found [of cfg s1 u c] get same by simp
    moreover have "verify_password c (default_admin_password cfg) (user_hashed_password u)"
      using assms(3) u(5) by (simp add: crypto_laws_def)
    then have "\<exists>t. login c \<lparr>login_email = default_admin_email cfg, login_password = default_admin_password cfg\<rparr> s1 = (Inr t, s1) \<and>
        token_role t = ADMIN"
      using get u(4) by (simp add: login_def create_access_token_def and_then_def now_def return_def)
    ultimately show ?thesis using False Inr u(2-4) by auto
  qed
qed

theorem bootstrap_ensures_an_administrator_witness:
  "\<exists>t. login plain_crypto \<lparr>login_email = ''admin@example.com'', login_password = ''ChangeMe123!''\<rparr>
     (snd (ensure_default_admin default_settings plain_crypto (opened shop))) =
     (Inr t, snd (ensure_default_admin default_settings plain_crypto (opened shop))) \<and> token_role t = ADMIN"
proof -
  have "fst (ensure_default_admin default_settings plain_crypto (opened shop)) = Inr ()" by code_simp
  from ran [OF this] have run: "ensure_default_admin default_settings plain_crypto (opened shop) =
      (Inr (), snd (ensure_default_admin default_settings plain_crypto (opened shop)))" .
  have "catalog_ok (committed (opened shop))"
    by (simp add: opened_def catalog_ok_def shop_def empty_db_def admin_def client_def client2_def varchar_def numeric_12_2_def)
  from bootstrap_ensures_an_administrator [OF run this plain_crypto_laws] show ?thesis
    by (auto simp: opened_def shop_def empty_db_def admin_def client_def client2_def default_settings_def)
qed

end
