(* ===== verification/Api_Properties.thy ===== *)
theory Api_Properties
  imports Catalog_History Sample "HOL-Library.Multiset"
begin

text \<open>
  What the HTTP surface promises beside the effect of each route: who may call a route, the pages of
  the order list, and the retry delays the settings describe.
\<close>

section \<open>Roles\<close>

text \<open>The user behind a token, if there is one.\<close>

definition bearer :: "crypto \<Rightarrow> string option \<Rightarrow> time \<Rightarrow> db \<Rightarrow> user option" where
  "bearer c token n d = (case token of None \<Rightarrow> None | Some t \<Rightarrow>
     (case jwt_decode c n t of None \<Rightarrow> None | Some claims \<Rightarrow>
       (case claims_subject claims of None \<Rightarrow> None | Some i \<Rightarrow> find (\<lambda>u. user_id u = i) (users d))))"

lemma user_get_by_id_find:
  assumes "catalog_ok (working s)"
  shows "user_get_by_id i s = (Inr (find (\<lambda>u. user_id u = i) (users (working s))), s)"
proof (cases "find (\<lambda>u. user_id u = i) (users (working s))")
  case None
  then have "\<forall>u\<in>set (users (working s)). user_id u \<noteq> i" by (simp add: find_None_iff)
  with None show ?thesis by (simp add: user_get_by_id_def select_one_None)
next
  case (Some u)
  then have u: "u \<in> set (users (working s))" "user_id u = i"
    by (auto simp: find_Some_iff)
  have "filter (\<lambda>x. user_id x = i) (users (working s)) = [u]"
    using assms u by (intro filter_unique [where g = user_id]) (simp_all add: catalog_ok_def)
  with Some show ?thesis by (simp add: user_get_by_id_def select_one_Inr)
qed

definition no_bearer :: "crypto \<Rightarrow> string option \<Rightarrow> time \<Rightarrow> exn" where
  "no_bearer c token n = unauthorized (if token = None then ''Missing bearer token''
     else if jwt_decode c n (the token) = None then ''Invalid or expired token'' else ''User no longer exists'')"

lemma no_bearer_response:
  "http_status (handle_exception (no_bearer c token n)) = 401"
  "http_status (handle_exception (role_refused r)) = 403"
  by (simp_all add: no_bearer_def unauthorized_def role_refused_def handle_app_error_def)

lemma require_roles_bearer:
  assumes "catalog_ok (working s)"
  shows "require_roles roles c token s = (case bearer c token (clock s) (working s) of
      None \<Rightarrow> (Inl (no_bearer c token (clock s)), s)
    | Some u \<Rightarrow> if user_role u \<in> set roles then (Inr u, s) else (Inl (role_refused (user_role u)), s))"
  using user_get_by_id_find [OF assms]
  by (simp add: bearer_def require_roles_def get_current_user_def and_then_def now_def return_def raise_def
      no_bearer_def split: option.splits)

text \<open>
  C35. Who may call what. A request to a route with roles, without a token of an existing user, is
  answered 401; with the token of a user whose role the route does not list, 403; both in the error
  envelope, before the request's body is looked at, and without touching the database. Any other
  request of a valid form is answered by the route itself, for exactly the user behind the token.
\<close>

theorem routes_are_guarded:
  assumes "allowed_roles req = Some roles" and "catalog_ok (committed s)"
    and "handle_request cfg sha c errors token req s = (resp, s')"
    and "who = bearer c token (clock s) (committed s)" and "s0 = s\<lparr>working := committed s\<rparr>"
  shows "(case who of
      None \<Rightarrow> s' = s0 \<and> http_status resp = 401 \<and> error_envelope (http_body resp)
    | Some u \<Rightarrow> if user_role u \<notin> set roles
        then s' = s0 \<and> http_status resp = 403 \<and> error_envelope (http_body resp)
        else if \<not> valid_request req then s' = s0 \<and> resp = handle_validation_error (errors req)
        else (case endpoint cfg sha c req (Some u) s0 of (r, t) \<Rightarrow>
          s' = t\<lparr>working := committed t\<rparr> \<and> resp = respond (errors req) req (map_sum id Answer r)))"
proof -
  have roles: "require_roles roles c token s0 = (case who of None \<Rightarrow> (Inl (no_bearer c token (clock s)), s0)
    | Some u \<Rightarrow> if user_role u \<in> set roles then (Inr u, s0) else (Inl (role_refused (user_role u)), s0))"
    using require_roles_bearer [of "s\<lparr>working := committed s\<rparr>" roles c token] assms(2) by (simp add: assms(4,5) split: option.splits)
  have envelope: "error_envelope (http_body (handle_exception e))" for e by (rule handle_exception_envelope)
  from assms(1,3,5) roles envelope show ?thesis
    by (auto simp: handle_request_def with_session_def run_endpoint_def authenticate_def and_then_def return_def
        respond_def no_bearer_response split: option.splits prod.splits sum.splits if_splits)
qed

theorem routes_are_guarded_witness:
  "http_status (fst (call ''user_c'' (ReqThreshold ''p1'' ''w1'' (-7)) (opened shop))) = 403"
proof -
  have "catalog_ok (committed (opened shop))"
    by (simp add: opened_def catalog_ok_def shop_def empty_db_def admin_def client_def client2_def varchar_def numeric_12_2_def)
  moreover have "bearer toy_crypto (Some ''user_c'') (clock (opened shop)) (committed (opened shop)) = Some client" by code_simp
  moreover have "user_role client = CLIENT" by (simp add: client_def)
  ultimately show ?thesis
    using routes_are_guarded [where req = "ReqThreshold ''p1'' ''w1'' (-7)" and token = "Some ''user_c''"
        and s = "opened shop" and c = toy_crypto and who = "Some client", OF _ _ prod.collapse [symmetric] _ refl]
    by (simp add: call_def)
qed

section \<open>Pages\<close>

lemma concat_pages:
  "length xs \<le> n * limit \<Longrightarrow> concat (map (\<lambda>i. take limit (drop (i * limit) xs)) [0..<n]) = xs"
proof (induction n arbitrary: xs)
  case (Suc n)
  have "concat (map (\<lambda>i. take limit (drop (i * limit) xs)) [0..<Suc n]) =
      take limit xs @ concat (map (\<lambda>i. take limit (drop (i * limit) (drop limit xs))) [0..<n])"
    by (simp add: upt_conv_Cons map_Suc_upt [symmetric] comp_def add.commute del: upt_Suc)
  also have "\<dots> = take limit xs @ drop limit xs" using Suc.IH [of "drop limit xs"] Suc.prems by simp
  finally show ?case by simp
qed simp

lemma pages_enough: "1 \<le> limit \<Longrightarrow> n \<le> total_pages n limit * limit"
  and pages_needed: "1 \<le> limit \<Longrightarrow> 0 < n \<Longrightarrow> (total_pages n limit - 1) * limit < n"
proof -
  assume limit: "1 \<le> limit"
  let ?q = "(n + limit - 1) div limit"
  have "?q * limit + (n + limit - 1) mod limit = n + limit - 1" by (rule div_mult_mod_eq)
  moreover have "(n + limit - 1) mod limit < limit" using limit by simp
  ultimately have q: "n \<le> ?q * limit" "?q * limit \<le> n + limit - 1" using limit by linarith+
  then show "n \<le> total_pages n limit * limit" by (simp add: total_pages_def)
  show "(total_pages n limit - 1) * limit < n" if "0 < n"
  proof -
    have "(?q - 1) * limit = ?q * limit - limit" by (simp only: diff_mult_distrib mult_1)
    with q(2) that limit have "(?q - 1) * limit < n" by linarith
    with that show ?thesis by (simp add: total_pages_def)
  qed
qed

text \<open>
  What SQL promises of one page: the rows of a permutation of the matching orders that is sorted by
  creation time, newest first. Orders created at the same time may come in any order, in each query
  anew; \<open>order_list\<close> answers with one such page.
\<close>

definition sql_page :: "order_row list \<Rightarrow> nat \<Rightarrow> nat \<Rightarrow> order_row list \<Rightarrow> bool" where
  "sql_page matching page limit rows \<longleftrightarrow> (\<exists>xs. mset xs = mset matching \<and>
     sorted (map (\<lambda>r. - ord_created_at r) xs) \<and> rows = take limit (drop ((page - 1) * limit) xs))"

lemma sql_page_sort: "sql_page matching p limit (take limit (drop ((p - 1) * limit) (sort_key (\<lambda>r. - ord_created_at r) matching)))"
  unfolding sql_page_def by (intro exI [of _ "sort_key (\<lambda>r. - ord_created_at r) matching"]) simp

lemma sql_page_unique:
  assumes "distinct (map ord_created_at matching)" and "sql_page matching p limit rows"
  shows "rows = take limit (drop ((p - 1) * limit) (sort_key (\<lambda>r. - ord_created_at r) matching))"
proof -
  from assms(2) obtain xs where xs: "mset xs = mset matching" "sorted (map (\<lambda>r. - ord_created_at r) xs)"
    and rows: "rows = take limit (drop ((p - 1) * limit) xs)" by (auto simp: sql_page_def)
  have "inj_on (\<lambda>r. - ord_created_at r) (set matching)"
    using assms(1) by (auto simp: distinct_map inj_on_def)
  from sort_key_inj_key_eq [OF xs(1) [symmetric] this xs(2)] rows show ?thesis by simp
qed

lemma pages_concat:
  assumes "1 \<le> limit" and "\<And>p. page p = take limit (drop ((p - 1) * limit) xs)"
  shows "concat (map page [1..<Suc (total_pages (length xs) limit)]) = xs"
proof -
  have "map page [1..<Suc (total_pages (length xs) limit)] =
      map (\<lambda>i. take limit (drop (i * limit) xs)) [0..<total_pages (length xs) limit]"
    using assms(2) by (simp add: map_Suc_upt [symmetric] del: upt_Suc)
  with concat_pages [of xs] pages_enough [OF assms(1)] show ?thesis by simp
qed

lemma page_not_empty:
  assumes "1 \<le> limit" and "1 \<le> p" and "p \<le> total_pages (length xs) limit"
  shows "take limit (drop ((p - 1) * limit) xs) \<noteq> []"
proof -
  have "0 < length xs" using assms(2,3) by (auto simp: total_pages_def split: if_splits)
  from pages_needed [OF assms(1) this] have "(p - 1) * limit < length xs"
    using assms(2,3) by (meson diff_le_mono le_less_trans mult_le_mono1)
  with assms(1) show ?thesis by simp
qed

text \<open>
  C39. The pages are the list. For any filter and any page size: every page is one SQL allows for the
  matching orders, no longer than the limit, none from 1 to \<open>total_pages\<close> is empty, and each reports the
  number of matching orders. When no two of these were created at the same time, then the pages 1 to
  \<open>total_pages\<close> one after the other, whatever pages SQL allows are answered, are the matching orders,
  newest first, each exactly once. A client sees its own orders only.
\<close>

theorem pages_are_the_list:
  assumes "1 \<le> limit"
    and "matching = filter (\<lambda>r. (status = None \<or> Some (ord_status r) = status) \<and>
       (\<forall>t. since = Some t \<longrightarrow> t \<le> ord_created_at r) \<and> (\<forall>t. till = Some t \<longrightarrow> ord_created_at r \<le> t) \<and>
       (user_role u = ADMIN \<or> ord_created_by_user_id r = user_id u)) (orders (working s))"
    and "\<And>p. list_orders u status since till p limit s = (Inr (page p, amount p), t p)"
  shows "(\<forall>p. t p = s \<and> amount p = length matching \<and> length (page p) \<le> limit \<and> sql_page matching p limit (page p)) \<and>
    (\<forall>p. 1 \<le> p \<and> p \<le> total_pages (length matching) limit \<longrightarrow> page p \<noteq> []) \<and>
    (distinct (map ord_created_at matching) \<longrightarrow> (\<forall>rows. (\<forall>p. sql_page matching p limit (rows p)) \<longrightarrow>
       concat (map rows [1..<Suc (total_pages (length matching) limit)]) = sort_key (\<lambda>r. - ord_created_at r) matching))"
proof -
  let ?xs = "sort_key (\<lambda>r. - ord_created_at r) matching"
  have "matches_filter \<lparr>flt_status = status, flt_created_after = since, flt_created_before = till,
      flt_user_id = if user_role u = ADMIN then None else Some (user_id u)\<rparr> =
    (\<lambda>r. (status = None \<or> Some (ord_status r) = status) \<and>
       (\<forall>t. since = Some t \<longrightarrow> t \<le> ord_created_at r) \<and> (\<forall>t. till = Some t \<longrightarrow> ord_created_at r \<le> t) \<and>
       (user_role u = ADMIN \<or> ord_created_by_user_id r = user_id u))"
    by (auto simp: matches_filter_def fun_eq_iff split: option.splits)
  then have page: "page p = take limit (drop ((p - 1) * limit) ?xs)" and rest: "amount p = length matching" "t p = s" for p
    using assms(3) [of p] by (auto simp: list_orders_def order_list_def assms(2) Let_def)
  have "page p \<noteq> []" if "1 \<le> p \<and> p \<le> total_pages (length matching) limit" for p
    using page_not_empty [OF assms(1), of p ?xs] that by (simp add: page)
  moreover have "concat (map rows [1..<Suc (total_pages (length matching) limit)]) = ?xs"
    if "distinct (map ord_created_at matching)" "\<forall>p. sql_page matching p limit (rows p)" for rows
    using pages_concat [OF assms(1) sql_page_unique [OF that(1) spec [OF that(2)]]] by simp
  moreover have "length (page p) \<le> limit \<and> sql_page matching p limit (page p)" for p
    using sql_page_sort by (simp add: page)
  ultimately show ?thesis using rest by blast
qed

definition two_orders :: session where
  "two_orders = snd (calls [(''user_d'', ReqCreateOrder (buy 2) None)]
     ((snd (calls [(''user_c'', ReqCreateOrder (buy 1) None)] stocked))\<lparr>clock := 5\<rparr>))"

theorem pages_are_the_list_witness:
  "map ord_created_at (concat (map (\<lambda>p. fst (projr (fst (list_orders admin None None None p 1 two_orders)))) [1..<3])) = [5, 0]"
proof -
  let ?run = "\<lambda>p. list_orders admin None None None p 1 two_orders"
  let ?page = "\<lambda>p. fst (projr (fst (?run p)))"
  have two: "map ord_created_at (orders (working two_orders)) = [0, 5]" by code_simp
  then have len: "length (orders (working two_orders)) = 2" by (metis length_map length_Cons list.size(3) numeral_2_eq_2)
  have "?run p = (Inr (?page p, snd (projr (fst (?run p)))), snd (?run p))" for p
    by (simp add: list_orders_def order_list_def query_def Let_def)
  from pages_are_the_list [where limit = 1 and page = ?page and t = "\<lambda>p. snd (?run p)"
      and amount = "\<lambda>p. snd (projr (fst (?run p)))", OF order.refl refl this]
  have pages: "concat (map ?page [1..<Suc (total_pages 2 1)]) = sort_key (\<lambda>r. - ord_created_at r) (orders (working two_orders))"
    by (simp add: admin_def two len del: upt_Suc)
  have three: "Suc (total_pages 2 1) = 3" by (simp add: total_pages_def)
  obtain a b where "orders (working two_orders) = [a, b]" "ord_created_at a = 0" "ord_created_at b = 5"
    using two by (auto simp: map_eq_Cons_conv)
  with pages [unfolded three] show ?thesis by (simp del: upt.simps)
qed

section \<open>The retry delays of the settings\<close>

text \<open>How a part of the comma separated setting may be written: an integer or nothing, between blanks.\<close>

definition part_text :: "string \<times> int option \<times> string \<Rightarrow> string" where
  "part_text = (\<lambda>(pre, n, post). pre @ (case n of None \<Rightarrow> [] | Some k \<Rightarrow> render_int k) @ post)"

definition padded :: "string \<times> int option \<times> string \<Rightarrow> bool" where
  "padded = (\<lambda>(pre, n, post). list_all is_space pre \<and> list_all is_space post)"

lemma lstrip_padded: "list_all is_space pre \<Longrightarrow> lstrip (pre @ s) = lstrip s"
  by (induction pre) (simp_all add: lstrip_def)

lemma lstrip_word: "s \<noteq> [] \<Longrightarrow> \<not> is_space (hd s) \<Longrightarrow> lstrip s = s"
  by (cases s) (simp_all add: lstrip_def)

lemma strip_padded:
  assumes "list_all is_space pre" and "list_all is_space post" and "\<forall>x\<in>set s. \<not> is_space x"
  shows "strip (pre @ s @ post) = s"
proof (cases "s = []")
  case True
  with assms(1,2) have "list_all is_space (pre @ s @ post)" by simp
  then have "lstrip (pre @ s @ post) = []" by (simp add: lstrip_def list_all_iff)
  moreover have "lstrip [] = []" by (simp add: lstrip_def)
  ultimately show ?thesis using True by (simp add: strip_def)
next
  case False
  then have "hd s \<in> set s" "hd (rev s) \<in> set s" by (simp_all add: hd_rev)
  with assms(3) have "\<not> is_space (hd s)" "\<not> is_space (hd (rev s))" by simp_all
  with False have left: "lstrip (s @ post) = s @ post" and right: "lstrip (rev s) = rev s"
    by (simp_all add: lstrip_word)
  have "list_all is_space (rev post)" using assms(2) by (simp add: list_all_iff)
  from lstrip_padded [OF assms(1)] lstrip_padded [OF this, of "rev s"] left right show ?thesis
    by (simp add: strip_def)
qed

lemma parse_parts:
  "list_all padded parts \<Longrightarrow> parse_ints (map part_text parts) = Inr (List.map_filter (\<lambda>(_, n, _). n) parts)"
proof (induction parts)
  case (Cons x parts)
  obtain pre n post where x: "x = (pre, n, post)" by (cases x)
  with Cons.prems have pad: "list_all is_space pre" "list_all is_space post" by (simp_all add: padded_def)
  show ?case
  proof (cases n)
    case None
    with strip_padded [OF pad, of "[]"] Cons x show ?thesis by (simp add: part_text_def map_filter_simps)
  next
    case (Some k)
    have "\<forall>c\<in>set (render_int k). \<not> is_space c" using render_int_plain by blast
    with strip_padded [OF pad] Some Cons x show ?thesis
      by (simp add: part_text_def map_filter_simps int_of_render)
  qed
qed (simp add: map_filter_simps)

lemma part_no_comma: "padded x \<Longrightarrow> CHR '','' \<notin> set (part_text x)"
  using render_int_plain
  by (cases x) (auto simp: padded_def part_text_def list_all_iff is_space_def split: option.splits)

text \<open>
  The retry delays are the ones that were written. Whatever list of integers is written to the
  setting, separated by commas, with blanks and empty parts anywhere, is read back; and when it is
  not empty, attempt \<open>n\<close> is retried after the \<open>n\<close>-th of them, later attempts after the last.
\<close>

theorem backoff_setting_round_trips:
  assumes "list_all padded parts" and "parts \<noteq> []" and "ns = List.map_filter (\<lambda>(_, n, _). n) parts"
    and "cfg' = cfg\<lparr>payment_retry_backoff_seconds := join_with (CHR '','') (map part_text parts)\<rparr>"
    and "ns \<noteq> []" and "1 \<le> attempt"
  shows "payment_retry_backoff_list cfg' = Inr ns \<and>
    schedule_retry cfg' attempt message s =
      (Inl (RetryablePaymentError message (ns ! min (nat (attempt - 1)) (length ns - 1))), s)"
proof -
  have "\<forall>t\<in>set (map part_text parts). CHR '','' \<notin> set t"
    using assms(1) part_no_comma by (auto simp: list_all_iff)
  from split_on_join [OF this] assms(2) parse_parts [OF assms(1)]
  have list: "payment_retry_backoff_list cfg' = Inr ns"
    by (simp add: payment_retry_backoff_list_def assms(3,4))
  have "retry_countdown ns attempt = Inr (ns ! min (nat (attempt - 1)) (length ns - 1))"
  proof (cases "attempt - 1 < int (length ns)")
    case True
    with assms(6) have "nat (attempt - 1) \<le> length ns - 1" by linarith
    with True assms(6) show ?thesis by (simp add: retry_countdown_def)
  next
    case False
    then have "length ns - 1 \<le> nat (attempt - 1)" by linarith
    with False assms(5) show ?thesis by (simp add: retry_countdown_def last_conv_nth)
  qed
  with list show ?thesis by (simp add: schedule_retry_def raise_def)
qed

theorem backoff_setting_round_trips_witness:
  "payment_retry_backoff_list (default_settings\<lparr>payment_retry_backoff_seconds := '' 5, ,30''\<rparr>) = Inr [5, 30]"
proof -
  let ?parts = "[('' '', Some (5::int), []), ('' '', None, []), ([], Some 30, [])]"
  have pad: "list_all padded ?parts" and ns: "List.map_filter (\<lambda>(_, n, _). n) ?parts = [5, 30]"
    and written: "join_with (CHR '','') (map part_text ?parts) = '' 5, ,30''" by code_simp+
  from backoff_setting_round_trips [OF pad _ ns [symmetric] refl, of 1, unfolded written, of default_settings "[]"]
  show ?thesis by simp
qed

end
