(* ===== verification/Schema.thy ===== *)
theory Schema
  imports Models
begin

text \<open>
  The data definition language the migrations use, and what PostgreSQL makes of it: a schema is its
  tables with their columns, constraints and indexes, and its enum types. A statement that
  PostgreSQL would refuse gives \<open>None\<close>. Alembic's \<open>create_table\<close> creates the enum types of its
  columns; dropping a table leaves them.
\<close>

subsection \<open>Schemas\<close>

datatype column_type =
  VARCHAR nat | TEXT | INTEGER | NUMERIC nat nat | TIMESTAMPTZ | BOOLEAN | JSONB | ENUM string "string list"

record column =
  col_name :: string
  col_type :: column_type
  col_nullable :: bool
  col_primary_key :: bool
  col_references :: "(string \<times> string) option"
  col_server_default :: "string option"

text \<open>\<open>sa.Column(name, type, nullable=False)\<close> and its variations.\<close>

definition Column :: "string \<Rightarrow> column_type \<Rightarrow> column" where
  "Column name ty = \<lparr>col_name = name, col_type = ty, col_nullable = False, col_primary_key = False,
     col_references = None, col_server_default = None\<rparr>"

definition primary_key :: "column \<Rightarrow> column" where
  "primary_key c = c\<lparr>col_primary_key := True\<rparr>"

definition nullable :: "column \<Rightarrow> column" where
  "nullable c = c\<lparr>col_nullable := True\<rparr>"

definition ForeignKey :: "string \<Rightarrow> string \<Rightarrow> column \<Rightarrow> column" where
  "ForeignKey t k c = c\<lparr>col_references := Some (t, k)\<rparr>"

definition server_default :: "string \<Rightarrow> column \<Rightarrow> column" where
  "server_default v c = c\<lparr>col_server_default := Some v\<rparr>"

lemmas column_defs = Column_def primary_key_def nullable_def ForeignKey_def server_default_def

text \<open>The conditions of the CHECK constraints.\<close>

datatype sql_condition = AtLeast0 string | IsNull string | Or sql_condition sql_condition

datatype table_constraint =
  UniqueConstraint string "string list"
| CheckConstraint string sql_condition

fun constraint_name :: "table_constraint \<Rightarrow> string" where
  "constraint_name (UniqueConstraint n _) = n"
| "constraint_name (CheckConstraint n _) = n"

fun condition_columns :: "sql_condition \<Rightarrow> string list" where
  "condition_columns (AtLeast0 c) = [c]"
| "condition_columns (IsNull c) = [c]"
| "condition_columns (Or p q) = condition_columns p @ condition_columns q"

fun constraint_columns :: "table_constraint \<Rightarrow> string list" where
  "constraint_columns (UniqueConstraint _ cs) = cs"
| "constraint_columns (CheckConstraint _ p) = condition_columns p"

record index =
  idx_name :: string
  idx_columns :: "string list"
  idx_unique :: bool

record table =
  tbl_name :: string
  tbl_columns :: "column list"
  tbl_constraints :: "table_constraint list"
  tbl_indexes :: "index list"

record schema =
  sch_tables :: "table list"
  sch_enums :: "(string \<times> string list) list"

definition empty_schema :: schema where
  "empty_schema = \<lparr>sch_tables = [], sch_enums = []\<rparr>"

definition table_named :: "schema \<Rightarrow> string \<Rightarrow> table option" where
  "table_named s n = find (\<lambda>t. tbl_name t = n) (sch_tables s)"

definition column_names :: "table \<Rightarrow> string list" where
  "column_names t = map col_name (tbl_columns t)"

definition has_column :: "schema \<Rightarrow> string \<Rightarrow> string \<Rightarrow> bool" where
  "has_column s t c = (case table_named s t of None \<Rightarrow> False | Some tb \<Rightarrow> c \<in> set (column_names tb))"

subsection \<open>Statements\<close>

datatype ddl =
  CreateTable string "column list" "table_constraint list"
| CreateIndex string string "string list" bool
| AddColumn string column
| CreateCheckConstraint string string sql_condition
| DropTable string
| DropConstraint string string
| DropColumn string string
| DropEnum string

fun column_enum :: "column \<Rightarrow> (string \<times> string list) option" where
  "column_enum c = (case col_type c of ENUM n labels \<Rightarrow> Some (n, labels) | _ \<Rightarrow> None)"

definition enums_of :: "column list \<Rightarrow> (string \<times> string list) list" where
  "enums_of cs = List.map_filter column_enum cs"

definition references_ok :: "schema \<Rightarrow> column \<Rightarrow> bool" where
  "references_ok s c = (case col_references c of None \<Rightarrow> True | Some (t, k) \<Rightarrow> has_column s t k)"

definition refers_to :: "string \<Rightarrow> column \<Rightarrow> bool" where
  "refers_to n c = (case col_references c of None \<Rightarrow> False | Some (t, _) \<Rightarrow> t = n)"

definition references_table :: "string \<Rightarrow> table \<Rightarrow> bool" where
  "references_table n t = list_ex (refers_to n) (tbl_columns t)"

definition change_table :: "string \<Rightarrow> (table \<Rightarrow> table option) \<Rightarrow> schema \<Rightarrow> schema option" where
  "change_table n f s = (case table_named s n of None \<Rightarrow> None | Some t \<Rightarrow>
     (case f t of None \<Rightarrow> None
      | Some t' \<Rightarrow> Some (s\<lparr>sch_tables := map (\<lambda>x. if tbl_name x = n then t' else x) (sch_tables s)\<rparr>)))"

fun execute :: "ddl \<Rightarrow> schema \<Rightarrow> schema option" where
  "execute (CreateTable n cs ks) s =
     (if table_named s n \<noteq> None \<or> \<not> distinct (map col_name cs) \<or> \<not> list_all (references_ok s) cs \<or>
         \<not> distinct (map fst (enums_of cs)) \<or> list_ex (\<lambda>e. fst e \<in> set (map fst (sch_enums s))) (enums_of cs) \<or>
         \<not> list_all (\<lambda>k. list_all (\<lambda>c. c \<in> set (map col_name cs)) (constraint_columns k)) ks
      then None
      else Some (s\<lparr>sch_tables := sch_tables s @ [\<lparr>tbl_name = n, tbl_columns = cs, tbl_constraints = ks, tbl_indexes = []\<rparr>],
        sch_enums := sch_enums s @ enums_of cs\<rparr>))"
| "execute (CreateIndex i n cs u) s =
     (if i \<in> set (concat (map (\<lambda>t. map idx_name (tbl_indexes t)) (sch_tables s))) then None
      else change_table n (\<lambda>t. if list_all (\<lambda>c. c \<in> set (column_names t)) cs
        then Some (t\<lparr>tbl_indexes := tbl_indexes t @ [\<lparr>idx_name = i, idx_columns = cs, idx_unique = u\<rparr>]\<rparr>) else None) s)"
| "execute (AddColumn n c) s =
     (if \<not> references_ok s c then None
      else change_table n (\<lambda>t. if col_name c \<in> set (column_names t) then None
        else Some (t\<lparr>tbl_columns := tbl_columns t @ [c]\<rparr>)) s)"
| "execute (CreateCheckConstraint k n p) s =
     change_table n (\<lambda>t. if k \<in> set (map constraint_name (tbl_constraints t)) \<or>
         \<not> list_all (\<lambda>c. c \<in> set (column_names t)) (condition_columns p)
       then None else Some (t\<lparr>tbl_constraints := tbl_constraints t @ [CheckConstraint k p]\<rparr>)) s"
| "execute (DropTable n) s =
     (if table_named s n = None \<or> list_ex (\<lambda>t. tbl_name t \<noteq> n \<and> references_table n t) (sch_tables s) then None
      else Some (s\<lparr>sch_tables := filter (\<lambda>t. tbl_name t \<noteq> n) (sch_tables s)\<rparr>))"
| "execute (DropConstraint k n) s =
     change_table n (\<lambda>t. if k \<notin> set (map constraint_name (tbl_constraints t)) then None
       else Some (t\<lparr>tbl_constraints := filter (\<lambda>x. constraint_name x \<noteq> k) (tbl_constraints t)\<rparr>)) s"
| "execute (DropColumn n c) s =
     change_table n (\<lambda>t. if c \<notin> set (column_names t) then None
       else Some (t\<lparr>tbl_columns := filter (\<lambda>x. col_name x \<noteq> c) (tbl_columns t),
         tbl_constraints := filter (\<lambda>k. c \<notin> set (constraint_columns k)) (tbl_constraints t),
         tbl_indexes := filter (\<lambda>i. c \<notin> set (idx_columns i)) (tbl_indexes t)\<rparr>)) s"
| "execute (DropEnum e) s =
     (if list_ex (\<lambda>t. e \<in> set (map fst (enums_of (tbl_columns t)))) (sch_tables s) then None
      else Some (s\<lparr>sch_enums := filter (\<lambda>x. fst x \<noteq> e) (sch_enums s)\<rparr>))"

fun migrate :: "ddl list \<Rightarrow> schema \<Rightarrow> schema option" where
  "migrate [] s = Some s"
| "migrate (x # xs) s = (case execute x s of None \<Rightarrow> None | Some s' \<Rightarrow> migrate xs s')"

lemma migrate_append: "migrate (xs @ ys) s = Option.bind (migrate xs s) (migrate ys)"
  by (induction xs arbitrary: s) (auto split: option.splits)

subsection \<open>A table and its indexes\<close>

definition index_names :: "schema \<Rightarrow> string list" where
  "index_names s = concat (map (\<lambda>t. map idx_name (tbl_indexes t)) (sch_tables s))"

definition index_of :: "string \<times> string list \<times> bool \<Rightarrow> index" where
  "index_of = (\<lambda>(i, cs, u). \<lparr>idx_name = i, idx_columns = cs, idx_unique = u\<rparr>)"

definition creation :: "string \<Rightarrow> column list \<Rightarrow> table_constraint list \<Rightarrow> (string \<times> string list \<times> bool) list \<Rightarrow> ddl list" where
  "creation n cs ks ixs = CreateTable n cs ks # map (\<lambda>(i, c, u). CreateIndex i n c u) ixs"

definition built :: "string \<Rightarrow> column list \<Rightarrow> table_constraint list \<Rightarrow> (string \<times> string list \<times> bool) list \<Rightarrow> table" where
  "built n cs ks ixs = \<lparr>tbl_name = n, tbl_columns = cs, tbl_constraints = ks, tbl_indexes = map index_of ixs\<rparr>"

definition creatable :: "string \<Rightarrow> column list \<Rightarrow> table_constraint list \<Rightarrow> (string \<times> string list \<times> bool) list \<Rightarrow> schema \<Rightarrow> bool" where
  "creatable n cs ks ixs s \<longleftrightarrow> n \<notin> tbl_name ` set (sch_tables s) \<and> distinct (map col_name cs) \<and>
     list_all (references_ok s) cs \<and> distinct (map fst (enums_of cs)) \<and>
     (\<forall>e\<in>set (enums_of cs). fst e \<notin> fst ` set (sch_enums s)) \<and>
     list_all (\<lambda>k. list_all (\<lambda>c. c \<in> set (map col_name cs)) (constraint_columns k)) ks \<and>
     distinct (map fst ixs) \<and> (\<forall>i\<in>set ixs. fst i \<notin> set (index_names s) \<and> set (fst (snd i)) \<subseteq> set (map col_name cs))"

lemma table_named_None: "table_named s n = None \<longleftrightarrow> n \<notin> tbl_name ` set (sch_tables s)"
  by (auto simp: table_named_def find_None_iff)

lemma create_indexes:
  assumes "n \<notin> tbl_name ` set ts" and "distinct (map fst ixs)"
    and "\<forall>i\<in>set ixs. fst i \<notin> set (concat (map (\<lambda>t. map idx_name (tbl_indexes t)) (ts @ [t]))) \<and> set (fst (snd i)) \<subseteq> set (column_names t)"
    and "tbl_name t = n" and "sch_tables s = ts @ [t]"
  shows "migrate (map (\<lambda>(i, c, u). CreateIndex i n c u) ixs) s =
    Some (s\<lparr>sch_tables := ts @ [t\<lparr>tbl_indexes := tbl_indexes t @ map index_of ixs\<rparr>]\<rparr>)"
  using assms
proof (induction ixs arbitrary: s t)
  case (Cons x ixs)
  obtain i c u where x: "x = (i, c, u)" by (cases x)
  let ?i = "\<lparr>idx_name = i, idx_columns = c, idx_unique = u\<rparr>"
  let ?t = "t\<lparr>tbl_indexes := tbl_indexes t @ [?i]\<rparr>" and ?s = "s\<lparr>sch_tables := ts @ [t\<lparr>tbl_indexes := tbl_indexes t @ [?i]\<rparr>]\<rparr>"
  have others: "tbl_name y \<noteq> n" if "y \<in> set ts" for y using Cons.prems(1) that by auto
  then have "find (\<lambda>t. tbl_name t = n) (ts @ [t]) = Some t" using Cons.prems(4) by (induction ts) auto
  moreover have "map (\<lambda>x. if tbl_name x = n then ?t else x) (ts @ [t]) = ts @ [?t]"
    using others Cons.prems(4) by (simp add: map_idI)
  moreover have "list_all (\<lambda>c. c \<in> set (column_names t)) c" using Cons.prems(3) x by (auto simp: list_all_iff)
  ultimately have "change_table n (\<lambda>t. if list_all (\<lambda>c. c \<in> set (column_names t)) c
      then Some (t\<lparr>tbl_indexes := tbl_indexes t @ [?i]\<rparr>) else None) s = Some ?s"
    unfolding change_table_def table_named_def Cons.prems(5) by simp
  then have step: "execute (CreateIndex i n c u) s = Some ?s"
    using Cons.prems(3,5) x by simp
  have "migrate (map (\<lambda>(i, c, u). CreateIndex i n c u) ixs) ?s =
      Some (?s\<lparr>sch_tables := ts @ [?t\<lparr>tbl_indexes := tbl_indexes ?t @ map index_of ixs\<rparr>]\<rparr>)"
    using Cons.prems x by (intro Cons.IH) (auto simp: column_names_def index_of_def image_iff)
  with step x show ?case by (simp add: index_of_def)
qed simp

lemma migrate_creation:
  assumes "creatable n cs ks ixs s"
  shows "migrate (creation n cs ks ixs) s =
    Some (s\<lparr>sch_tables := sch_tables s @ [built n cs ks ixs], sch_enums := sch_enums s @ enums_of cs\<rparr>)"
proof -
  let ?t = "\<lparr>tbl_name = n, tbl_columns = cs, tbl_constraints = ks, tbl_indexes = []\<rparr>"
  let ?s = "s\<lparr>sch_tables := sch_tables s @ [?t], sch_enums := sch_enums s @ enums_of cs\<rparr>"
  have "execute (CreateTable n cs ks) s = Some ?s"
    using assms by (auto simp: creatable_def table_named_None list_ex_iff)
  moreover have "migrate (map (\<lambda>(i, c, u). CreateIndex i n c u) ixs) ?s =
      Some (?s\<lparr>sch_tables := sch_tables s @ [?t\<lparr>tbl_indexes := tbl_indexes ?t @ map index_of ixs\<rparr>]\<rparr>)"
    using assms by (intro create_indexes) (auto simp: creatable_def index_names_def column_names_def)
  ultimately show ?thesis by (simp add: creation_def built_def)
qed

subsection \<open>The rows a schema accepts\<close>

datatype sql_value = VNull | VText string | VInt int | VNum money | VTime time | VBool bool | VJson json

type_synonym sql_row = "(string \<times> sql_value) list"
type_synonym contents = "string \<Rightarrow> sql_row list"

fun fits :: "column_type \<Rightarrow> sql_value \<Rightarrow> bool" where
  "fits (VARCHAR n) (VText s) = varchar n s"
| "fits TEXT (VText s) = True"
| "fits INTEGER (VInt n) = int4 n"
| "fits (NUMERIC p q) (VNum m) = (q = 2 \<and> - (10 ^ p) < m \<and> m < 10 ^ p)"
| "fits TIMESTAMPTZ (VTime t) = True"
| "fits BOOLEAN (VBool b) = True"
| "fits JSONB (VJson j) = True"
| "fits (ENUM _ labels) (VText s) = (s \<in> set labels)"
| "fits _ _ = False"

definition column_accepts :: "column \<Rightarrow> sql_value \<Rightarrow> bool" where
  "column_accepts c v = (if v = VNull then col_nullable c else fits (col_type c) v)"

definition field :: "sql_row \<Rightarrow> string \<Rightarrow> sql_value" where
  "field r c = (case map_of r c of None \<Rightarrow> VNull | Some v \<Rightarrow> v)"

text \<open>Conditions have three values; a CHECK refuses a row only when its condition is false.\<close>

fun holds :: "sql_row \<Rightarrow> sql_condition \<Rightarrow> bool option" where
  "holds r (AtLeast0 c) = (case field r c of VInt n \<Rightarrow> Some (0 \<le> n) | _ \<Rightarrow> None)"
| "holds r (IsNull c) = Some (field r c = VNull)"
| "holds r (Or p q) = (case (holds r p, holds r q) of
     (Some True, _) \<Rightarrow> Some True | (_, Some True) \<Rightarrow> Some True
   | (Some False, Some False) \<Rightarrow> Some False | _ \<Rightarrow> None)"

fun constraint_accepts :: "sql_row list \<Rightarrow> sql_row \<Rightarrow> table_constraint \<Rightarrow> bool" where
  "constraint_accepts rows r (CheckConstraint _ p) = (holds r p \<noteq> Some False)"
| "constraint_accepts rows r (UniqueConstraint _ cs) =
     (VNull \<in> set (map (field r) cs) \<or> (\<forall>x\<in>set rows. map (field x) cs \<noteq> map (field r) cs))"

definition key_constraints :: "table \<Rightarrow> table_constraint list" where
  "key_constraints t =
     map (\<lambda>c. UniqueConstraint (col_name c) [col_name c]) (filter col_primary_key (tbl_columns t)) @
     map (\<lambda>i. UniqueConstraint (idx_name i) (idx_columns i)) (filter idx_unique (tbl_indexes t))"

definition reference_accepts :: "contents \<Rightarrow> sql_row \<Rightarrow> column \<Rightarrow> bool" where
  "reference_accepts d r c = (case col_references c of None \<Rightarrow> True | Some (t, k) \<Rightarrow>
     field r (col_name c) = VNull \<or> (\<exists>x\<in>set (d t). field x k = field r (col_name c)))"

definition table_accepts :: "table \<Rightarrow> contents \<Rightarrow> sql_row \<Rightarrow> bool" where
  "table_accepts t d r \<longleftrightarrow> map fst r = column_names t \<and>
     list_all (\<lambda>c. column_accepts c (field r (col_name c))) (tbl_columns t) \<and>
     list_all (constraint_accepts (d (tbl_name t)) r) (tbl_constraints t @ key_constraints t) \<and>
     list_all (reference_accepts d r) (tbl_columns t)"

definition accepts :: "schema \<Rightarrow> contents \<Rightarrow> string \<Rightarrow> sql_row \<Rightarrow> bool" where
  "accepts s d n r = (case table_named s n of None \<Rightarrow> False | Some t \<Rightarrow> table_accepts t d r)"

end
