(* ===== verification/Migrations.thy ===== *)
theory Migrations
  imports Schema
begin

text \<open>
  The migrations of \<open>migrations/versions/\<close>, statement by statement, and the schema they build. The
  client-side \<open>onupdate\<close> of a column is no part of the schema.
\<close>

abbreviation created_at :: column where
  "created_at \<equiv> server_default ''now()'' (Column ''created_at'' TIMESTAMPTZ)"

abbreviation updated_at :: column where
  "updated_at \<equiv> server_default ''now()'' (Column ''updated_at'' TIMESTAMPTZ)"

abbreviation id_column :: column where
  "id_column \<equiv> primary_key (Column ''id'' (VARCHAR 64))"

abbreviation product_ref :: column where
  "product_ref \<equiv> ForeignKey ''products'' ''id'' (Column ''product_id'' (VARCHAR 64))"

abbreviation warehouse_ref :: column where
  "warehouse_ref \<equiv> ForeignKey ''warehouses'' ''id'' (Column ''warehouse_id'' (VARCHAR 64))"

abbreviation order_ref :: column where
  "order_ref \<equiv> ForeignKey ''orders'' ''id'' (Column ''order_id'' (VARCHAR 64))"

subsection \<open>0001: the initial schema\<close>

definition users_columns :: "column list" where
  "users_columns = [id_column, Column ''email'' (VARCHAR 255), Column ''hashed_password'' (VARCHAR 255),
     Column ''role'' (ENUM ''user_role'' [''ADMIN'', ''CLIENT'']), created_at]"

definition products_columns :: "column list" where
  "products_columns = [id_column, Column ''sku'' (VARCHAR 64), Column ''name'' (VARCHAR 255),
     Column ''price'' (NUMERIC 12 2), created_at, updated_at]"

definition warehouses_columns :: "column list" where
  "warehouses_columns = [id_column, Column ''name'' (VARCHAR 255), Column ''location'' (VARCHAR 255), created_at]"

definition inventory_columns :: "column list" where
  "inventory_columns = [id_column, product_ref, warehouse_ref,
     server_default ''0'' (Column ''available_quantity'' INTEGER),
     server_default ''0'' (Column ''reserved_quantity'' INTEGER), updated_at]"

definition inventory_constraints :: "table_constraint list" where
  "inventory_constraints = [
     UniqueConstraint ''uq_inventory_product_warehouse'' [''product_id'', ''warehouse_id''],
     CheckConstraint ''ck_inventory_available_nonnegative'' (AtLeast0 ''available_quantity''),
     CheckConstraint ''ck_inventory_reserved_nonnegative'' (AtLeast0 ''reserved_quantity'')]"

definition orders_columns :: "column list" where
  "orders_columns = [id_column,
     Column ''status'' (ENUM ''order_status'' [''PENDING'', ''RESERVED'', ''PROCESSING'', ''COMPLETED'',
       ''FAILED'', ''CANCELLED'', ''EXPIRED'']),
     Column ''total'' (NUMERIC 12 2),
     ForeignKey ''users'' ''id'' (Column ''created_by_user_id'' (VARCHAR 64)),
     server_default ''success'' (Column ''payment_token'' (VARCHAR 32)),
     server_default ''0'' (Column ''processing_attempts'' INTEGER),
     nullable (Column ''idempotency_key'' (VARCHAR 255)), created_at, updated_at]"

definition order_items_columns :: "column list" where
  "order_items_columns = [id_column, order_ref, product_ref, warehouse_ref,
     Column ''quantity'' INTEGER, Column ''unit_price'' (NUMERIC 12 2)]"

definition reservations_columns :: "column list" where
  "reservations_columns = [id_column, order_ref, product_ref, warehouse_ref, Column ''quantity'' INTEGER,
     server_default ''ACTIVE'' (Column ''status'' (ENUM ''reservation_status'' [''ACTIVE'', ''RELEASED'', ''CONSUMED''])),
     Column ''expires_at'' TIMESTAMPTZ, created_at, nullable (Column ''released_at'' TIMESTAMPTZ)]"

definition audit_logs_columns :: "column list" where
  "audit_logs_columns = [id_column, product_ref, warehouse_ref, Column ''change'' INTEGER,
     Column ''type'' (ENUM ''audit_event_type'' [''STOCK_ADDED'', ''STOCK_REMOVED'', ''INVENTORY_RESERVED'',
       ''RESERVATION_RELEASED'', ''ORDER_COMPLETED'', ''MANUAL_ADJUSTMENT'']),
     Column ''reference_id'' (VARCHAR 64), created_at]"

definition idempotency_keys_columns :: "column list" where
  "idempotency_keys_columns = [primary_key (Column ''key'' (VARCHAR 255)), Column ''request_hash'' (VARCHAR 64),
     nullable (Column ''order_id'' (VARCHAR 64)),
     server_default ''IN_PROGRESS'' (Column ''status'' (ENUM ''idempotency_status'' [''IN_PROGRESS'', ''COMPLETED''])),
     nullable (Column ''response_body'' JSONB), created_at]"

definition outbox_events_columns :: "column list" where
  "outbox_events_columns = [id_column, Column ''aggregate_type'' (VARCHAR 32), Column ''aggregate_id'' (VARCHAR 64),
     Column ''event_type'' (VARCHAR 64), Column ''payload'' JSONB,
     server_default ''PENDING'' (Column ''status'' (ENUM ''outbox_status'' [''PENDING'', ''PUBLISHED''])),
     created_at, nullable (Column ''published_at'' TIMESTAMPTZ)]"

definition dead_letters_columns :: "column list" where
  "dead_letters_columns = [id_column, order_ref, Column ''reason'' TEXT, Column ''attempts'' INTEGER, created_at]"

definition upgrade_0001 :: "ddl list" where
  "upgrade_0001 = [
     CreateTable ''users'' users_columns [],
     CreateIndex ''ix_users_email'' ''users'' [''email''] True,
     CreateTable ''products'' products_columns [],
     CreateIndex ''ix_products_sku'' ''products'' [''sku''] True,
     CreateTable ''warehouses'' warehouses_columns [],
     CreateTable ''inventory'' inventory_columns inventory_constraints,
     CreateIndex ''ix_inventory_product_id'' ''inventory'' [''product_id''] False,
     CreateIndex ''ix_inventory_warehouse_id'' ''inventory'' [''warehouse_id''] False,
     CreateTable ''orders'' orders_columns [],
     CreateIndex ''ix_orders_status'' ''orders'' [''status''] False,
     CreateIndex ''ix_orders_created_at'' ''orders'' [''created_at''] False,
     CreateIndex ''ix_orders_created_by_user_id'' ''orders'' [''created_by_user_id''] False,
     CreateIndex ''ix_orders_idempotency_key'' ''orders'' [''idempotency_key''] True,
     CreateTable ''order_items'' order_items_columns [],
     CreateIndex ''ix_order_items_order_id'' ''order_items'' [''order_id''] False,
     CreateIndex ''ix_order_items_product_id'' ''order_items'' [''product_id''] False,
     CreateTable ''inventory_reservations'' reservations_columns [],
     CreateIndex ''ix_inventory_reservations_order_id'' ''inventory_reservations'' [''order_id''] False,
     CreateIndex ''ix_inventory_reservations_status'' ''inventory_reservations'' [''status''] False,
     CreateIndex ''ix_inventory_reservations_expires_at'' ''inventory_reservations'' [''expires_at''] False,
     CreateTable ''inventory_audit_logs'' audit_logs_columns [],
     CreateIndex ''ix_inventory_audit_logs_product_id'' ''inventory_audit_logs'' [''product_id''] False,
     CreateIndex ''ix_inventory_audit_logs_reference_id'' ''inventory_audit_logs'' [''reference_id''] False,
     CreateIndex ''ix_inventory_audit_logs_created_at'' ''inventory_audit_logs'' [''created_at''] False,
     CreateTable ''idempotency_keys'' idempotency_keys_columns [],
     CreateTable ''outbox_events'' outbox_events_columns [],
     CreateIndex ''ix_outbox_events_aggregate_id'' ''outbox_events'' [''aggregate_id''] False,
     CreateIndex ''ix_outbox_events_status'' ''outbox_events'' [''status''] False,
     CreateTable ''dead_letter_orders'' dead_letters_columns [],
     CreateIndex ''ix_dead_letter_orders_order_id'' ''dead_letter_orders'' [''order_id''] False]"

definition downgrade_0001 :: "ddl list" where
  "downgrade_0001 =
     map DropTable [''dead_letter_orders'', ''outbox_events'', ''idempotency_keys'', ''inventory_audit_logs'',
       ''inventory_reservations'', ''order_items'', ''orders'', ''inventory'', ''warehouses'', ''products'', ''users''] @
     map DropEnum [''order_status'', ''reservation_status'', ''audit_event_type'', ''idempotency_status'',
       ''outbox_status'', ''user_role'']"

subsection \<open>0002: low-stock alerts\<close>

definition low_stock_columns :: "column list" where
  "low_stock_columns = [nullable (Column ''low_stock_threshold'' INTEGER),
     server_default ''false'' (Column ''is_low_stock'' BOOLEAN)]"

definition low_stock_alerts_columns :: "column list" where
  "low_stock_alerts_columns = [id_column, product_ref, warehouse_ref, Column ''quantity_at_alert'' INTEGER,
     Column ''threshold'' INTEGER, created_at]"

definition upgrade_0002 :: "ddl list" where
  "upgrade_0002 = map (AddColumn ''inventory'') low_stock_columns @ [
     CreateCheckConstraint ''ck_inventory_low_stock_threshold_nonnegative'' ''inventory''
       (Or (IsNull ''low_stock_threshold'') (AtLeast0 ''low_stock_threshold'')),
     CreateTable ''low_stock_alerts'' low_stock_alerts_columns [],
     CreateIndex ''ix_low_stock_alerts_product_id'' ''low_stock_alerts'' [''product_id''] False,
     CreateIndex ''ix_low_stock_alerts_warehouse_id'' ''low_stock_alerts'' [''warehouse_id''] False,
     CreateIndex ''ix_low_stock_alerts_created_at'' ''low_stock_alerts'' [''created_at''] False]"

definition downgrade_0002 :: "ddl list" where
  "downgrade_0002 = [
     DropTable ''low_stock_alerts'',
     DropConstraint ''ck_inventory_low_stock_threshold_nonnegative'' ''inventory'',
     DropColumn ''inventory'' ''is_low_stock'',
     DropColumn ''inventory'' ''low_stock_threshold'']"

subsection \<open>The tables, and the schema after each migration\<close>

definition users_table :: table where
  "users_table = built ''users'' users_columns [] [(''ix_users_email'', [''email''], True)]"

definition products_table :: table where
  "products_table = built ''products'' products_columns [] [(''ix_products_sku'', [''sku''], True)]"

definition warehouses_table :: table where
  "warehouses_table = built ''warehouses'' warehouses_columns [] []"

definition inventory_table :: table where
  "inventory_table = built ''inventory'' inventory_columns inventory_constraints [(''ix_inventory_product_id'',
     [''product_id''], False),
     (''ix_inventory_warehouse_id'', [''warehouse_id''], False)]"

definition orders_table :: table where
  "orders_table = built ''orders'' orders_columns [] [(''ix_orders_status'', [''status''], False),
     (''ix_orders_created_at'', [''created_at''], False),
     (''ix_orders_created_by_user_id'', [''created_by_user_id''], False),
     (''ix_orders_idempotency_key'', [''idempotency_key''], True)]"

definition order_items_table :: table where
  "order_items_table = built ''order_items'' order_items_columns [] [(''ix_order_items_order_id'',
     [''order_id''], False),
     (''ix_order_items_product_id'', [''product_id''], False)]"

definition reservations_table :: table where
  "reservations_table = built ''inventory_reservations'' reservations_columns [] [(''ix_inventory_reservations_order_id'', [''order_id''], False),
     (''ix_inventory_reservations_status'', [''status''], False),
     (''ix_inventory_reservations_expires_at'', [''expires_at''], False)]"

definition audit_logs_table :: table where
  "audit_logs_table = built ''inventory_audit_logs'' audit_logs_columns [] [(''ix_inventory_audit_logs_product_id'', [''product_id''], False),
     (''ix_inventory_audit_logs_reference_id'', [''reference_id''], False),
     (''ix_inventory_audit_logs_created_at'', [''created_at''], False)]"

definition idempotency_keys_table :: table where
  "idempotency_keys_table = built ''idempotency_keys'' idempotency_keys_columns [] []"

definition outbox_events_table :: table where
  "outbox_events_table = built ''outbox_events'' outbox_events_columns [] [(''ix_outbox_events_aggregate_id'',
     [''aggregate_id''], False),
     (''ix_outbox_events_status'', [''status''], False)]"

definition dead_letters_table :: table where
  "dead_letters_table = built ''dead_letter_orders'' dead_letters_columns [] [(''ix_dead_letter_orders_order_id'', [''order_id''], False)]"

definition low_stock_alerts_table :: table where
  "low_stock_alerts_table = built ''low_stock_alerts'' low_stock_alerts_columns [] [(''ix_low_stock_alerts_product_id'', [''product_id''], False),
     (''ix_low_stock_alerts_warehouse_id'', [''warehouse_id''], False),
     (''ix_low_stock_alerts_created_at'', [''created_at''], False)]"

definition inventory_table_0002 :: table where
  "inventory_table_0002 = inventory_table\<lparr>tbl_columns := inventory_columns @ low_stock_columns,
     tbl_constraints := inventory_constraints @ [CheckConstraint ''ck_inventory_low_stock_threshold_nonnegative''
       (Or (IsNull ''low_stock_threshold'') (AtLeast0 ''low_stock_threshold''))]\<rparr>"

definition enum_types :: "(string \<times> string list) list" where
  "enum_types = concat (map enums_of [users_columns, orders_columns, reservations_columns, audit_logs_columns,
     idempotency_keys_columns, outbox_events_columns])"

definition schema_0001 :: schema where
  "schema_0001 = \<lparr>sch_tables = [users_table, products_table, warehouses_table, inventory_table, orders_table,
     order_items_table, reservations_table, audit_logs_table, idempotency_keys_table, outbox_events_table,
     dead_letters_table], sch_enums = enum_types\<rparr>"

definition head_schema :: schema where
  "head_schema = \<lparr>sch_tables = [users_table, products_table, warehouses_table, inventory_table_0002,
     orders_table,
     order_items_table, reservations_table, audit_logs_table, idempotency_keys_table, outbox_events_table,
     dead_letters_table, low_stock_alerts_table], sch_enums = enum_types\<rparr>"

text \<open>What the statements look at in the columns of a table.\<close>

lemma users_facts:
  "map col_name users_columns = [''id'', ''email'', ''hashed_password'', ''role'', ''created_at'']"
  "enums_of users_columns = [(''user_role'', [''ADMIN'', ''CLIENT''])]"
  "list_all (references_ok s) users_columns"
  "\<not> list_ex (refers_to n) users_columns"
  by (simp_all add: users_columns_def column_defs enums_of_def map_filter_simps references_ok_def refers_to_def)

lemma products_facts:
  "map col_name products_columns = [''id'', ''sku'', ''name'', ''price'', ''created_at'', ''updated_at'']"
  "enums_of products_columns = []"
  "list_all (references_ok s) products_columns"
  "\<not> list_ex (refers_to n) products_columns"
  by (simp_all add: products_columns_def column_defs enums_of_def map_filter_simps references_ok_def refers_to_def)

lemma warehouses_facts:
  "map col_name warehouses_columns = [''id'', ''name'', ''location'', ''created_at'']"
  "enums_of warehouses_columns = []"
  "list_all (references_ok s) warehouses_columns"
  "\<not> list_ex (refers_to n) warehouses_columns"
  by (simp_all add: warehouses_columns_def column_defs enums_of_def map_filter_simps references_ok_def refers_to_def)

lemma inventory_facts:
  "map col_name inventory_columns = [''id'', ''product_id'', ''warehouse_id'', ''available_quantity'',
     ''reserved_quantity'', ''updated_at'']"
  "enums_of inventory_columns = []"
  "list_all (references_ok s) inventory_columns \<longleftrightarrow> has_column s ''products'' ''id'' \<and> has_column s ''warehouses'' ''id''"
  "list_ex (refers_to n) inventory_columns \<longleftrightarrow> ''products'' = n \<or> ''warehouses'' = n"
  by (simp_all add: inventory_columns_def column_defs enums_of_def map_filter_simps references_ok_def refers_to_def)

lemma orders_facts:
  "map col_name orders_columns = [''id'', ''status'', ''total'', ''created_by_user_id'', ''payment_token'',
     ''processing_attempts'', ''idempotency_key'', ''created_at'', ''updated_at'']"
  "enums_of orders_columns = [(''order_status'', [''PENDING'', ''RESERVED'', ''PROCESSING'', ''COMPLETED'',
     ''FAILED'', ''CANCELLED'', ''EXPIRED''])]"
  "list_all (references_ok s) orders_columns \<longleftrightarrow> has_column s ''users'' ''id''"
  "list_ex (refers_to n) orders_columns \<longleftrightarrow> ''users'' = n"
  by (simp_all add: orders_columns_def column_defs enums_of_def map_filter_simps references_ok_def refers_to_def)

lemma order_items_facts:
  "map col_name order_items_columns = [''id'', ''order_id'', ''product_id'', ''warehouse_id'', ''quantity'',
     ''unit_price'']"
  "enums_of order_items_columns = []"
  "list_all (references_ok s) order_items_columns \<longleftrightarrow> has_column s ''orders'' ''id'' \<and> has_column s ''products'' ''id'' \<and> has_column s ''warehouses'' ''id''"
  "list_ex (refers_to n) order_items_columns \<longleftrightarrow> ''orders'' = n \<or> ''products'' = n \<or> ''warehouses'' = n"
  by (simp_all add: order_items_columns_def column_defs enums_of_def map_filter_simps references_ok_def refers_to_def)

lemma reservations_facts:
  "map col_name reservations_columns = [''id'', ''order_id'', ''product_id'', ''warehouse_id'', ''quantity'',
     ''status'', ''expires_at'', ''created_at'', ''released_at'']"
  "enums_of reservations_columns = [(''reservation_status'', [''ACTIVE'', ''RELEASED'', ''CONSUMED''])]"
  "list_all (references_ok s) reservations_columns \<longleftrightarrow> has_column s ''orders'' ''id'' \<and> has_column s ''products'' ''id'' \<and> has_column s ''warehouses'' ''id''"
  "list_ex (refers_to n) reservations_columns \<longleftrightarrow> ''orders'' = n \<or> ''products'' = n \<or> ''warehouses'' = n"
  by (simp_all add: reservations_columns_def column_defs enums_of_def map_filter_simps references_ok_def refers_to_def)

lemma audit_logs_facts:
  "map col_name audit_logs_columns = [''id'', ''product_id'', ''warehouse_id'', ''change'', ''type'',
     ''reference_id'', ''created_at'']"
  "enums_of audit_logs_columns = [(''audit_event_type'', [''STOCK_ADDED'', ''STOCK_REMOVED'',
     ''INVENTORY_RESERVED'', ''RESERVATION_RELEASED'', ''ORDER_COMPLETED'', ''MANUAL_ADJUSTMENT''])]"
  "list_all (references_ok s) audit_logs_columns \<longleftrightarrow> has_column s ''products'' ''id'' \<and> has_column s ''warehouses'' ''id''"
  "list_ex (refers_to n) audit_logs_columns \<longleftrightarrow> ''products'' = n \<or> ''warehouses'' = n"
  by (simp_all add: audit_logs_columns_def column_defs enums_of_def map_filter_simps references_ok_def refers_to_def)

lemma idempotency_keys_facts:
  "map col_name idempotency_keys_columns = [''key'', ''request_hash'', ''order_id'', ''status'',
     ''response_body'', ''created_at'']"
  "enums_of idempotency_keys_columns = [(''idempotency_status'', [''IN_PROGRESS'', ''COMPLETED''])]"
  "list_all (references_ok s) idempotency_keys_columns"
  "\<not> list_ex (refers_to n) idempotency_keys_columns"
  by (simp_all add: idempotency_keys_columns_def column_defs enums_of_def map_filter_simps references_ok_def refers_to_def)

lemma outbox_events_facts:
  "map col_name outbox_events_columns = [''id'', ''aggregate_type'', ''aggregate_id'', ''event_type'',
     ''payload'', ''status'', ''created_at'', ''published_at'']"
  "enums_of outbox_events_columns = [(''outbox_status'', [''PENDING'', ''PUBLISHED''])]"
  "list_all (references_ok s) outbox_events_columns"
  "\<not> list_ex (refers_to n) outbox_events_columns"
  by (simp_all add: outbox_events_columns_def column_defs enums_of_def map_filter_simps references_ok_def refers_to_def)

lemma dead_letters_facts:
  "map col_name dead_letters_columns = [''id'', ''order_id'', ''reason'', ''attempts'', ''created_at'']"
  "enums_of dead_letters_columns = []"
  "list_all (references_ok s) dead_letters_columns \<longleftrightarrow> has_column s ''orders'' ''id''"
  "list_ex (refers_to n) dead_letters_columns \<longleftrightarrow> ''orders'' = n"
  by (simp_all add: dead_letters_columns_def column_defs enums_of_def map_filter_simps references_ok_def refers_to_def)

lemma low_stock_alerts_facts:
  "map col_name low_stock_alerts_columns = [''id'', ''product_id'', ''warehouse_id'', ''quantity_at_alert'',
     ''threshold'', ''created_at'']"
  "enums_of low_stock_alerts_columns = []"
  "list_all (references_ok s) low_stock_alerts_columns \<longleftrightarrow> has_column s ''products'' ''id'' \<and> has_column s ''warehouses'' ''id''"
  "list_ex (refers_to n) low_stock_alerts_columns \<longleftrightarrow> ''products'' = n \<or> ''warehouses'' = n"
  by (simp_all add: low_stock_alerts_columns_def column_defs enums_of_def map_filter_simps references_ok_def refers_to_def)

lemmas columns_facts = users_facts products_facts warehouses_facts inventory_facts orders_facts order_items_facts
  reservations_facts audit_logs_facts idempotency_keys_facts outbox_events_facts dead_letters_facts low_stock_alerts_facts

lemmas table_defs = users_table_def products_table_def warehouses_table_def inventory_table_def orders_table_def order_items_table_def
  reservations_table_def audit_logs_table_def idempotency_keys_table_def outbox_events_table_def dead_letters_table_def low_stock_alerts_table_def

lemmas stage_simps = creatable_def built_def index_of_def index_names_def has_column_def table_named_def
  column_names_def references_table_def

text \<open>The first migration, table by table.\<close>

lemma index_of_parts: "map index_of (map (\<lambda>i. (idx_name i, idx_columns i, idx_unique i)) is) = is"
  by (induction "is") (simp_all add: index_of_def)

lemma built_parts: "built (tbl_name t) (tbl_columns t) (tbl_constraints t)
    (map (\<lambda>i. (idx_name i, idx_columns i, idx_unique i)) (tbl_indexes t)) = t"
  by (simp add: built_def index_of_parts del: map_map)

text \<open>Tables created one after the other, each on the schema of those before.\<close>

definition table_creation :: "table \<Rightarrow> ddl list" where
  "table_creation t = creation (tbl_name t) (tbl_columns t) (tbl_constraints t)
     (map (\<lambda>i. (idx_name i, idx_columns i, idx_unique i)) (tbl_indexes t))"

lemma upgrade_0001_creations: "upgrade_0001 = concat (map table_creation (sch_tables schema_0001))"
  by (simp add: upgrade_0001_def schema_0001_def table_defs built_def creation_def index_of_def table_creation_def)

fun creatable_all :: "schema \<Rightarrow> table list \<Rightarrow> bool" where
  "creatable_all s [] = True"
| "creatable_all s (t # ts) = (creatable (tbl_name t) (tbl_columns t) (tbl_constraints t)
     (map (\<lambda>i. (idx_name i, idx_columns i, idx_unique i)) (tbl_indexes t)) s \<and>
     creatable_all (s\<lparr>sch_tables := sch_tables s @ [t], sch_enums := sch_enums s @ enums_of (tbl_columns t)\<rparr>) ts)"

lemma migrate_creations:
  "creatable_all s ts \<Longrightarrow> migrate (concat (map table_creation ts)) s =
     Some (s\<lparr>sch_tables := sch_tables s @ ts, sch_enums := sch_enums s @ concat (map (\<lambda>t. enums_of (tbl_columns t)) ts)\<rparr>)"
proof (induction ts arbitrary: s)
  case (Cons t ts)
  then have "migrate (table_creation t) s = Some (s\<lparr>sch_tables := sch_tables s @ [t], sch_enums := sch_enums s @ enums_of (tbl_columns t)\<rparr>)"
    by (simp add: table_creation_def migrate_creation built_parts)
  with Cons show ?case by (simp add: migrate_append)
qed simp

lemma upgrade_0001_builds: "migrate upgrade_0001 empty_schema = Some schema_0001"
proof -
  have "creatable_all empty_schema (sch_tables schema_0001)"
    by (simp add: schema_0001_def table_defs stage_simps empty_schema_def columns_facts inventory_constraints_def)
  from migrate_creations [OF this] show ?thesis
    by (simp add: upgrade_0001_creations)
      (simp add: empty_schema_def schema_0001_def table_defs built_def enum_types_def columns_facts)
qed

lemma inventory_names: "col_name ` set inventory_columns = {''id'', ''product_id'', ''warehouse_id'',
    ''available_quantity'', ''reserved_quantity'', ''updated_at''}"
  using arg_cong [OF inventory_facts(1), of set] by simp

lemma upgrade_0002_builds: "migrate upgrade_0002 schema_0001 = Some head_schema"
proof -
  let ?create = "creation ''low_stock_alerts'' low_stock_alerts_columns [] (map (\<lambda>i. (idx_name i, idx_columns i, idx_unique i)) (tbl_indexes low_stock_alerts_table))"
  let ?t = "inventory_table\<lparr>tbl_columns := inventory_columns @ low_stock_columns\<rparr>"
  let ?s = "head_schema\<lparr>sch_tables := butlast (sch_tables head_schema)\<rparr>"
  have "migrate (take 3 upgrade_0002) schema_0001 = Some ?s"
    by (simp add: upgrade_0002_def low_stock_columns_def column_defs schema_0001_def head_schema_def
        inventory_table_0002_def table_defs built_def change_table_def table_named_def column_names_def columns_facts
        references_ok_def inventory_constraints_def inventory_names)
  moreover have "drop 3 upgrade_0002 = table_creation low_stock_alerts_table"
    by (simp add: upgrade_0002_def low_stock_columns_def table_creation_def creation_def low_stock_alerts_table_def
        built_def index_of_def)
  moreover have "creatable_all ?s [low_stock_alerts_table]"
    by (simp add: head_schema_def inventory_table_0002_def table_defs stage_simps columns_facts)
  then have "migrate (table_creation low_stock_alerts_table) ?s = Some head_schema"
    using migrate_creations [of ?s "[low_stock_alerts_table]"]
    by (simp add: head_schema_def low_stock_alerts_table_def built_def columns_facts)
  ultimately show ?thesis
    using migrate_append [of "take 3 upgrade_0002" "drop 3 upgrade_0002" schema_0001, unfolded append_take_drop_id] by simp
qed

lemma downgrade_0002_restores: "migrate downgrade_0002 head_schema = Some schema_0001"
proof -
  have "filter (\<lambda>x. col_name x \<noteq> ''low_stock_threshold'') (filter (\<lambda>x. col_name x \<noteq> ''is_low_stock'')
      (inventory_columns @ low_stock_columns)) = inventory_columns"
    by (simp add: inventory_columns_def low_stock_columns_def column_defs)
  then show ?thesis
    by (simp add: downgrade_0002_def schema_0001_def head_schema_def inventory_table_0002_def table_defs built_def
        change_table_def table_named_def column_names_def columns_facts low_stock_columns_def column_defs
        inventory_constraints_def references_table_def refers_to_def index_of_def)
qed

lemma downgrade_0001_restores: "migrate downgrade_0001 schema_0001 = Some empty_schema"
  by (simp add: downgrade_0001_def schema_0001_def table_defs built_def table_named_def references_table_def
      columns_facts enum_types_def empty_schema_def)

text \<open>
  The migrations apply in order, and each downgrade undoes its upgrade: from the empty database
  the upgrades build the schema of the program; downgrading it once leaves the schema of the first
  migration, downgrading it twice leaves nothing, not even an enum type.
\<close>

theorem migrations_round_trip:
  "migrate upgrade_0001 empty_schema = Some schema_0001 \<and> migrate upgrade_0002 schema_0001 = Some head_schema \<and>
   migrate downgrade_0002 head_schema = Some schema_0001 \<and> migrate downgrade_0001 schema_0001 = Some empty_schema"
  using upgrade_0001_builds upgrade_0002_builds downgrade_0002_restores downgrade_0001_restores by blast

end
