(* ===== verification/Schema_Equivalence.thy ===== *)
theory Schema_Equivalence
  imports Migrations
begin

text \<open>
  The rows the program writes, as the schema of the migrations sees them, and the proof that this
  schema accepts a new row exactly when the model's row check does. Generated ids and hashes always
  fit their columns, which the row checks therefore leave out; here it is a hypothesis.
\<close>

subsection \<open>The rows as the database stores them\<close>

fun reservation_status_value :: "reservation_status \<Rightarrow> string" where
  "reservation_status_value ACTIVE = ''ACTIVE''"
| "reservation_status_value RELEASED = ''RELEASED''"
| "reservation_status_value CONSUMED = ''CONSUMED''"

fun audit_event_type_value :: "audit_event_type \<Rightarrow> string" where
  "audit_event_type_value STOCK_ADDED = ''STOCK_ADDED''"
| "audit_event_type_value STOCK_REMOVED = ''STOCK_REMOVED''"
| "audit_event_type_value INVENTORY_RESERVED = ''INVENTORY_RESERVED''"
| "audit_event_type_value RESERVATION_RELEASED = ''RESERVATION_RELEASED''"
| "audit_event_type_value ORDER_COMPLETED = ''ORDER_COMPLETED''"
| "audit_event_type_value MANUAL_ADJUSTMENT = ''MANUAL_ADJUSTMENT''"

fun idempotency_status_value :: "idempotency_status \<Rightarrow> string" where
  "idempotency_status_value IDEM_IN_PROGRESS = ''IN_PROGRESS''"
| "idempotency_status_value IDEM_COMPLETED = ''COMPLETED''"

fun outbox_status_value :: "outbox_status \<Rightarrow> string" where
  "outbox_status_value OUTBOX_PENDING = ''PENDING''"
| "outbox_status_value OUTBOX_PUBLISHED = ''PUBLISHED''"

definition opt :: "('a \<Rightarrow> sql_value) \<Rightarrow> 'a option \<Rightarrow> sql_value" where
  "opt f x = (case x of None \<Rightarrow> VNull | Some y \<Rightarrow> f y)"

lemma opt_simps [simp]: "opt f None = VNull" "opt f (Some y) = f y"
  by (simp_all add: opt_def)

definition user_values :: "user \<Rightarrow> sql_row" where
  "user_values u = [(''id'', VText (user_id u)), (''email'', VText (user_email u)),
     (''hashed_password'', VText (user_hashed_password u)),
     (''role'', VText (user_role_value (user_role u))),
     (''created_at'', VTime (user_created_at u))]"

definition product_values :: "product \<Rightarrow> sql_row" where
  "product_values p = [(''id'', VText (prod_id p)), (''sku'', VText (prod_sku p)), (''name'', VText (prod_name p)),
     (''price'', VNum (prod_price p)), (''created_at'', VTime (prod_created_at p)),
     (''updated_at'', VTime (prod_updated_at p))]"

definition warehouse_values :: "warehouse \<Rightarrow> sql_row" where
  "warehouse_values w = [(''id'', VText (wh_id w)), (''name'', VText (wh_name w)),
     (''location'', VText (wh_location w)), (''created_at'', VTime (wh_created_at w))]"

definition inventory_values :: "inventory_row \<Rightarrow> sql_row" where
  "inventory_values r = [(''id'', VText (inv_id r)), (''product_id'', VText (inv_product_id r)),
     (''warehouse_id'', VText (inv_warehouse_id r)),
     (''available_quantity'', VInt (available_quantity r)),
     (''reserved_quantity'', VInt (reserved_quantity r)),
     (''updated_at'', VTime (inv_updated_at r)),
     (''low_stock_threshold'', opt VInt (low_stock_threshold r)),
     (''is_low_stock'', VBool (is_low_stock r))]"

definition order_values :: "order_row \<Rightarrow> sql_row" where
  "order_values r = [(''id'', VText (ord_id r)), (''status'', VText (order_status_value (ord_status r))),
     (''total'', VNum (ord_total r)), (''created_by_user_id'', VText (ord_created_by_user_id r)),
     (''payment_token'', VText (ord_payment_token r)),
     (''processing_attempts'', VInt (ord_processing_attempts r)),
     (''idempotency_key'', opt VText (ord_idempotency_key r)),
     (''created_at'', VTime (ord_created_at r)), (''updated_at'', VTime (ord_updated_at r))]"

definition order_item_values :: "order_item \<Rightarrow> sql_row" where
  "order_item_values r = [(''id'', VText (item_id r)), (''order_id'', VText (item_order_id r)),
     (''product_id'', VText (item_product_id r)), (''warehouse_id'', VText (item_warehouse_id r)),
     (''quantity'', VInt (item_quantity r)), (''unit_price'', VNum (item_unit_price r))]"

definition reservation_values :: "reservation \<Rightarrow> sql_row" where
  "reservation_values r = [(''id'', VText (resv_id r)), (''order_id'', VText (resv_order_id r)),
     (''product_id'', VText (resv_product_id r)), (''warehouse_id'', VText (resv_warehouse_id r)),
     (''quantity'', VInt (resv_quantity r)),
     (''status'', VText (reservation_status_value (resv_status r))),
     (''expires_at'', VTime (resv_expires_at r)), (''created_at'', VTime (resv_created_at r)),
     (''released_at'', opt VTime (resv_released_at r))]"

definition audit_values :: "audit_log \<Rightarrow> sql_row" where
  "audit_values r = [(''id'', VText (audit_id r)), (''product_id'', VText (audit_product_id r)),
     (''warehouse_id'', VText (audit_warehouse_id r)), (''change'', VInt (audit_change r)),
     (''type'', VText (audit_event_type_value (audit_type r))),
     (''reference_id'', VText (audit_reference_id r)),
     (''created_at'', VTime (audit_created_at r))]"

definition key_values :: "idempotency_key \<Rightarrow> sql_row" where
  "key_values r = [(''key'', VText (idem_key r)), (''request_hash'', VText (idem_request_hash r)),
     (''order_id'', opt VText (idem_order_id r)),
     (''status'', VText (idempotency_status_value (idem_status r))),
     (''response_body'', opt VJson (idem_response_body r)),
     (''created_at'', VTime (idem_created_at r))]"

definition event_values :: "outbox_event \<Rightarrow> sql_row" where
  "event_values r = [(''id'', VText (evt_id r)), (''aggregate_type'', VText (evt_aggregate_type r)),
     (''aggregate_id'', VText (evt_aggregate_id r)), (''event_type'', VText (evt_event_type r)),
     (''payload'', VJson (evt_payload r)),
     (''status'', VText (outbox_status_value (evt_status r))),
     (''created_at'', VTime (evt_created_at r)),
     (''published_at'', opt VTime (evt_published_at r))]"

definition dead_letter_values :: "dead_letter \<Rightarrow> sql_row" where
  "dead_letter_values r = [(''id'', VText (dlq_id r)), (''order_id'', VText (dlq_order_id r)),
     (''reason'', VText (dlq_reason r)), (''attempts'', VInt (dlq_attempts r)),
     (''created_at'', VTime (dlq_created_at r))]"

definition alert_values :: "low_stock_alert \<Rightarrow> sql_row" where
  "alert_values r = [(''id'', VText (lsa_id r)), (''product_id'', VText (lsa_product_id r)),
     (''warehouse_id'', VText (lsa_warehouse_id r)),
     (''quantity_at_alert'', VInt (lsa_quantity_at_alert r)),
     (''threshold'', VInt (lsa_threshold r)), (''created_at'', VTime (lsa_created_at r))]"

text \<open>The contents of the database, table by table.\<close>

definition stored :: "db \<Rightarrow> contents" where
  "stored d t =
    (if t = ''users'' then map user_values (users d)
     else if t = ''products'' then map product_values (products d)
     else if t = ''warehouses'' then map warehouse_values (warehouses d)
     else if t = ''inventory'' then map inventory_values (inventory d)
     else if t = ''orders'' then map order_values (orders d)
     else if t = ''order_items'' then map order_item_values (order_items d)
     else if t = ''inventory_reservations'' then map reservation_values (reservations d)
     else if t = ''inventory_audit_logs'' then map audit_values (audit_logs d)
     else if t = ''idempotency_keys'' then map key_values (idempotency_keys d)
     else if t = ''outbox_events'' then map event_values (outbox_events d)
     else if t = ''dead_letter_orders'' then map dead_letter_values (dead_letters d)
     else if t = ''low_stock_alerts'' then map alert_values (low_stock_alerts d)
     else [])"

lemma stored_simps [simp]:
  "stored d ''users'' = map user_values (users d)"
  "stored d ''products'' = map product_values (products d)"
  "stored d ''warehouses'' = map warehouse_values (warehouses d)"
  "stored d ''inventory'' = map inventory_values (inventory d)"
  "stored d ''orders'' = map order_values (orders d)"
  "stored d ''order_items'' = map order_item_values (order_items d)"
  "stored d ''inventory_reservations'' = map reservation_values (reservations d)"
  "stored d ''inventory_audit_logs'' = map audit_values (audit_logs d)"
  "stored d ''idempotency_keys'' = map key_values (idempotency_keys d)"
  "stored d ''outbox_events'' = map event_values (outbox_events d)"
  "stored d ''dead_letter_orders'' = map dead_letter_values (dead_letters d)"
  "stored d ''low_stock_alerts'' = map alert_values (low_stock_alerts d)"
  by (simp_all add: stored_def)

lemmas value_defs = user_values_def product_values_def warehouse_values_def inventory_values_def order_values_def order_item_values_def
  reservation_values_def audit_values_def key_values_def event_values_def dead_letter_values_def alert_values_def

lemma head_tables:
  "table_named head_schema ''users'' = Some users_table"
  "table_named head_schema ''products'' = Some products_table"
  "table_named head_schema ''warehouses'' = Some warehouses_table"
  "table_named head_schema ''inventory'' = Some inventory_table_0002"
  "table_named head_schema ''orders'' = Some orders_table"
  "table_named head_schema ''order_items'' = Some order_items_table"
  "table_named head_schema ''inventory_reservations'' = Some reservations_table"
  "table_named head_schema ''inventory_audit_logs'' = Some audit_logs_table"
  "table_named head_schema ''idempotency_keys'' = Some idempotency_keys_table"
  "table_named head_schema ''outbox_events'' = Some outbox_events_table"
  "table_named head_schema ''dead_letter_orders'' = Some dead_letters_table"
  "table_named head_schema ''low_stock_alerts'' = Some low_stock_alerts_table"
  by (simp_all add: table_named_def head_schema_def inventory_table_0002_def table_defs built_def)

lemma field_simps [simp]: "field ((c, v) # r) k = (if c = k then v else field r k)" "field [] k = VNull"
  by (simp_all add: field_def)

lemma opt_value [simp]: "opt VText x = VText k \<longleftrightarrow> x = Some k" "VText k = opt VText x \<longleftrightarrow> x = Some k"
  by (cases x; auto)+

text \<open>Keys and references as memberships.\<close>

lemma absent: "(\<forall>x\<in>set l. f x \<noteq> k) \<longleftrightarrow> k \<notin> f ` set l"
  and absent_pair: "(\<forall>x\<in>set l. f x = i \<longrightarrow> g x \<noteq> j) \<longleftrightarrow> (i, j) \<notin> (\<lambda>x. (f x, g x)) ` set l"
  by auto

definition ids_fit :: "db \<Rightarrow> bool" where
  "ids_fit d \<longleftrightarrow> (\<forall>i\<in>user_id ` set (users d) \<union> prod_id ` set (products d) \<union> wh_id ` set (warehouses d) \<union>
     ord_id ` set (orders d). varchar 64 i)"

lemmas accept_simps = accepts_def head_tables table_accepts_def built_def column_names_def index_of_def
  column_accepts_def key_constraints_def reference_accepts_def column_defs table_defs value_defs
  absent absent_pair

lemma accepts_user:
  "accepts head_schema (stored d) ''users'' (user_values u) \<longleftrightarrow> check_user d u = None"
  by (cases "user_role u") (simp_all add: accept_simps users_columns_def check_user_def conj_ac)

lemma accepts_product:
  "accepts head_schema (stored d) ''products'' (product_values p) \<longleftrightarrow> check_product d p = None"
  by (simp add: accept_simps products_columns_def check_product_def numeric_12_2_def conj_ac)

lemma accepts_warehouse:
  "accepts head_schema (stored d) ''warehouses'' (warehouse_values w) \<longleftrightarrow> check_warehouse d w = None"
  by (simp add: accept_simps warehouses_columns_def check_warehouse_def conj_ac)

lemma references_fit:
  assumes "ids_fit d"
  shows "has_user d i \<Longrightarrow> varchar 64 i" "has_product d i \<Longrightarrow> varchar 64 i" "has_warehouse d i \<Longrightarrow> varchar 64 i"
    "has_order d i \<Longrightarrow> varchar 64 i"
  using assms by (auto simp: ids_fit_def references)

lemma fitting_reference:
  assumes "ids_fit d"
  shows "varchar 64 i \<and> (\<exists>x\<in>set (users d). user_id x = i) \<longleftrightarrow> has_user d i"
    "varchar 64 i \<and> (\<exists>x\<in>set (products d). prod_id x = i) \<longleftrightarrow> has_product d i"
    "varchar 64 i \<and> (\<exists>x\<in>set (warehouses d). wh_id x = i) \<longleftrightarrow> has_warehouse d i"
    "varchar 64 i \<and> (\<exists>x\<in>set (orders d). ord_id x = i) \<longleftrightarrow> has_order d i"
  using assms by (auto simp: ids_fit_def references)

lemma accepts_inventory:
  assumes "ids_fit d"
  shows "accepts head_schema (stored d) ''inventory'' (inventory_values r) \<longleftrightarrow> check_inventory d r = None"
proof -
  have "accepts head_schema (stored d) ''inventory'' (inventory_values r) \<longleftrightarrow>
    check_inventory_row r = None \<and> varchar 64 (inv_id r) \<and> inv_id r \<notin> inv_id ` set (inventory d) \<and> inv_key r \<notin> (\<lambda>r. inv_key r) ` set (inventory d) \<and>
    (varchar 64 (inv_product_id r) \<and> (\<exists>x\<in>set (products d). prod_id x = inv_product_id r)) \<and>
    (varchar 64 (inv_warehouse_id r) \<and> (\<exists>x\<in>set (warehouses d). wh_id x = inv_warehouse_id r))"
    by (cases "low_stock_threshold r")
      (auto simp: accept_simps inventory_table_0002_def inventory_columns_def inventory_constraints_def low_stock_columns_def
        check_inventory_row_None threshold_ok_def)
  also have "\<dots> \<longleftrightarrow> check_inventory d r = None"
    unfolding fitting_reference [OF assms(1)] by (simp add: check_inventory_def split: option.split)
  finally show ?thesis .
qed

lemma accepts_order:
  assumes "ids_fit d" and "varchar 64 (ord_id r)"
  shows "accepts head_schema (stored d) ''orders'' (order_values r) \<longleftrightarrow> check_order d r = None"
proof -
  have "accepts head_schema (stored d) ''orders'' (order_values r) \<longleftrightarrow>
    check_order_row r = None \<and> ord_id r \<notin> ord_id ` set (orders d) \<and>
    (ord_idempotency_key r = None \<or> ord_idempotency_key r \<notin> ord_idempotency_key ` set (orders d)) \<and>
    (varchar 64 (ord_created_by_user_id r) \<and> (\<exists>x\<in>set (users d). user_id x = ord_created_by_user_id r))"
    using assms(2)
    by (cases "ord_status r"; cases "ord_idempotency_key r")
      (simp_all add: accept_simps orders_columns_def check_order_row_def numeric_12_2_def conj_ac)
  also have "\<dots> \<longleftrightarrow> check_order d r = None"
    unfolding fitting_reference [OF assms(1)]
    by (cases "ord_idempotency_key r") (simp_all add: check_order_def split: option.split)
  finally show ?thesis .
qed

lemma accepts_order_item:
  assumes "ids_fit d" and "varchar 64 (item_id r)"
  shows "accepts head_schema (stored d) ''order_items'' (order_item_values r) \<longleftrightarrow> check_order_item d r = None"
proof -
  have "accepts head_schema (stored d) ''order_items'' (order_item_values r) \<longleftrightarrow> int4 (item_quantity r) \<and> numeric_12_2 (item_unit_price r) \<and>
    item_id r \<notin> item_id ` set (order_items d) \<and> (varchar 64 (item_order_id r) \<and> (\<exists>x\<in>set (orders d). ord_id x = item_order_id r)) \<and>
    (varchar 64 (item_product_id r) \<and> (\<exists>x\<in>set (products d). prod_id x = item_product_id r)) \<and> (varchar 64 (item_warehouse_id r) \<and> (\<exists>x\<in>set (warehouses d). wh_id x = item_warehouse_id r))"
    using assms(2) by (simp_all add: accept_simps order_items_columns_def numeric_12_2_def conj_ac)
  also have "\<dots> \<longleftrightarrow> check_order_item d r = None"
    unfolding fitting_reference [OF assms(1)] by (simp add: check_order_item_def conj_ac)
  finally show ?thesis .
qed

lemma accepts_reservation:
  assumes "ids_fit d" and "varchar 64 (resv_id r)"
  shows "accepts head_schema (stored d) ''inventory_reservations'' (reservation_values r) \<longleftrightarrow> check_reservation d r = None"
proof -
  have "accepts head_schema (stored d) ''inventory_reservations'' (reservation_values r) \<longleftrightarrow> int4 (resv_quantity r) \<and>
    resv_id r \<notin> resv_id ` set (reservations d) \<and> (varchar 64 (resv_order_id r) \<and> (\<exists>x\<in>set (orders d). ord_id x = resv_order_id r)) \<and>
    (varchar 64 (resv_product_id r) \<and> (\<exists>x\<in>set (products d). prod_id x = resv_product_id r)) \<and> (varchar 64 (resv_warehouse_id r) \<and> (\<exists>x\<in>set (warehouses d). wh_id x = resv_warehouse_id r))"
    using assms(2) by (cases "resv_status r"; cases "resv_released_at r") (simp_all add: accept_simps reservations_columns_def conj_ac)
  also have "\<dots> \<longleftrightarrow> check_reservation d r = None"
    unfolding fitting_reference [OF assms(1)] by (simp add: check_reservation_def conj_ac)
  finally show ?thesis .
qed

lemma accepts_audit_log:
  assumes "ids_fit d" and "varchar 64 (audit_id r)"
  shows "accepts head_schema (stored d) ''inventory_audit_logs'' (audit_values r) \<longleftrightarrow> check_audit_log d r = None"
proof -
  have "accepts head_schema (stored d) ''inventory_audit_logs'' (audit_values r) \<longleftrightarrow> int4 (audit_change r) \<and> varchar 64 (audit_reference_id r) \<and>
    audit_id r \<notin> audit_id ` set (audit_logs d) \<and> (varchar 64 (audit_product_id r) \<and> (\<exists>x\<in>set (products d). prod_id x = audit_product_id r)) \<and>
    (varchar 64 (audit_warehouse_id r) \<and> (\<exists>x\<in>set (warehouses d). wh_id x = audit_warehouse_id r))"
    using assms(2) by (cases "audit_type r") (simp_all add: accept_simps audit_logs_columns_def conj_ac)
  also have "\<dots> \<longleftrightarrow> check_audit_log d r = None"
    unfolding fitting_reference [OF assms(1)] by (simp add: check_audit_log_def conj_ac)
  finally show ?thesis .
qed

lemma accepts_dead_letter:
  assumes "ids_fit d" and "varchar 64 (dlq_id r)"
  shows "accepts head_schema (stored d) ''dead_letter_orders'' (dead_letter_values r) \<longleftrightarrow> check_dead_letter d r = None"
proof -
  have "accepts head_schema (stored d) ''dead_letter_orders'' (dead_letter_values r) \<longleftrightarrow> int4 (dlq_attempts r) \<and> dlq_id r \<notin> dlq_id ` set (dead_letters d) \<and>
    (varchar 64 (dlq_order_id r) \<and> (\<exists>x\<in>set (orders d). ord_id x = dlq_order_id r))"
    using assms(2) by (simp_all add: accept_simps dead_letters_columns_def conj_ac)
  also have "\<dots> \<longleftrightarrow> check_dead_letter d r = None"
    unfolding fitting_reference [OF assms(1)] by (simp add: check_dead_letter_def conj_ac)
  finally show ?thesis .
qed

lemma accepts_alert:
  assumes "ids_fit d" and "varchar 64 (lsa_id r)"
  shows "accepts head_schema (stored d) ''low_stock_alerts'' (alert_values r) \<longleftrightarrow> check_low_stock_alert d r = None"
proof -
  have "accepts head_schema (stored d) ''low_stock_alerts'' (alert_values r) \<longleftrightarrow> int4 (lsa_quantity_at_alert r) \<and> int4 (lsa_threshold r) \<and>
    lsa_id r \<notin> lsa_id ` set (low_stock_alerts d) \<and> (varchar 64 (lsa_product_id r) \<and> (\<exists>x\<in>set (products d). prod_id x = lsa_product_id r)) \<and>
    (varchar 64 (lsa_warehouse_id r) \<and> (\<exists>x\<in>set (warehouses d). wh_id x = lsa_warehouse_id r))"
    using assms(2) by (simp_all add: accept_simps low_stock_alerts_columns_def conj_ac)
  also have "\<dots> \<longleftrightarrow> check_low_stock_alert d r = None"
    unfolding fitting_reference [OF assms(1)] by (simp add: check_low_stock_alert_def conj_ac)
  finally show ?thesis .
qed

lemma accepts_key:
  assumes "\<forall>i. idem_order_id r = Some i \<longrightarrow> varchar 64 i"
  shows "accepts head_schema (stored d) ''idempotency_keys'' (key_values r) \<longleftrightarrow> check_idempotency_key d r = None"
  using assms
  by (cases "idem_status r"; cases "idem_order_id r"; cases "idem_response_body r")
    (simp_all add: accept_simps idempotency_keys_columns_def check_idempotency_key_def conj_ac)

lemma accepts_event:
  assumes "varchar 64 (evt_id r)" "varchar 32 (evt_aggregate_type r)" "varchar 64 (evt_aggregate_id r)" "varchar 64 (evt_event_type r)"
  shows "accepts head_schema (stored d) ''outbox_events'' (event_values r) \<longleftrightarrow> check_outbox_event d r = None"
  using assms
  by (cases "evt_status r"; cases "evt_published_at r")
    (simp_all add: accept_simps outbox_events_columns_def check_outbox_event_def conj_ac)

text \<open>
  C36. The checks of the model are the schema of the migrations. On any contents whose ids fit, the
  schema at the head of the migrations (its column types, NOT NULL, CHECK, UNIQUE and FOREIGN KEY
  constraints and unique indexes) accepts a new row of a table exactly when the row check of the
  model passes.
\<close>

theorem schema_accepts_what_the_checks_accept:
  assumes "ids_fit d"
  shows "(\<forall>u. accepts head_schema (stored d) ''users'' (user_values u) \<longleftrightarrow> check_user d u = None) \<and>
    (\<forall>p. accepts head_schema (stored d) ''products'' (product_values p) \<longleftrightarrow> check_product d p = None) \<and>
    (\<forall>w. accepts head_schema (stored d) ''warehouses'' (warehouse_values w) \<longleftrightarrow> check_warehouse d w = None) \<and>
    (\<forall>r. accepts head_schema (stored d) ''inventory'' (inventory_values r) \<longleftrightarrow> check_inventory d r = None) \<and>
    (\<forall>r. varchar 64 (ord_id r) \<longrightarrow>
       (accepts head_schema (stored d) ''orders'' (order_values r) \<longleftrightarrow> check_order d r = None)) \<and>
    (\<forall>r. varchar 64 (item_id r) \<longrightarrow>
       (accepts head_schema (stored d) ''order_items'' (order_item_values r) \<longleftrightarrow> check_order_item d r = None)) \<and>
    (\<forall>r. varchar 64 (resv_id r) \<longrightarrow>
       (accepts head_schema (stored d) ''inventory_reservations'' (reservation_values r) \<longleftrightarrow> check_reservation d r = None)) \<and>
    (\<forall>r. varchar 64 (audit_id r) \<longrightarrow>
       (accepts head_schema (stored d) ''inventory_audit_logs'' (audit_values r) \<longleftrightarrow> check_audit_log d r = None)) \<and>
    (\<forall>r. varchar 64 (dlq_id r) \<longrightarrow>
       (accepts head_schema (stored d) ''dead_letter_orders'' (dead_letter_values r) \<longleftrightarrow> check_dead_letter d r = None)) \<and>
    (\<forall>r. varchar 64 (lsa_id r) \<longrightarrow>
       (accepts head_schema (stored d) ''low_stock_alerts'' (alert_values r) \<longleftrightarrow> check_low_stock_alert d r = None)) \<and>
    (\<forall>r. (\<forall>i. idem_order_id r = Some i \<longrightarrow> varchar 64 i) \<longrightarrow>
       (accepts head_schema (stored d) ''idempotency_keys'' (key_values r) \<longleftrightarrow> check_idempotency_key d r = None)) \<and>
    (\<forall>r. varchar 64 (evt_id r) \<and> varchar 32 (evt_aggregate_type r) \<and>
       varchar 64 (evt_aggregate_id r) \<and> varchar 64 (evt_event_type r) \<longrightarrow>
       (accepts head_schema (stored d) ''outbox_events'' (event_values r) \<longleftrightarrow> check_outbox_event d r = None))"
  by (simp add: accepts_user accepts_product accepts_warehouse accepts_inventory [OF assms] accepts_order [OF assms]
    accepts_order_item [OF assms] accepts_reservation [OF assms] accepts_audit_log [OF assms]
    accepts_dead_letter [OF assms] accepts_alert [OF assms] accepts_key accepts_event)

theorem schema_accepts_what_the_checks_accept_witness:
  "accepts head_schema (stored empty_db) ''warehouses''
     (warehouse_values \<lparr>wh_id = ''w'', wh_name = ''n'', wh_location = ''l'', wh_created_at = 0\<rparr>) \<and>
   \<not> accepts head_schema (stored empty_db) ''dead_letter_orders''
     (dead_letter_values \<lparr>dlq_id = ''d'', dlq_order_id = ''o'', dlq_reason = ''r'', dlq_attempts = 3, dlq_created_at = 0\<rparr>)"
proof -
  have "ids_fit empty_db" by (simp add: ids_fit_def empty_db_def)
  from schema_accepts_what_the_checks_accept [OF this] show ?thesis
    by (simp add: check_warehouse_def check_dead_letter_def has_order_def empty_db_def varchar_def int4_def)
qed

end
