(* ===== verification/Locking.thy ===== *)
theory Locking
  imports Prelude
begin

text \<open>
  Concurrent transactions on the rows of one table, as PostgreSQL documents its READ COMMITTED
  level. A guarded UPDATE of one row sees the last committed version of the row and the
  transaction's own writes; a row it changes stays locked until the transaction ends, and another
  transaction's UPDATE of the row waits until then and evaluates its guard again. An UPDATE whose
  guard fails changes no row. \<open>rc_step\<close> lets any number of transactions run interleaved, statement by
  statement; the meaning \<open>sem\<close> of a statement is a parameter: an error, no row, or the new row.
\<close>

text \<open>A statement's key, the statement, and whether it changed a row.\<close>

type_synonym ('k, 's) entry = "'k \<times> 's \<times> bool"

type_synonym ('s, 'r, 'e) row_sem = "'s \<Rightarrow> 'r \<Rightarrow> 'e + 'r option"

fun run_entry :: "('s, 'r, 'e) row_sem \<Rightarrow> ('k, 's) entry \<Rightarrow> ('k \<rightharpoonup> 'r) \<Rightarrow> ('k \<rightharpoonup> 'r) option" where
  "run_entry sem (k, st, ok) m =
     (case map_option (sem st) (m k) of
        Some (Inl _) \<Rightarrow> None
      | Some (Inr (Some r)) \<Rightarrow> if ok then Some (m(k \<mapsto> r)) else None
      | _ \<Rightarrow> if ok then None else Some m)"

primrec run_entries :: "('s, 'r, 'e) row_sem \<Rightarrow> ('k, 's) entry list \<Rightarrow> ('k \<rightharpoonup> 'r) \<Rightarrow> ('k \<rightharpoonup> 'r) option" where
  "run_entries sem [] m = Some m"
| "run_entries sem (e # es) m = Option.bind (run_entry sem e m) (run_entries sem es)"

text \<open>A statement in its transaction: how many transactions were committed when it ran, and the entry.\<close>

type_synonym ('k, 's) stamped = "nat \<times> ('k, 's) entry"

definition locks :: "('k, 's) stamped list \<Rightarrow> 'k set" where
  "locks es = fst ` snd ` set (filter (\<lambda>(n, k, st, ok). ok) es)"

text \<open>
  The statements of a transaction on rows it holds: those that change a row, and those that miss a row
  it has changed before. A miss of any other row holds nothing.
\<close>

fun pin :: "('k, 's) stamped \<Rightarrow> ('k, 's) entry list \<Rightarrow> ('k, 's) entry list" where
  "pin (n, k, st, ok) acc = (if ok \<or> k \<in> fst ` set acc then acc @ [(k, st, ok)] else acc)"

definition pinned :: "('k, 's) stamped list \<Rightarrow> ('k, 's) entry list" where
  "pinned es = fold pin es []"

record ('k, 'r, 's) row_server =
  rows :: "'k \<rightharpoonup> 'r"                                  \<comment> \<open>the committed rows\<close>
  open_txns :: "nat \<rightharpoonup> ('k, 's) stamped list"        \<comment> \<open>every statement of each open transaction\<close>
  txn_log :: "('k, 's) stamped list list"              \<comment> \<open>every statement of each committed one, in order of commit\<close>

definition row_server :: "('k \<rightharpoonup> 'r) \<Rightarrow> ('k, 'r, 's) row_server" where
  "row_server m = \<lparr>rows = m, open_txns = Map.empty, txn_log = []\<rparr>"

text \<open>All the committed statements, and those that held their rows.\<close>

definition commit_log :: "('k, 'r, 's) row_server \<Rightarrow> ('k, 's) entry list" where
  "commit_log w = map snd (concat (txn_log w))"

definition pinned_log :: "('k, 'r, 's) row_server \<Rightarrow> ('k, 's) entry list" where
  "pinned_log w = concat (map pinned (txn_log w))"

text \<open>No other transaction holds the row.\<close>

definition unlocked :: "('k, 'r, 's) row_server \<Rightarrow> nat \<Rightarrow> 'k \<Rightarrow> bool" where
  "unlocked w i k \<longleftrightarrow> (\<forall>j es. j \<noteq> i \<and> open_txns w j = Some es \<longrightarrow> k \<notin> locks es)"

text \<open>
  A statement sees the committed rows and its transaction's own changes. \<open>misses\<close> records the
  statement like any other, but takes no lock and waits for none.
\<close>

abbreviation ran_at :: "('k, 'r, 's) row_server \<Rightarrow> ('k, 's) entry \<Rightarrow> ('k, 's) stamped" where
  "ran_at w e \<equiv> (length (txn_log w), e)"

inductive rc_step :: "('s, 'r, 'e) row_sem \<Rightarrow> ('k, 'r, 's) row_server \<Rightarrow> ('k, 'r, 's) row_server \<Rightarrow> bool"
  for sem :: "('s, 'r, 'e) row_sem" where
  begins: "open_txns w i = None \<Longrightarrow> rc_step sem w (w\<lparr>open_txns := (open_txns w)(i \<mapsto> [])\<rparr>)"
| changes: "open_txns w i = Some es \<Longrightarrow> run_entries sem (pinned es) (rows w) = Some view \<Longrightarrow> unlocked w i k \<Longrightarrow>
    run_entry sem (k, st, True) view = Some view' \<Longrightarrow>
    rc_step sem w (w\<lparr>open_txns := (open_txns w)(i \<mapsto> es @ [ran_at w (k, st, True)])\<rparr>)"
| misses: "open_txns w i = Some es \<Longrightarrow> run_entries sem (pinned es) (rows w) = Some view \<Longrightarrow>
    run_entry sem (k, st, False) view = Some view \<Longrightarrow>
    rc_step sem w (w\<lparr>open_txns := (open_txns w)(i \<mapsto> es @ [ran_at w (k, st, False)])\<rparr>)"
| commits: "open_txns w i = Some es \<Longrightarrow> run_entries sem (pinned es) (rows w) = Some view \<Longrightarrow>
    rc_step sem w \<lparr>rows = view, open_txns = (open_txns w)(i := None), txn_log = txn_log w @ [es]\<rparr>"
| rolls_back: "open_txns w i = Some es \<Longrightarrow>
    rc_step sem w (w\<lparr>open_txns := (open_txns w)(i := None)\<rparr>)"

inductive_cases rc_stepE: "rc_step sem w w'"

subsection \<open>Entries touch only their keys\<close>

lemma locks_simps [simp]:
  "locks [] = {}" "locks ((n, k, st, ok) # es) = (if ok then insert k (locks es) else locks es)"
  "locks (es @ es') = locks es \<union> locks es'"
  by (auto simp: locks_def)

lemma pinned_simps [simp]: "pinned [] = []" "pinned (es @ [x]) = pin x (pinned es)"
  by (simp_all add: pinned_def)

lemma pinned_locks: "fst ` set (pinned es) = locks es"
proof (induction es rule: rev_induct)
  case (snoc x xs)
  obtain n k st ok where "x = (n, k, st, ok)" by (cases x)
  with snoc show ?case by (auto simp: image_Un insert_absorb)
qed simp

abbreviation made :: "('k, 's) entry list \<Rightarrow> ('k, 's) entry list" where
  "made es \<equiv> filter (\<lambda>(k, st, ok). ok) es"

lemma pinned_made: "made (pinned es) = made (map snd es)"
proof (induction es rule: rev_induct)
  case (snoc x xs)
  obtain n k st ok where "x = (n, k, st, ok)" by (cases x)
  with snoc show ?case by (cases ok) simp_all
qed simp

lemma pinned_log_made: "made (pinned_log w) = made (commit_log w)"
proof -
  have "made (concat (map pinned es)) = made (map snd (concat es))" for es :: "('k, 's) stamped list list"
    by (induction es) (simp_all add: pinned_made)
  then show ?thesis by (simp add: pinned_log_def commit_log_def)
qed

text \<open>A transaction whose every statement changed a row.\<close>

lemma pinned_all: "\<forall>(n, k, st, ok)\<in>set es. ok \<Longrightarrow> pinned es = map snd es"
  by (induction es rule: rev_induct) auto

lemma run_entries_append:
  "run_entries sem (es @ es') m = Option.bind (run_entries sem es m) (run_entries sem es')"
  by (induction es arbitrary: m) (auto split: bind_splits)

lemma run_entry_iff:
  "run_entry sem (k, st, ok) m = Some m' \<longleftrightarrow>
     (if ok then \<exists>r r'. m k = Some r \<and> sem st r = Inr (Some r') \<and> m' = m(k \<mapsto> r')
      else m' = m \<and> (\<forall>r. m k = Some r \<longrightarrow> sem st r = Inr None))"
  by (auto split: option.splits sum.splits)

declare run_entry.simps [simp del]

lemma run_entry_elsewhere:
  assumes "run_entry sem (k, st, ok) m = Some m'" and "n k = m k"
  shows "run_entry sem (k, st, ok) n = Some (\<lambda>x. if x = k then m' x else n x)"
  using assms unfolding run_entry_iff by (cases ok) (auto simp: fun_eq_iff)

lemma run_entry_other: "run_entry sem (k, st, ok) m = Some m' \<Longrightarrow> x \<noteq> k \<Longrightarrow> m' x = m x"
  unfolding run_entry_iff by (cases ok) auto

lemma run_entries_other: "run_entries sem es m = Some m' \<Longrightarrow> x \<notin> fst ` set es \<Longrightarrow> m' x = m x"
proof (induction es arbitrary: m)
  case (Cons e es)
  obtain k st ok where e: "e = (k, st, ok)" by (cases e)
  with Cons.prems obtain m1 where "run_entry sem (k, st, ok) m = Some m1" "run_entries sem es m1 = Some m'"
    by (auto simp: bind_eq_Some_conv)
  with Cons.IH Cons.prems(2) run_entry_other [of sem k st ok m m1 x] e show ?case by auto
qed simp

lemma run_entries_elsewhere:
  assumes "run_entries sem es m = Some m'" and "\<forall>k\<in>fst ` set es. n k = m k"
  shows "run_entries sem es n = Some (\<lambda>x. if x \<in> fst ` set es then m' x else n x)"
  using assms
proof (induction es arbitrary: m n)
  case (Cons e es)
  obtain k st ok where e: "e = (k, st, ok)" by (cases e)
  with Cons.prems(1) obtain m1 where m1: "run_entry sem (k, st, ok) m = Some m1" "run_entries sem es m1 = Some m'"
    by (auto simp: bind_eq_Some_conv)
  let ?n1 = "\<lambda>x. if x = k then m1 x else n x"
  have n1: "run_entry sem (k, st, ok) n = Some ?n1"
    using run_entry_elsewhere [OF m1(1)] Cons.prems(2) e by simp
  have "\<forall>x\<in>fst ` set es. ?n1 x = m1 x"
    using Cons.prems(2) run_entry_other [OF m1(1)] e by auto
  from Cons.IH [OF m1(2) this]
  have "run_entries sem es ?n1 = Some (\<lambda>x. if x \<in> fst ` set es then m' x else ?n1 x)" .
  moreover have "m' k = m1 k" if "k \<notin> fst ` set es" using run_entries_other [OF m1(2) that] .
  ultimately show ?case using n1 e by (auto simp: fun_eq_iff)
qed simp

lemma run_entries_made: "run_entries sem es m = Some m' \<Longrightarrow> run_entries sem (made es) m = Some m'"
proof (induction es arbitrary: m)
  case (Cons e es)
  obtain k st ok where e: "e = (k, st, ok)" by (cases e)
  with Cons.prems obtain m1 where "run_entry sem (k, st, ok) m = Some m1" "run_entries sem es m1 = Some m'"
    by (auto simp: bind_eq_Some_conv)
  with Cons.IH e show ?case by (cases ok) (simp_all add: run_entry_iff [of sem k st False])
qed simp

subsection \<open>Every run is serial in the order of commit\<close>

text \<open>
  The statement of entry \<open>e\<close> is answered as \<open>e\<close> says after the first \<open>n\<close> committed transactions and the
  statements \<open>own\<close> of its own transaction.
\<close>

definition answers :: "('s, 'r, 'e) row_sem \<Rightarrow> ('k \<rightharpoonup> 'r) \<Rightarrow> ('k, 's) stamped list list \<Rightarrow>
    ('k, 's) stamped list \<Rightarrow> ('k, 's) stamped \<Rightarrow> bool" where
  "answers sem m log own x \<longleftrightarrow> fst x \<le> length log \<and>
     run_entries sem (concat (map pinned (take (fst x) log)) @ pinned own @ [snd x]) m \<noteq> None"

definition all_answered :: "('s, 'r, 'e) row_sem \<Rightarrow> ('k \<rightharpoonup> 'r) \<Rightarrow> ('k, 's) stamped list list \<Rightarrow>
    ('k, 's) stamped list \<Rightarrow> bool" where
  "all_answered sem m log es \<longleftrightarrow> (\<forall>j<length es. answers sem m log (take j es) (es ! j))"

lemma all_answered_later: "all_answered sem m log es \<Longrightarrow> all_answered sem m (log @ log') es"
  by (auto simp: all_answered_def answers_def)

lemma all_answered_snoc:
  "all_answered sem m log (es @ [x]) \<longleftrightarrow> all_answered sem m log es \<and> answers sem m log es x"
  by (auto simp: all_answered_def nth_append less_Suc_eq)

definition serial :: "('s, 'r, 'e) row_sem \<Rightarrow> ('k \<rightharpoonup> 'r) \<Rightarrow> ('k, 'r, 's) row_server \<Rightarrow> bool" where
  "serial sem m w \<longleftrightarrow> run_entries sem (pinned_log w) m = Some (rows w) \<and>
     (\<forall>i<length (txn_log w). all_answered sem m (take i (txn_log w)) (txn_log w ! i)) \<and>
     (\<forall>i es. open_txns w i = Some es \<longrightarrow> run_entries sem (pinned es) (rows w) \<noteq> None \<and>
        all_answered sem m (txn_log w) es \<and>
        (\<forall>j es'. j \<noteq> i \<and> open_txns w j = Some es' \<longrightarrow> locks es \<inter> locks es' = {}))"

lemma serialD:
  assumes "serial sem m w"
  shows "run_entries sem (pinned_log w) m = Some (rows w)"
    and "i < length (txn_log w) \<Longrightarrow> all_answered sem m (take i (txn_log w)) (txn_log w ! i)"
    and "open_txns w i = Some es \<Longrightarrow> \<exists>view. run_entries sem (pinned es) (rows w) = Some view"
    and "open_txns w i = Some es \<Longrightarrow> open_txns w j = Some es' \<Longrightarrow> j \<noteq> i \<Longrightarrow> locks es \<inter> locks es' = {}"
    and "open_txns w i = Some es \<Longrightarrow> all_answered sem m (txn_log w) es"
  using assms unfolding serial_def by (blast, blast, auto)

lemma serial_apart:
  "serial sem m w \<Longrightarrow> open_txns w i = Some es \<Longrightarrow> open_txns w j = Some es' \<Longrightarrow> j \<noteq> i \<Longrightarrow>
    x \<in> locks es' \<Longrightarrow> x \<notin> locks es"
  using serialD(4) [of sem m w i es j es'] by blast

lemma serial_start: "serial sem m (row_server m)"
  by (simp add: serial_def row_server_def pinned_log_def)

text \<open>A statement that runs is answered from what is committed.\<close>

lemma serial_answers:
  assumes "serial sem m w" and "run_entries sem (pinned es) (rows w) = Some view" and "run_entry sem e view = Some view'"
  shows "answers sem m (txn_log w) es (ran_at w e)"
  using serialD(1) [OF assms(1)] assms(2,3)
  by (simp add: answers_def run_entries_append flip: pinned_log_def)

text \<open>A transaction that ran a statement keeps its place.\<close>

lemma serial_ran:
  assumes ok: "serial sem m w" and txn: "open_txns w i = Some es"
    and view: "run_entries sem (pinned es) (rows w) = Some view" and entry: "run_entry sem (k, st, b) view = Some view'"
    and free: "b \<Longrightarrow> unlocked w i k"
  shows "serial sem m (w\<lparr>open_txns := (open_txns w)(i \<mapsto> es @ [ran_at w (k, st, b)])\<rparr>)"
proof -
  have "run_entries sem (pinned (es @ [ran_at w (k, st, b)])) (rows w) \<noteq> None"
    using view entry by (simp add: run_entries_append)
  moreover have "all_answered sem m (txn_log w) (es @ [ran_at w (k, st, b)])"
    unfolding all_answered_snoc using serialD(5) [OF ok txn] serial_answers [OF ok view entry] by blast
  moreover note apart = serial_apart [OF ok txn]
  ultimately show ?thesis using ok txn free by (auto simp: serial_def unlocked_def pinned_log_def)
qed

text \<open>A transaction keeps its view when another one ends.\<close>

lemma serial_commit:
  assumes ok: "serial sem m w" and txn: "open_txns w i = Some es"
    and view: "run_entries sem (pinned es) (rows w) = Some view"
  shows "serial sem m \<lparr>rows = view, open_txns = (open_txns w)(i := None), txn_log = txn_log w @ [es]\<rparr>"
    (is "serial sem m ?w'")
proof -
  have log: "run_entries sem (pinned_log ?w') m = Some (rows ?w')"
    using serialD(1) [OF ok] view by (simp add: run_entries_append pinned_log_def)
  have "run_entries sem (pinned es') view \<noteq> None" if j: "j \<noteq> i" "open_txns w j = Some es'" for j es'
  proof -
    obtain v where v: "run_entries sem (pinned es') (rows w) = Some v" using serialD(3) [OF ok j(2)] ..
    have "k \<notin> fst ` set (pinned es)" if "k \<in> fst ` set (pinned es')" for k
      using serialD(4) [OF ok txn j(2,1)] that by (auto simp: pinned_locks)
    then have "\<forall>k\<in>fst ` set (pinned es'). view k = rows w k" using run_entries_other [OF view] by blast
    from run_entries_elsewhere [OF v this] show ?thesis by simp
  qed
  moreover have "all_answered sem m (take j (txn_log w @ [es])) ((txn_log w @ [es]) ! j)"
    if "j < Suc (length (txn_log w))" for j
    using that serialD(2) [OF ok] serialD(5) [OF ok txn] by (auto simp: nth_append less_Suc_eq)
  ultimately show ?thesis using log ok
    by (auto simp: serial_def intro: all_answered_later split: if_splits)
qed

lemma serial_step:
  assumes ok: "serial sem m w" and step: "rc_step sem w w'"
  shows "serial sem m w'"
  using step
proof cases
  case (begins i)
  with ok show ?thesis by (auto simp: serial_def all_answered_def pinned_log_def)
next
  case (changes i es view k st view')
  then show ?thesis using serial_ran [OF ok changes(2,3,5)] by simp
next
  case (misses i es view k st)
  then show ?thesis using serial_ran [OF ok misses(2,3,4)] by simp
next
  case (commits i es view)
  then show ?thesis using serial_commit [OF ok commits(2,3)] by simp
next
  case (rolls_back i es)
  with ok show ?thesis by (auto simp: serial_def pinned_log_def split: if_splits)
qed

interpretation row_locking: transition_system "rc_step sem" "serial sem m"
  "\<lambda>w w'. \<exists>l. txn_log w' = txn_log w @ l"
proof
  fix w w' assume "rc_step sem w w'"
  then show "\<exists>l. txn_log w' = txn_log w @ l" by cases auto
qed (auto intro: serial_step)

lemma reachable_serial:
  "steps_to (rc_step sem) (row_server m) w \<Longrightarrow> serial sem m w"
  using row_locking.run_inv [OF _ serial_start] .

lemma reachable_made:
  "steps_to (rc_step sem) (row_server m) w \<Longrightarrow> run_entries sem (made (commit_log w)) m = Some (rows w)"
  using run_entries_made [OF serialD(1) [OF reachable_serial]] by (simp add: pinned_log_made)

subsection \<open>Building runs\<close>

text \<open>The rules on states written out.\<close>

lemma rc_rules:
  "T i = None \<Longrightarrow> rc_step sem \<lparr>rows = m, open_txns = T, txn_log = l\<rparr> \<lparr>rows = m, open_txns = T(i \<mapsto> []), txn_log = l\<rparr>"
  "T i = Some es \<Longrightarrow> run_entries sem (pinned es @ [(k, st, b)]) m \<noteq> None \<Longrightarrow>
    (\<forall>j es'. b \<and> j \<noteq> i \<and> T j = Some es' \<longrightarrow> k \<notin> locks es') \<Longrightarrow>
    rc_step sem \<lparr>rows = m, open_txns = T, txn_log = l\<rparr>
      \<lparr>rows = m, open_txns = T(i \<mapsto> es @ [(length l, k, st, b)]), txn_log = l\<rparr>"
  "T i = Some es \<Longrightarrow> run_entries sem (pinned es) m = Some m' \<Longrightarrow>
    rc_step sem \<lparr>rows = m, open_txns = T, txn_log = l\<rparr> \<lparr>rows = m', open_txns = T(i := None), txn_log = l @ [es]\<rparr>"
  "T i = Some es \<Longrightarrow>
    rc_step sem \<lparr>rows = m, open_txns = T, txn_log = l\<rparr> \<lparr>rows = m, open_txns = T(i := None), txn_log = l\<rparr>"
proof -
  let ?w = "\<lparr>rows = m, open_txns = T, txn_log = l\<rparr>"
  show "T i = None \<Longrightarrow> rc_step sem ?w \<lparr>rows = m, open_txns = T(i \<mapsto> []), txn_log = l\<rparr>"
    using rc_step.begins [of ?w i sem] by simp
  show "rc_step sem ?w \<lparr>rows = m, open_txns = T(i \<mapsto> es @ [(length l, k, st, b)]), txn_log = l\<rparr>"
    if "T i = Some es" "run_entries sem (pinned es @ [(k, st, b)]) m \<noteq> None"
      "\<forall>j es'. b \<and> j \<noteq> i \<and> T j = Some es' \<longrightarrow> k \<notin> locks es'"
  proof -
    from that(2) obtain v v' where v: "run_entries sem (pinned es) m = Some v" "run_entry sem (k, st, b) v = Some v'"
      by (auto simp: run_entries_append bind_eq_Some_conv)
    show ?thesis
    proof (cases b)
      case True
      with v that(1,3) rc_step.changes [of ?w i es sem v k st v'] show ?thesis by (simp add: unlocked_def)
    next
      case False
      with v(2) have "v' = v" by (simp add: run_entry_iff)
      with v False that(1) rc_step.misses [of ?w i es sem v k st] show ?thesis by simp
    qed
  qed
  show "T i = Some es \<Longrightarrow> run_entries sem (pinned es) m = Some m' \<Longrightarrow>
      rc_step sem ?w \<lparr>rows = m', open_txns = T(i := None), txn_log = l @ [es]\<rparr>"
    using rc_step.commits [of ?w i es sem m'] by simp
  show "T i = Some es \<Longrightarrow> rc_step sem ?w \<lparr>rows = m, open_txns = T(i := None), txn_log = l\<rparr>"
    using rc_step.rolls_back [of ?w i es sem] by simp
qed

text \<open>A transaction that runs alone.\<close>

abbreviation at_start :: "('k, 's) entry list \<Rightarrow> ('k, 's) stamped list" where
  "at_start es \<equiv> map (Pair 0) es"

lemma pinned_at_start: "\<forall>(k, st, ok)\<in>set es. ok \<Longrightarrow> pinned (at_start es) = es"
  using pinned_all [of "at_start es"] by (auto simp: comp_def)

lemma alone:
  assumes "run_entries sem es m = Some m'" and "\<forall>(k, st, ok)\<in>set es. ok"
  shows "steps_to (rc_step sem) (row_server m) \<lparr>rows = m', open_txns = Map.empty, txn_log = [at_start es]\<rparr>"
proof -
  have "steps_to (rc_step sem) (row_server m) \<lparr>rows = m, open_txns = [0 \<mapsto> at_start es], txn_log = []\<rparr>"
    using assms
  proof (induction es arbitrary: m' rule: rev_induct)
    case Nil
    show ?case unfolding row_server_def list.map
      by (rule steps_to.after [OF steps_to.here]) (rule rc_rules(1), simp)
  next
    case (snoc e es)
    obtain k st where e: "e = (k, st, True)" using snoc.prems(2) by (cases e) auto
    from snoc.prems(1) obtain v where v: "run_entries sem es m = Some v"
      by (auto simp: run_entries_append bind_eq_Some_conv)
    have "steps_to (rc_step sem) (row_server m) \<lparr>rows = m, open_txns = [0 \<mapsto> at_start es], txn_log = []\<rparr>"
      by (rule snoc.IH [OF v]) (use snoc.prems(2) in simp)
    moreover have "rc_step sem \<lparr>rows = m, open_txns = [0 \<mapsto> at_start es], txn_log = []\<rparr>
        \<lparr>rows = m, open_txns = ([0 \<mapsto> at_start es])(0 \<mapsto> at_start es @ [(0, k, st, True)]), txn_log = []\<rparr>"
      using rc_rules(2) [of "[0 \<mapsto> at_start es]" 0 "at_start es" sem k st True m "[]"] snoc.prems e pinned_at_start [of es]
      by simp
    ultimately show ?case unfolding e map_append list.map fun_upd_upd by (rule steps_to.after)
  qed
  moreover have "rc_step sem \<lparr>rows = m, open_txns = [0 \<mapsto> at_start es], txn_log = []\<rparr>
      \<lparr>rows = m', open_txns = ([0 \<mapsto> at_start es])(0 := None), txn_log = [] @ [at_start es]\<rparr>"
    by (rule rc_rules(3)) (use assms pinned_at_start [of es] in simp_all)
  then have "rc_step sem \<lparr>rows = m, open_txns = [0 \<mapsto> at_start es], txn_log = []\<rparr>
      \<lparr>rows = m', open_txns = Map.empty, txn_log = [at_start es]\<rparr>" by simp
  ultimately show ?thesis by (rule steps_to.after)
qed

subsection \<open>Waiting\<close>

text \<open>
  \<open>wants i\<close> is the row the next statement of transaction \<open>i\<close> changes. A deadlock is a set of
  transactions each of which waits for a row that another one of them holds.
\<close>

definition waits_for :: "('k, 'r, 's) row_server \<Rightarrow> (nat \<rightharpoonup> 'k) \<Rightarrow> nat \<Rightarrow> nat \<Rightarrow> bool" where
  "waits_for w wants i j \<longleftrightarrow> i \<noteq> j \<and> (\<exists>k es. wants i = Some k \<and> open_txns w j = Some es \<and> k \<in> locks es)"

definition deadlocked :: "('k, 'r, 's) row_server \<Rightarrow> (nat \<rightharpoonup> 'k) \<Rightarrow> nat set \<Rightarrow> bool" where
  "deadlocked w wants D \<longleftrightarrow> D \<noteq> {} \<and> finite D \<and> (\<forall>i\<in>D. \<exists>j\<in>D. waits_for w wants i j)"

text \<open>Transactions that lock their rows in one common order are never deadlocked.\<close>

lemma common_order_no_deadlock:
  fixes rank :: "'k \<Rightarrow> nat"
  assumes "\<And>i k es l. wants i = Some k \<Longrightarrow> open_txns w i = Some es \<Longrightarrow> l \<in> locks es \<Longrightarrow> rank l < rank k"
  shows "\<not> deadlocked w wants D"
proof
  assume dead: "deadlocked w wants D"
  let ?rank = "\<lambda>i. case wants i of None \<Rightarrow> 0 | Some k \<Rightarrow> rank k"
  from dead have "finite (?rank ` D)" "?rank ` D \<noteq> {}" by (auto simp: deadlocked_def)
  then obtain i where i: "i \<in> D" "\<forall>j\<in>D. ?rank j \<le> ?rank i"
    using Max_in [of "?rank ` D"] Max_ge [of "?rank ` D"] by fastforce
  from dead i(1) obtain j k es where j: "j \<in> D" "wants i = Some k" "open_txns w j = Some es" "k \<in> locks es"
    unfolding deadlocked_def waits_for_def by blast
  from dead j(1) obtain k' where k': "wants j = Some k'" unfolding deadlocked_def waits_for_def by blast
  from assms [OF k' j(3,4)] i(2) j(1,2) k' show False by fastforce
qed

end
