(* ===== verification/Interleaving.thy ===== *)
theory Interleaving
  imports Locking Inventory_Service
begin

text \<open>
  The statements of \<open>src/repositories/inventory_repository.py\<close> under concurrent transactions.
  \<open>stock_change\<close> is what one of its UPDATE statements does to a row that meets its WHERE clause,
  \<open>stock_op\<close> the repository function that issues it, and \<open>stock_sem\<close> the statement on a row, CHECK
  constraints included. Any interleaving of transactions over them commits what running the
  committed statements one after the other commits, with the same results.
\<close>

datatype stock_stmt = Reserve int | Release int | Consume int | Adjust int | SetThreshold int | FlipLow | ResetLow

fun stock_change :: "stock_stmt \<Rightarrow> inventory_row \<Rightarrow> inventory_row option" where
  "stock_change (Reserve q) r = (if q \<le> available_quantity r then
     Some (r\<lparr>available_quantity := available_quantity r - q, reserved_quantity := reserved_quantity r + q\<rparr>) else None)"
| "stock_change (Release q) r = (if q \<le> reserved_quantity r then
     Some (r\<lparr>available_quantity := available_quantity r + q, reserved_quantity := reserved_quantity r - q\<rparr>) else None)"
| "stock_change (Consume q) r = (if q \<le> reserved_quantity r then
     Some (r\<lparr>reserved_quantity := reserved_quantity r - q\<rparr>) else None)"
| "stock_change (Adjust q) r = (if 0 \<le> available_quantity r + q then
     Some (r\<lparr>available_quantity := available_quantity r + q\<rparr>) else None)"
| "stock_change (SetThreshold t) r =
     Some (r\<lparr>low_stock_threshold := Some t, is_low_stock := (available_quantity r \<le> t)\<rparr>)"
| "stock_change FlipLow r = (if \<not> is_low_stock r \<and> at_or_below_threshold r then
     Some (r\<lparr>is_low_stock := True\<rparr>) else None)"
| "stock_change ResetLow r = (if is_low_stock r \<and> above_threshold r then
     Some (r\<lparr>is_low_stock := False\<rparr>) else None)"

definition stock_sem :: "(stock_stmt \<times> time, inventory_row, exn) row_sem" where
  "stock_sem = (\<lambda>(st, n) r. case stock_change st r of
     None \<Rightarrow> Inr None
   | Some r' \<Rightarrow> (case check_inventory_row (r'\<lparr>inv_updated_at := n\<rparr>) of
       Some e \<Rightarrow> Inl e | None \<Rightarrow> Inr (Some (r'\<lparr>inv_updated_at := n\<rparr>))))"

text \<open>The functions of the repository.\<close>

fun stock_op :: "stock_stmt \<Rightarrow> ident \<times> ident \<Rightarrow> bool op" where
  "stock_op (Reserve q) (p, w) = try_reserve p w q"
| "stock_op (Release q) (p, w) = inventory_release p w q"
| "stock_op (Consume q) (p, w) = inventory_consume p w q"
| "stock_op (Adjust q) (p, w) = adjust_available p w q"
| "stock_op (SetThreshold t) (p, w) = inventory_set_threshold p w t"
| "stock_op FlipLow (p, w) = and_then (try_flip_low_stock p w) (\<lambda>flip. return (flip \<noteq> None))"
| "stock_op ResetLow (p, w) = try_reset_low_stock p w"

definition stock_rows :: "db \<Rightarrow> ident \<times> ident \<rightharpoonup> inventory_row" where
  "stock_rows d k = find (\<lambda>r. inv_key r = k) (inventory d)"

subsection \<open>A repository function is its statement\<close>

definition changed :: "stock_stmt \<Rightarrow> time \<Rightarrow> inventory_row \<Rightarrow> inventory_row" where
  "changed st n r = (the (stock_change st r))\<lparr>inv_updated_at := n\<rparr>"

definition matches :: "stock_stmt \<Rightarrow> ident \<times> ident \<Rightarrow> inventory_row \<Rightarrow> bool" where
  "matches st k r \<longleftrightarrow> inv_key r = k \<and> stock_change st r \<noteq> None"

lemma stock_change_key: "stock_change st r = Some r' \<Longrightarrow> inv_key r' = inv_key r"
  by (cases st) (auto split: if_splits)

lemma changed_key: "matches st k r \<Longrightarrow> inv_key (changed st n r) = k"
  by (auto simp: matches_def changed_def dest: stock_change_key)

lemma stock_op_exec:
  "stock_op st (p, w) = and_then (exec_update inventory (\<lambda>t d. d\<lparr>inventory := t\<rparr>) check_inventory_row
      (matches st (p, w)) (changed st))
    (\<lambda>rs. return (case st of
       FlipLow \<Rightarrow> (case rs of [] \<Rightarrow> False | r # _ \<Rightarrow> low_stock_threshold r \<noteq> None) | _ \<Rightarrow> length rs = 1))"
proof (cases st)
  case FlipLow
  have "exec_update inventory (\<lambda>t d. d\<lparr>inventory := t\<rparr>) check_inventory_row
      (\<lambda>r. inv_product_id r = p \<and> inv_warehouse_id r = w \<and> \<not> is_low_stock r \<and>
        low_stock_threshold r \<noteq> None \<and> at_or_below_threshold r) (\<lambda>n r. r\<lparr>is_low_stock := True, inv_updated_at := n\<rparr>)
    = exec_update inventory (\<lambda>t d. d\<lparr>inventory := t\<rparr>) check_inventory_row (matches FlipLow (p, w)) (changed FlipLow)"
    by (rule exec_update_cong) (auto simp: matches_def changed_def at_or_below_threshold_def split: option.splits)
  then show ?thesis unfolding FlipLow
    by (auto simp: fun_eq_iff and_then_def return_def try_flip_low_stock_def update_inventory_def
        split: sum.splits prod.splits list.splits)
qed (auto simp: inventory_statements matches_def changed_def
    intro!: arg_cong [where f = "\<lambda>m. and_then m _"] exec_update_cong split: if_splits)

lemma stock_rows_update:
  "find (\<lambda>r. inv_key r = k') (update_where (matches st k) (changed st n) t) =
     map_option (\<lambda>r. if matches st k r then changed st n r else r) (find (\<lambda>r. inv_key r = k') t)"
  unfolding update_where_def
proof (rule find_map_key)
  fix r show "inv_key (if matches st k r then changed st n r else r) = inv_key r"
    using changed_key [of st k r n] by (auto simp: matches_def)
qed

lemma rows_matched:
  assumes "unique_pairs d"
  shows "filter (matches st k) (inventory d) =
    (case stock_rows d k of None \<Rightarrow> [] | Some r \<Rightarrow> if stock_change st r = None then [] else [r])"
proof (cases "stock_rows d k")
  case None
  then have "filter (matches st k) (inventory d) = []"
    by (auto simp: stock_rows_def find_None_iff filter_empty_conv matches_def)
  with None show ?thesis by simp
next
  case (Some r)
  with find_key_Some [of inv_key k "inventory d" r] have r: "r \<in> set (inventory d)" "inv_key r = k"
    by (simp_all add: stock_rows_def)
  show ?thesis
  proof (cases "stock_change st r")
    case None
    have "\<not> matches st k x" if "x \<in> set (inventory d)" for x
      using unique_row [OF assms [unfolded unique_pairs_def] that r(1)] r(2) None by (auto simp: matches_def)
    then show ?thesis using Some None by (simp add: filter_empty_conv)
  next
    case (Some r')
    have "filter (matches st k) (inventory d) = [r]"
      by (rule filter_unique [where g = inv_key, OF assms [unfolded unique_pairs_def] r(1)])
        (use r Some in \<open>simp_all add: matches_def\<close>)
    with Some \<open>stock_rows d k = Some r\<close> show ?thesis by simp
  qed
qed

lemma flipped_threshold: "at_or_below_threshold r \<Longrightarrow> low_stock_threshold r \<noteq> None"
  by (auto simp: at_or_below_threshold_def split: option.splits)

lemma stock_sem_iff:
  "stock_sem (st, n) r = Inr None \<longleftrightarrow> stock_change st r = None"
  "stock_sem (st, n) r = Inr (Some r') \<longleftrightarrow>
     stock_change st r \<noteq> None \<and> r' = changed st n r \<and> check_inventory_row (changed st n r) = None"
  by (auto simp: stock_sem_def changed_def split: option.splits)

lemma stock_op_Inr:
  assumes u: "unique_pairs (working s)"
  shows "stock_op st k s = (Inr b, s') \<longleftrightarrow>
    s' = s\<lparr>working := (working s)\<lparr>inventory :=
      update_where (matches st k) (changed st (clock s)) (inventory (working s))\<rparr>\<rparr> \<and>
    (case stock_rows (working s) k of None \<Rightarrow> \<not> b
     | Some r \<Rightarrow> b = (stock_change st r \<noteq> None) \<and> (b \<longrightarrow> check_inventory_row (changed st (clock s) r) = None))"
proof -
  obtain p w where k: "k = (p, w)" by (cases k)
  have checks: "(\<forall>r\<in>set (inventory (working s)). matches st k r \<longrightarrow> Q r) \<longleftrightarrow>
      (\<forall>r\<in>set (filter (matches st k) (inventory (working s))). Q r)" for Q by auto
  show ?thesis
    unfolding k stock_op_exec and_then_Inr exec_update_Inr checks [unfolded k] rows_matched [OF u]
    by (cases st) (auto simp: changed_def dest: flipped_threshold split: option.splits)
qed

lemma stock_op_entry:
  assumes run: "stock_op st k s = (Inr b, s')" and u: "unique_pairs (working s)"
  shows "run_entry stock_sem (k, (st, clock s), b) (stock_rows (working s)) = Some (stock_rows (working s'))"
    and "unique_pairs (working s')" and "clock s' = clock s"
proof -
  note eff = run [unfolded stock_op_Inr [OF u]]
  from eff have s': "inventory (working s') = update_where (matches st k) (changed st (clock s)) (inventory (working s))"
    and "clock s' = clock s" by simp_all
  then show "clock s' = clock s" by simp
  have "map inv_key (inventory (working s')) = map inv_key (inventory (working s))"
    unfolding s' update_where_def using changed_key [of st k _ "clock s"] by (auto simp: matches_def)
  with u show "unique_pairs (working s')" by (simp add: unique_pairs_def)
  have rows: "stock_rows (working s') x = map_option (\<lambda>r. if matches st k r then changed st (clock s) r else r)
      (stock_rows (working s) x)" for x
    by (simp only: stock_rows_def s' stock_rows_update)
  have key: "inv_key r = x" if "stock_rows (working s) x = Some r" for x r
    using that find_key_Some [of inv_key x "inventory (working s)" r] by (simp add: stock_rows_def)
  have other: "stock_rows (working s') x = stock_rows (working s) x" if "x \<noteq> k \<or> \<not> b" for x
    using that eff rows [of x] key [of x] by (cases "stock_rows (working s) x") (auto simp: matches_def)
  show "run_entry stock_sem (k, (st, clock s), b) (stock_rows (working s)) = Some (stock_rows (working s'))"
  proof (cases b)
    case True
    with eff obtain r where r: "stock_rows (working s) k = Some r" "stock_change st r \<noteq> None"
      "check_inventory_row (changed st (clock s) r) = None" by (auto split: option.splits)
    then have "stock_sem (st, clock s) r = Inr (Some (changed st (clock s) r))" by (simp add: stock_sem_iff)
    moreover have "stock_rows (working s') k = Some (changed st (clock s) r)"
      using rows [of k] r key [OF r(1)] by (simp add: matches_def)
    moreover have "stock_rows (working s') = (stock_rows (working s))(k \<mapsto> changed st (clock s) r)"
      using other calculation(2) by (auto simp: fun_eq_iff)
    ultimately show ?thesis using True r(1) by (simp add: run_entry_iff)
  next
    case False
    then have "stock_rows (working s') = stock_rows (working s)" using other by (simp add: fun_eq_iff)
    with False eff show ?thesis unfolding run_entry_iff by (auto simp: stock_sem_iff split: option.splits)
  qed
qed

lemma stock_op_runs:
  assumes "run_entry stock_sem (k, (st, clock s), b) (stock_rows (working s)) = Some m" and "unique_pairs (working s)"
  shows "\<exists>s'. stock_op st k s = (Inr b, s') \<and> stock_rows (working s') = m"
proof -
  have "case stock_rows (working s) k of None \<Rightarrow> \<not> b
     | Some r \<Rightarrow> b = (stock_change st r \<noteq> None) \<and> (b \<longrightarrow> check_inventory_row (changed st (clock s) r) = None)"
    using assms(1) unfolding run_entry_iff
    by (cases b) (auto simp: stock_sem_iff split: option.splits)
  then obtain s' where "stock_op st k s = (Inr b, s')" using stock_op_Inr [OF assms(2)] by blast
  with stock_op_entry(1) [OF this assms(2)] assms(1) show ?thesis by auto
qed

subsection \<open>Running a log of statements\<close>

text \<open>Each statement at its own time.\<close>

primrec run_stock :: "((ident \<times> ident) \<times> stock_stmt \<times> time) list \<Rightarrow> bool list op" where
  "run_stock [] = return []"
| "run_stock (e # es) = (case e of (k, st, n) \<Rightarrow>
     and_then (\<lambda>s. stock_op st k (s\<lparr>clock := n\<rparr>)) (\<lambda>b. and_then (run_stock es) (\<lambda>bs. return (b # bs))))"

type_synonym stock_entry = "(ident \<times> ident, stock_stmt \<times> time) entry"

abbreviation statements :: "stock_entry list \<Rightarrow> ((ident \<times> ident) \<times> stock_stmt \<times> time) list" where
  "statements es \<equiv> map (\<lambda>(k, st, ok). (k, st)) es"

abbreviation results :: "stock_entry list \<Rightarrow> bool list" where
  "results es \<equiv> map (\<lambda>(k, st, ok). ok) es"

lemma run_stock_entries:
  "run_entries stock_sem es (stock_rows (working s)) = Some m \<Longrightarrow> unique_pairs (working s) \<Longrightarrow>
    \<exists>s'. run_stock (statements es) s = (Inr (results es), s') \<and> stock_rows (working s') = m"
proof (induction es arbitrary: s)
  case (Cons e es)
  obtain k st n ok where e: "e = (k, (st, n), ok)" by (metis prod.collapse)
  let ?s = "s\<lparr>clock := n\<rparr>"
  from Cons.prems(1) e obtain m1 where m1: "run_entry stock_sem (k, (st, clock ?s), ok) (stock_rows (working ?s)) = Some m1"
    "run_entries stock_sem es m1 = Some m" by (auto simp: bind_eq_Some_conv)
  from stock_op_runs [OF m1(1)] Cons.prems(2) obtain t where t: "stock_op st k ?s = (Inr ok, t)"
    "stock_rows (working t) = m1" by auto
  have "unique_pairs (working t)" using stock_op_entry(2) [OF t(1)] Cons.prems(2) by simp
  from Cons.IH [OF _ this] m1(2) t(2) obtain s' where
    "run_stock (statements es) t = (Inr (results es), s')" "stock_rows (working s') = m" by auto
  with t(1) e show ?case by auto
qed simp

text \<open>What the statements of a log moved at a pair.\<close>

fun stock_delta :: "stock_stmt \<Rightarrow> int \<times> int" where
  "stock_delta (Reserve q) = (- q, q)"
| "stock_delta (Release q) = (q, - q)"
| "stock_delta (Consume q) = (0, - q)"
| "stock_delta (Adjust q) = (q, 0)"
| "stock_delta st = (0, 0)"

definition moved :: "(int \<times> int \<Rightarrow> int) \<Rightarrow> ident \<times> ident \<Rightarrow> stock_entry list \<Rightarrow> int" where
  "moved part k es = sum_list (map (\<lambda>(k', (st, n), ok). if ok \<and> k' = k then part (stock_delta st) else 0) es)"

lemma moved_simps [simp]:
  "moved part k [] = 0"
  "moved part k ((k', (st, n), ok) # es) = (if ok \<and> k' = k then part (stock_delta st) else 0) + moved part k es"
  by (simp_all add: moved_def)

lemma moved_made: "moved part k (made es) = moved part k es"
  by (induction es) auto

lemma stock_change_delta:
  "stock_change st r = Some r' \<Longrightarrow>
     available_quantity r' = available_quantity r + fst (stock_delta st) \<and>
     reserved_quantity r' = reserved_quantity r + snd (stock_delta st)"
  by (cases st) (auto split: if_splits)

lemma entry_quantities:
  assumes "run_entry stock_sem (k', (st, n), ok) m = Some m'" and "m k = Some r" and "row_ok r"
  obtains r' where "m' k = Some r'" "row_ok r'"
    "available_quantity r' = available_quantity r + (if ok \<and> k' = k then fst (stock_delta st) else 0)"
    "reserved_quantity r' = reserved_quantity r + (if ok \<and> k' = k then snd (stock_delta st) else 0)"
proof (cases "ok \<and> k' = k")
  case True
  with assms obtain r' where r': "m' k = Some r'" "stock_sem (st, n) r = Inr (Some r')"
    unfolding run_entry_iff by auto
  then have "row_ok r'" "r' = changed st n r" "stock_change st r \<noteq> None" by (simp_all add: stock_sem_iff row_ok_def)
  moreover from this(2,3) have "available_quantity r' = available_quantity r + fst (stock_delta st)"
    "reserved_quantity r' = reserved_quantity r + snd (stock_delta st)"
    using stock_change_delta [of st r] by (auto simp: changed_def)
  ultimately show thesis using that [OF r'(1)] True by simp
next
  case False
  with assms have "m' k = Some r" unfolding run_entry_iff by (cases ok) auto
  with that [OF this assms(3)] False show thesis by simp
qed

lemma entries_quantities:
  "run_entries stock_sem es m = Some m' \<Longrightarrow> m k = Some r \<Longrightarrow> row_ok r \<Longrightarrow>
    \<exists>r'. m' k = Some r' \<and> row_ok r' \<and> available_quantity r' = available_quantity r + moved fst k es \<and>
      reserved_quantity r' = reserved_quantity r + moved snd k es"
proof (induction es arbitrary: m r)
  case (Cons e es)
  obtain k' st n ok where e: "e = (k', (st, n), ok)" by (metis prod.collapse)
  with Cons.prems(1) obtain m1 where m1: "run_entry stock_sem (k', (st, n), ok) m = Some m1"
    "run_entries stock_sem es m1 = Some m'" by (auto simp: bind_eq_Some_conv)
  from entry_quantities [OF m1(1) Cons.prems(2,3)] obtain r1 where r1: "m1 k = Some r1" "row_ok r1"
    "available_quantity r1 = available_quantity r + (if ok \<and> k' = k then fst (stock_delta st) else 0)"
    "reserved_quantity r1 = reserved_quantity r + (if ok \<and> k' = k then snd (stock_delta st) else 0)" .
  from Cons.IH [OF m1(2) r1(1,2)] r1(3,4) e show ?case by auto
qed simp

subsection \<open>Low-stock flags\<close>

text \<open>Only a reset or a change of the threshold takes a flag down.\<close>

definition may_lower :: "stock_stmt \<Rightarrow> bool" where
  "may_lower st \<longleftrightarrow> st = ResetLow \<or> (\<exists>t. st = SetThreshold t)"

lemma flag_kept_by_change: "stock_change st r = Some r' \<Longrightarrow> is_low_stock r \<Longrightarrow> \<not> may_lower st \<Longrightarrow> is_low_stock r'"
  by (cases st) (auto simp: may_lower_def split: if_splits)

lemma flag_kept:
  "run_entries stock_sem es m = Some m' \<Longrightarrow> m k = Some r \<Longrightarrow> is_low_stock r \<Longrightarrow>
    (\<forall>st n. (k, (st, n), True) \<in> set es \<longrightarrow> \<not> may_lower st) \<Longrightarrow> \<exists>r'. m' k = Some r' \<and> is_low_stock r'"
proof (induction es arbitrary: m r)
  case (Cons e es)
  obtain k' st n ok where e: "e = (k', (st, n), ok)" by (metis prod.collapse)
  with Cons.prems(1) obtain m1 where m1: "run_entry stock_sem (k', (st, n), ok) m = Some m1"
    "run_entries stock_sem es m1 = Some m'" by (auto simp: bind_eq_Some_conv)
  have "\<exists>r1. m1 k = Some r1 \<and> is_low_stock r1"
  proof (cases "ok \<and> k' = k")
    case True
    with m1(1) Cons.prems(2) have "m1 k = Some (changed st n r)" "stock_change st r \<noteq> None"
      unfolding run_entry_iff by (auto simp: stock_sem_iff)
    moreover have "\<not> may_lower st" using Cons.prems(4) True e by auto
    ultimately show ?thesis using flag_kept_by_change [of st r] Cons.prems(3) by (auto simp: changed_def)
  next
    case False
    with m1(1) Cons.prems(2,3) show ?thesis unfolding run_entry_iff by (cases ok) auto
  qed
  then obtain r1 where r1: "m1 k = Some r1" "is_low_stock r1" by blast
  have "\<forall>st n. (k, (st, n), True) \<in> set es \<longrightarrow> \<not> may_lower st" using Cons.prems(4) by auto
  from Cons.IH [OF m1(2) r1 this] show ?case .
qed simp

lemma made_split:
  "made (xs @ (k, st, True) # ys @ (k', st', True) # zs) = made xs @ (k, st, True) # made ys @ (k', st', True) # made zs"
  by simp

lemma flips_alternate:
  assumes "run_entries stock_sem (xs @ (k, (FlipLow, n), True) # ys @ (k, (FlipLow, n'), True) # zs) m = Some m'"
  shows "\<exists>st i. (k, (st, i), True) \<in> set ys \<and> may_lower st"
proof (rule ccontr)
  assume none: "\<not> (\<exists>st i. (k, (st, i), True) \<in> set ys \<and> may_lower st)"
  from assms obtain m1 m2 m3 where "run_entry stock_sem (k, (FlipLow, n), True) m1 = Some m2"
    and ys: "run_entries stock_sem ys m2 = Some m3" and flip: "run_entry stock_sem (k, (FlipLow, n'), True) m3 \<noteq> None"
    by (auto simp: run_entries_append bind_eq_Some_conv)
  from this(1) obtain r where r: "m2 k = Some r" "is_low_stock r"
    by (auto simp: run_entry_iff stock_sem_iff changed_def split: if_splits)
  from flag_kept [OF ys r] none obtain r' where "m3 k = Some r'" "is_low_stock r'" by blast
  with flip show False by (auto simp: run_entry_iff stock_sem_iff)
qed

end
