(* ===== verification/Interleaving_Properties.thy ===== *)
theory Interleaving_Properties
  imports Interleaving Order_Service Sample
begin

text \<open>
  What holds of the stock however the transactions of the service interleave, and which statements
  an order issues. The premises name any number of transactions over the statements of the inventory
  repository, run from the rows of a database as \<open>rc_step\<close> lets them: one statement of one
  transaction at a time, any of them rolled back at any time.
\<close>

section \<open>Two concrete runs\<close>

definition shelf :: "ident \<Rightarrow> inventory_row" where
  "shelf p = \<lparr>inv_id = p, inv_product_id = p, inv_warehouse_id = ''w1'', available_quantity = 3, reserved_quantity = 0,
     low_stock_threshold = Some 2, is_low_stock = False, inv_updated_at = 0\<rparr>"

definition shelves :: session where
  "shelves = opened (shop\<lparr>inventory := [shelf ''p1'', shelf ''p2'']\<rparr>)"

abbreviation shelf_rows :: "ident \<times> ident \<rightharpoonup> inventory_row" where
  "shelf_rows \<equiv> stock_rows (working shelves)"

lemma shelves_facts:
  "unique_pairs (working shelves)" "check_inventory_row (shelf p) = None"
  "shelf_rows (''p1'', ''w1'') = Some (shelf ''p1'')" "shelf_rows (''p2'', ''w1'') = Some (shelf ''p2'')"
  by (simp_all add: shelves_def opened_def unique_pairs_def shelf_def stock_rows_def check_inventory_row_None int4_def
      threshold_ok_def)

lemmas rc_then = steps_to.after [of "rc_step stock_sem"]

lemmas stock_run = run_entry.simps stock_sem_def check_inventory_row_def int4_def threshold_ok_def shelf_def
  at_or_below_threshold_def above_threshold_def

text \<open>A crossing, the stock returned, and another crossing.\<close>

definition crossing_entries :: "stock_entry list" where
  "crossing_entries = [((''p1'', ''w1''), (Reserve 1, 1), True), ((''p1'', ''w1''), (FlipLow, 1), True),
     ((''p1'', ''w1''), (Release 1, 2), True), ((''p1'', ''w1''), (ResetLow, 2), True),
     ((''p1'', ''w1''), (Reserve 2, 3), True), ((''p1'', ''w1''), (FlipLow, 3), True)]"

lemma crossings_run:
  "\<exists>w. steps_to (rc_step stock_sem) (row_server shelf_rows) w \<and> commit_log w = crossing_entries"
proof -
  have "run_entries stock_sem crossing_entries shelf_rows \<noteq> None"
    by (simp add: crossing_entries_def shelves_facts stock_run)
  then obtain m where "run_entries stock_sem crossing_entries shelf_rows = Some m" by blast
  from alone [OF this] show ?thesis by (force simp: crossing_entries_def commit_log_def)
qed

text \<open>
  Two orders with the same two products in opposite order. Each has reserved its first line; each
  waits for the row the other holds. PostgreSQL then breaks the deadlock by an error in one of them.
\<close>

definition first_of :: "ident \<Rightarrow> time \<Rightarrow> stock_entry list" where
  "first_of p n = [((p, ''w1''), (Reserve 1, n), True)]"

definition crossed :: "(ident \<times> ident, inventory_row, stock_stmt \<times> time) row_server" where
  "crossed = \<lparr>rows = shelf_rows,
     open_txns = [1 \<mapsto> at_start (first_of ''p1'' 1), 2 \<mapsto> at_start (first_of ''p2'' 2)], txn_log = []\<rparr>"

text \<open>A server on the shelves with nothing committed, and a statement of one of its transactions.\<close>

abbreviation shelf_server ::
  "(nat \<rightharpoonup> (ident \<times> ident, stock_stmt \<times> time) stamped list) \<Rightarrow> (ident \<times> ident, inventory_row, stock_stmt \<times> time) row_server" where
  "shelf_server T \<equiv> \<lparr>rows = shelf_rows, open_txns = T, txn_log = []\<rparr>"

lemma shelf_begins: "T i = None \<Longrightarrow> rc_step stock_sem (shelf_server T) (shelf_server (T(i \<mapsto> [])))"
  by (rule rc_rules(1))

lemma shelf_runs:
  "T i = Some es \<Longrightarrow> run_entries stock_sem (pinned es @ [(k, st, b)]) shelf_rows \<noteq> None \<Longrightarrow>
    (\<forall>j es'. b \<and> j \<noteq> i \<and> T j = Some es' \<longrightarrow> k \<notin> locks es') \<Longrightarrow>
    rc_step stock_sem (shelf_server T) (shelf_server (T(i \<mapsto> es @ [(0, k, st, b)])))"
  using rc_rules(2) [of T i es stock_sem k st b shelf_rows "[]"] by simp

lemma crossed_reachable: "steps_to (rc_step stock_sem) (row_server shelf_rows) crossed"
proof -
  have start: "row_server shelf_rows = shelf_server Map.empty" by (simp add: row_server_def)
  have one: "rc_step stock_sem (shelf_server Map.empty) (shelf_server [1 \<mapsto> []])"
    by (rule shelf_begins) simp
  have two: "rc_step stock_sem (shelf_server [1 \<mapsto> []]) (shelf_server ([1 \<mapsto> []](2 \<mapsto> [])))"
    by (rule shelf_begins) simp
  have three: "rc_step stock_sem (shelf_server ([1 \<mapsto> []](2 \<mapsto> [])))
      (shelf_server ([1 \<mapsto> []](2 \<mapsto> [], 1 \<mapsto> [] @ at_start (first_of ''p1'' 1))))"
    unfolding first_of_def list.map by (rule shelf_runs) (simp_all add: shelves_facts stock_run)
  have four: "rc_step stock_sem (shelf_server ([1 \<mapsto> []](2 \<mapsto> [], 1 \<mapsto> [] @ at_start (first_of ''p1'' 1))))
      (shelf_server ([1 \<mapsto> []](2 \<mapsto> [], 1 \<mapsto> [] @ at_start (first_of ''p1'' 1), 2 \<mapsto> [] @ at_start (first_of ''p2'' 2))))"
    unfolding first_of_def list.map by (rule shelf_runs) (simp_all add: shelves_facts stock_run)
  have last: "crossed = shelf_server ([1 \<mapsto> []](2 \<mapsto> [], 1 \<mapsto> [] @ at_start (first_of ''p1'' 1), 2 \<mapsto> [] @ at_start (first_of ''p2'' 2)))"
    by (simp add: crossed_def fun_upd_twist)
  show ?thesis unfolding last start
    by (rule rc_then [OF rc_then [OF rc_then [OF rc_then [OF steps_to.here one] two] three] four])
qed

lemma crossed_orders_deadlock:
  "steps_to (rc_step stock_sem) (row_server shelf_rows) crossed \<and>
   deadlocked crossed [1 \<mapsto> (''p2'', ''w1''), 2 \<mapsto> (''p1'', ''w1'')] {1, 2}"
  using crossed_reachable by (simp add: deadlocked_def waits_for_def crossed_def first_of_def)

text \<open>The second is rolled back, the first goes on and commits.\<close>

definition survivor_entries :: "stock_entry list" where
  "survivor_entries = first_of ''p1'' 1 @ [((''p2'', ''w1''), (Reserve 2, 3), True)]"

lemma survivor_commits:
  "\<exists>w. steps_to (rc_step stock_sem) crossed w \<and> commit_log w = survivor_entries"
proof -
  let ?T = "[1 \<mapsto> at_start (first_of ''p1'' 1), 2 \<mapsto> at_start (first_of ''p2'' 2)](2 := None)"
  have one: "rc_step stock_sem crossed (shelf_server ?T)"
    unfolding crossed_def by (rule rc_rules(4)) simp
  have two: "rc_step stock_sem (shelf_server ?T) (shelf_server (?T(1 \<mapsto> at_start survivor_entries)))"
    unfolding survivor_entries_def map_append list.map
    by (rule shelf_runs) (simp_all add: first_of_def shelves_facts stock_run pinned_def)
  have "run_entries stock_sem (pinned (at_start survivor_entries)) shelf_rows \<noteq> None"
    by (simp add: survivor_entries_def first_of_def shelves_facts stock_run pinned_def)
  then obtain m where "run_entries stock_sem (pinned (at_start survivor_entries)) shelf_rows = Some m" by blast
  from rc_rules(3) [OF _ this, of "?T(1 \<mapsto> at_start survivor_entries)" 1 "[]"]
  have "rc_step stock_sem (shelf_server (?T(1 \<mapsto> at_start survivor_entries)))
      \<lparr>rows = m, open_txns = (?T(1 \<mapsto> at_start survivor_entries))(1 := None), txn_log = [at_start survivor_entries]\<rparr>"
    by simp
  from rc_then [OF rc_then [OF rc_then [OF steps_to.here one] two] this] show ?thesis
    by (force simp: commit_log_def comp_def)
qed

lemma survivor_run:
  obtains w where "steps_to (rc_step stock_sem) (row_server shelf_rows) w" and "commit_log w = survivor_entries"
  using survivor_commits steps_to_trans [OF _ crossed_reachable] by blast

text \<open>
  A client asks for five where three are, and is told there is too little; before its transaction
  ends, five more arrive and are committed. In the order of commit the refused statement would be
  granted: it is no serial run, and READ COMMITTED promises none.
\<close>

definition arrival :: stock_entry where
  "arrival = ((''p1'', ''w1''), (Adjust 5, 1), True)"

definition refusal :: stock_entry where
  "refusal = ((''p1'', ''w1''), (Reserve 5, 2), False)"

lemma late_commit:
  obtains w where "steps_to (rc_step stock_sem) (row_server shelf_rows) w" and "txn_log w = [at_start [arrival], at_start [refusal]]"
proof -
  have start: "row_server shelf_rows = shelf_server Map.empty" by (simp add: row_server_def)
  have one: "rc_step stock_sem (shelf_server Map.empty) (shelf_server [1 \<mapsto> []])"
    by (rule shelf_begins) simp
  have two: "rc_step stock_sem (shelf_server [1 \<mapsto> []]) (shelf_server ([1 \<mapsto> []](1 \<mapsto> [] @ at_start [refusal])))"
    unfolding refusal_def list.map by (rule shelf_runs) (simp_all add: shelves_facts stock_run)
  have three: "rc_step stock_sem (shelf_server ([1 \<mapsto> []](1 \<mapsto> [] @ at_start [refusal])))
      (shelf_server ([1 \<mapsto> []](1 \<mapsto> [] @ at_start [refusal], 2 \<mapsto> [])))"
    by (rule shelf_begins) simp
  have four: "rc_step stock_sem (shelf_server ([1 \<mapsto> []](1 \<mapsto> [] @ at_start [refusal], 2 \<mapsto> [])))
      (shelf_server ([1 \<mapsto> []](1 \<mapsto> [] @ at_start [refusal], 2 \<mapsto> [], 2 \<mapsto> [] @ at_start [arrival])))"
    unfolding arrival_def list.map
    by (rule shelf_runs) (simp_all add: refusal_def shelves_facts stock_run)
  let ?T = "[1 \<mapsto> []](1 \<mapsto> [] @ at_start [refusal], 2 \<mapsto> [], 2 \<mapsto> [] @ at_start [arrival])"
  have "run_entries stock_sem (pinned (at_start [arrival])) shelf_rows \<noteq> None"
    by (simp add: arrival_def shelves_facts stock_run pinned_def)
  then obtain m where "run_entries stock_sem (pinned (at_start [arrival])) shelf_rows = Some m" by blast
  from rc_rules(3) [OF _ this, of ?T 2 "[]"]
  have five: "rc_step stock_sem (shelf_server ?T)
      \<lparr>rows = m, open_txns = ?T(2 := None), txn_log = [at_start [arrival]]\<rparr>" by simp
  have six: "rc_step stock_sem \<lparr>rows = m, open_txns = ?T(2 := None), txn_log = [at_start [arrival]]\<rparr>
      \<lparr>rows = m, open_txns = ?T(2 := None, 1 := None), txn_log = [at_start [arrival]] @ [at_start [refusal]]\<rparr>"
    by (rule rc_rules(3)) (simp_all add: refusal_def pinned_def)
  note run = rc_then [OF rc_then [OF rc_then [OF rc_then [OF rc_then [OF rc_then [OF
    steps_to.here one] two] three] four] five] six]
  show thesis by (rule that [OF run [folded start]]) simp
qed

lemma late_commit_logs:
  "txn_log w = [at_start [arrival], at_start [refusal]] \<Longrightarrow> commit_log w = [arrival, refusal] \<and> pinned_log w = [arrival]"
  by (simp add: commit_log_def pinned_log_def pinned_def arrival_def refusal_def)

section \<open>Concurrent transactions\<close>

text \<open>
  C4. What interleaved transactions do is serial, and what they are answered is committed. Every
  committed statement that changed a row is in \<open>pinned_log\<close>, with those that missed a row their
  transaction had changed before; running these with the functions of the repository one after the
  other, in the order of commit, gives each the result it had in the interleaving, and the same rows.
  Any other statement missed a row its transaction did not hold: it changes nothing, and like every
  statement it was answered as it is after the transactions that were committed when it ran and the
  earlier statements of its own. Such a miss alone may be contradicted by the order of commit.
\<close>

theorem interleaved_transactions_serialise:
  assumes "unique_pairs (working s)"
    and "steps_to (rc_step stock_sem) (row_server (stock_rows (working s))) w"
  shows "(\<exists>s'. run_stock (statements (pinned_log w)) s = (Inr (results (pinned_log w)), s') \<and>
      stock_rows (working s') = rows w) \<and>
    made (pinned_log w) = made (commit_log w) \<and>
    (\<forall>i j n e. i < length (txn_log w) \<and> j < length (txn_log w ! i) \<and> txn_log w ! i ! j = (n, e) \<longrightarrow>
      n \<le> i \<and> (let es = concat (map pinned (take n (txn_log w))) @ pinned (take j (txn_log w ! i)) @ [e] in
        fst (run_stock (statements es) s) = Inr (results es)))"
proof (intro conjI allI impI)
  note serial = reachable_serial [OF assms(2)]
  show "\<exists>s'. run_stock (statements (pinned_log w)) s = (Inr (results (pinned_log w)), s') \<and> stock_rows (working s') = rows w"
    using run_stock_entries [OF serialD(1) [OF serial] assms(1)] .
  show "made (pinned_log w) = made (commit_log w)" by (rule pinned_log_made)
  fix i j n e assume at: "i < length (txn_log w) \<and> j < length (txn_log w ! i) \<and> txn_log w ! i ! j = (n, e)"
  let ?es = "concat (map pinned (take n (txn_log w))) @ pinned (take j (txn_log w ! i)) @ [e]"
  from serialD(2) [OF serial, of i] at have "answers stock_sem (stock_rows (working s)) (take i (txn_log w)) (take j (txn_log w ! i)) (n, e)"
    by (auto simp: all_answered_def)
  with at show "n \<le> i" and "let es = ?es in fst (run_stock (statements es) s) = Inr (results es)"
    using run_stock_entries [where es = ?es, OF _ assms(1)]
    by (auto simp: answers_def min_absorb2 simp del: map_append)
qed

theorem interleaved_transactions_serialise_witness:
  "fst (run_stock (statements [arrival]) shelves) = Inr [True] \<and> fst (run_stock (statements [refusal]) shelves) = Inr [False]"
proof -
  obtain w where w: "steps_to (rc_step stock_sem) (row_server shelf_rows) w" "txn_log w = [at_start [arrival], at_start [refusal]]"
    by (rule late_commit)
  note all = interleaved_transactions_serialise [OF shelves_facts(1) w(1)]
  note logs = late_commit_logs [OF w(2)]
  from all logs have "fst (run_stock (statements [arrival]) shelves) = Inr (results [arrival])" by auto
  moreover from all have "\<forall>i j n e. i < length (txn_log w) \<and> j < length (txn_log w ! i) \<and> txn_log w ! i ! j = (n, e) \<longrightarrow>
      n \<le> i \<and> (let es = concat (map pinned (take n (txn_log w))) @ pinned (take j (txn_log w ! i)) @ [e] in
        fst (run_stock (statements es) shelves) = Inr (results es))" by blast
  from spec [OF spec [OF spec [OF spec [OF this, of 1], of 0], of 0], of refusal]
  have "fst (run_stock (statements [refusal]) shelves) = Inr (results [refusal])" by (simp add: w(2))
  ultimately show ?thesis by (simp add: arrival_def refusal_def)
qed

text \<open>The refusal of \<open>late_commit\<close> is granted in the order of commit.\<close>

lemma refusal_is_not_serial:
  "\<exists>w. steps_to (rc_step stock_sem) (row_server (stock_rows (working shelves))) w \<and>
     results (commit_log w) = [True, False] \<and> fst (run_stock (statements (commit_log w)) shelves) = Inr [True, True]"
proof -
  obtain w where w: "steps_to (rc_step stock_sem) (row_server shelf_rows) w" "txn_log w = [at_start [arrival], at_start [refusal]]"
    by (rule late_commit)
  have "run_entries stock_sem [arrival, ((''p1'', ''w1''), (Reserve 5, 2), True)] shelf_rows \<noteq> None"
    by (simp add: arrival_def shelves_facts stock_run)
  then obtain m where "run_entries stock_sem [arrival, ((''p1'', ''w1''), (Reserve 5, 2), True)] shelf_rows = Some m" by blast
  from run_stock_entries [OF this shelves_facts(1)] obtain s' where
    "run_stock (statements [arrival, ((''p1'', ''w1''), (Reserve 5, 2), True)]) shelves =
       (Inr (results [arrival, ((''p1'', ''w1''), (Reserve 5, 2), True)]), s')" by blast
  moreover have "statements [arrival, ((''p1'', ''w1''), (Reserve 5, 2), True)] = statements [arrival, refusal]"
    "results [arrival, ((''p1'', ''w1''), (Reserve 5, 2), True)] = [True, True]" by (simp_all add: arrival_def refusal_def)
  ultimately have "fst (run_stock (statements [arrival, refusal]) shelves) = Inr [True, True]" by (simp only: fst_conv)
  with w(1) late_commit_logs [OF w(2)] show ?thesis by (intro exI [of _ w]) (simp add: arrival_def refusal_def)
qed

text \<open>
  C5. No interleaving oversells. At every moment the committed quantities of a row are what it had
  plus what the committed statements moved, and never negative.
\<close>

theorem interleaved_stock_is_never_oversold:
  assumes "steps_to (rc_step stock_sem) (row_server (stock_rows d)) w"
    and "stock_rows d k = Some r" and "check_inventory_row r = None"
  shows "\<exists>r'. rows w k = Some r' \<and> 0 \<le> available_quantity r' \<and> 0 \<le> reserved_quantity r' \<and>
    available_quantity r' = available_quantity r + moved fst k (commit_log w) \<and>
    reserved_quantity r' = reserved_quantity r + moved snd k (commit_log w)"
  using entries_quantities [OF reachable_made [OF assms(1)] assms(2)] assms(3)
  by (auto simp: row_ok_def check_inventory_row_None moved_made)

theorem interleaved_stock_is_never_oversold_witness:
  "\<exists>w r. steps_to (rc_step stock_sem) (row_server shelf_rows) w \<and> rows w (''p2'', ''w1'') = Some r \<and>
     available_quantity r = 1 \<and> reserved_quantity r = 2"
proof -
  obtain w where w: "steps_to (rc_step stock_sem) (row_server shelf_rows) w" "commit_log w = survivor_entries"
    by (rule survivor_run)
  from interleaved_stock_is_never_oversold [OF w(1) shelves_facts(4,2)] obtain r where "rows w (''p2'', ''w1'') = Some r"
    "available_quantity r = 1" "reserved_quantity r = 2"
    by (auto simp: w(2) survivor_entries_def first_of_def shelf_def)
  with w(1) show ?thesis by blast
qed

text \<open>
  C23. A crossing is alerted once. Between two committed flips of the low flag of one pair (each the
  cause of one alert) a committed reset or change of the threshold took the flag down: however many
  transactions cross the threshold at the same time, one of them raises the alert.
\<close>

theorem concurrent_crossings_alert_once:
  assumes "steps_to (rc_step stock_sem) (row_server (stock_rows d)) w"
    and "commit_log w = xs @ (k, (FlipLow, n), True) # ys @ (k, (FlipLow, n'), True) # zs"
  shows "\<exists>st i. (k, (st, i), True) \<in> set ys \<and> (st = ResetLow \<or> (\<exists>t. st = SetThreshold t))"
  using flips_alternate [OF reachable_made [OF assms(1), unfolded assms(2) made_split]]
  by (auto simp: may_lower_def)

theorem concurrent_crossings_alert_once_witness:
  "\<exists>st (i :: time). ((''p1'', ''w1''), (st, i), True) \<in> set [((''p1'', ''w1''), (Release 1, 2), True), ((''p1'', ''w1''), (ResetLow, 2), True),
     ((''p1'', ''w1''), (Reserve 2, 3), True)] \<and> (st = ResetLow \<or> (\<exists>t. st = SetThreshold t))"
proof -
  obtain w where w: "steps_to (rc_step stock_sem) (row_server shelf_rows) w" "commit_log w = crossing_entries"
    using crossings_run by blast
  have "commit_log w = [((''p1'', ''w1''), (Reserve 1, 1), True)] @ ((''p1'', ''w1''), (FlipLow, 1), True) #
     [((''p1'', ''w1''), (Release 1, 2), True), ((''p1'', ''w1''), (ResetLow, 2), True), ((''p1'', ''w1''), (Reserve 2, 3), True)] @
     ((''p1'', ''w1''), (FlipLow, 3), True) # []"
    by (simp add: w(2) crossing_entries_def)
  from concurrent_crossings_alert_once [OF w(1) this] show ?thesis .
qed

section \<open>The statements of an order\<close>

lemma reserve_entries:
  assumes run: "reserve p w q i s = (Inr True, s')" and u: "unique_pairs (working s)" and q: "0 < q"
  obtains flip where "run_entries stock_sem [((p, w), (Reserve q, clock s), True), ((p, w), (FlipLow, clock s), flip)]
      (stock_rows (working s)) = Some (stock_rows (working s'))" and "unique_pairs (working s')"
proof -
  from run obtain t t' a where took: "stock_op (Reserve q) (p, w) s = (Inr True, t)"
    and audit: "audit_record p w (- q) INVENTORY_RESERVED i t = (Inr a, t')"
    and check: "check_low_stock_transition p w (- q) t' = (Inr (), s')"
    by (auto simp: reserve_def split: if_splits)
  note first = stock_op_entry [OF took u]
  have t': "stock_rows (working t') = stock_rows (working t)" "unique_pairs (working t')" "clock t' = clock s"
    using audit_record_effect(1) [OF audit] first(2,3) in_transactionD [OF in_transaction_logs(1) audit]
    by (simp_all add: stock_rows_def fun_eq_iff unique_pairs_def)
  from check q obtain x t'' where flip: "try_flip_low_stock p w t' = (Inr x, t'')"
    and rest: "inventory (working s') = inventory (working t'')"
    by (auto simp: check_low_stock_transition_def split: option.splits
        dest!: low_stock_alert_create_effect(1) outbox_create_effect(1))
  from flip have "stock_op FlipLow (p, w) t' = (Inr (x \<noteq> None), t'')" by simp
  note second = stock_op_entry [OF this t'(2)]
  have "stock_rows (working s') = stock_rows (working t'')" "unique_pairs (working s')"
    using rest second(2) by (simp_all add: stock_rows_def fun_eq_iff unique_pairs_def)
  with that [of "x \<noteq> None"] first(1) second(1) t' show thesis by simp
qed

text \<open>The two statements of one line, and of all the lines with what their flips answered.\<close>

definition line_entries :: "time \<Rightarrow> reservation \<times> bool \<Rightarrow> stock_entry list" where
  "line_entries n = (\<lambda>(x, flip). [(resv_key x, (Reserve (resv_quantity x), n), True), (resv_key x, (FlipLow, n), flip)])"

definition order_entries :: "time \<Rightarrow> (reservation \<times> bool) list \<Rightarrow> stock_entry list" where
  "order_entries n xs = concat (map (line_entries n) xs)"

lemma reserve_line_entries:
  assumes run: "reserve_line found oid ex l (its, rs, tot) s = (Inr acc, s')"
    and u: "unique_pairs (working s)" and q: "0 < ol_quantity l"
  obtains i x flip where "line_taken found oid ex l (i, x)" and "fst (snd acc) = rs @ [x]"
    and "run_entries stock_sem (line_entries (clock s) (x, flip)) (stock_rows (working s)) = Some (stock_rows (working s'))"
    and "unique_pairs (working s')" and "clock s' = clock s"
proof -
  from run obtain i x t where taken: "line_taken found oid ex l (i, x)" "acc = (its @ [i], rs @ [x], tot + items_total [i])"
    and res: "reserve (ol_product_id l) (resv_warehouse_id x) (ol_quantity l) oid s = (Inr True, t)"
    and x: "resv_key x = (ol_product_id l, resv_warehouse_id x)" "resv_quantity x = ol_quantity l"
    and s': "working s' = working t" "clock s' = clock s" by (rule reserve_lineE)
  from reserve_entries [OF res u q] obtain flip where
    "run_entries stock_sem (line_entries (clock s) (x, flip)) (stock_rows (working s)) = Some (stock_rows (working t))"
    "unique_pairs (working t)" using x by (auto simp: line_entries_def)
  with that [OF taken(1)] taken(2) s' show thesis by simp
qed

lemma order_lines_entries:
  "fold_op (reserve_line found oid ex) ls (its, rs, tot) s = (Inr acc, s') \<Longrightarrow> unique_pairs (working s) \<Longrightarrow>
    \<forall>l\<in>set ls. 0 < ol_quantity l \<Longrightarrow>
    \<exists>irs flips. list_all2 (line_taken found oid ex) ls irs \<and> fst (snd acc) = rs @ map snd irs \<and> length flips = length ls \<and>
      run_entries stock_sem (order_entries (clock s) (zip (map snd irs) flips)) (stock_rows (working s)) =
        Some (stock_rows (working s'))"
proof (induction ls arbitrary: its rs tot s)
  case Nil
  then show ?case by (auto simp: order_entries_def)
next
  case (Cons l ls)
  from Cons.prems(1) obtain acc1 t where one: "reserve_line found oid ex l (its, rs, tot) s = (Inr acc1, t)"
    and rest: "fold_op (reserve_line found oid ex) ls acc1 t = (Inr acc, s')" by auto
  from Cons.prems(3) have q: "0 < ol_quantity l" "\<forall>l\<in>set ls. 0 < ol_quantity l" by simp_all
  from reserve_line_entries [OF one Cons.prems(2) q(1)] obtain i x flip where
    x: "line_taken found oid ex l (i, x)" "fst (snd acc1) = rs @ [x]"
    and run: "run_entries stock_sem (line_entries (clock s) (x, flip)) (stock_rows (working s)) = Some (stock_rows (working t))"
    and t: "unique_pairs (working t)" "clock t = clock s" .
  obtain its1 rs1 tot1 where acc1: "acc1 = (its1, rs1, tot1)" by (cases acc1)
  from Cons.IH [OF rest [unfolded acc1] t(1) q(2)] obtain irs flips where
    irs: "list_all2 (line_taken found oid ex) ls irs" "fst (snd acc) = rs1 @ map snd irs" "length flips = length ls"
      "run_entries stock_sem (order_entries (clock t) (zip (map snd irs) flips)) (stock_rows (working t)) =
        Some (stock_rows (working s'))" by blast
  with x acc1 run t(2) show ?case
    by (intro exI [of _ "(i, x) # irs"] exI [of _ "flip # flips"]) (simp add: order_entries_def run_entries_append)
qed

end
