(* ===== verification/Routing.thy ===== *)
theory Routing
  imports Api
begin

text \<open>
  Which function a request reaches: the routers of \<open>src/api/\<close>, mounted by \<open>src/main.py\<close>. A path is
  split at its slashes; \<open>{name}\<close> matches one part that is not empty. Starlette tries the routes in the
  order in which they were added and takes the first whose path and method both match; when only a
  path matched the answer is 405, otherwise 404. Left out: FastAPI's own pages (\<open>/docs\<close>, \<open>/redoc\<close>,
  \<open>/openapi.json\<close>) and the redirection of a path that no route matches because of a trailing slash.
\<close>

datatype path_part = Lit string | Param

definition compile_path :: "string \<Rightarrow> path_part list" where
  "compile_path template = map (\<lambda>p. if p \<noteq> [] \<and> hd p = CHR ''{'' then Param else Lit p) (split_on (CHR ''/'') template)"

text \<open>The values of the parameters, if the path matches.\<close>

fun match_parts :: "path_part list \<Rightarrow> string list \<Rightarrow> string list option" where
  "match_parts [] [] = Some []"
| "match_parts (Lit l # ps) (x # xs) = (if x = l then match_parts ps xs else None)"
| "match_parts (Param # ps) (x # xs) = (if x = [] then None else map_option (Cons x) (match_parts ps xs))"
| "match_parts _ _ = None"

datatype route_name = RHealth | RHealthLive | RHealthReady | RRegister | RLogin | RCreateProduct | RGetProduct
  | RCreateWarehouse | RAdjust | RLowStock | RThreshold | RInventory | RCreateOrder | RGetOrder | RListOrders | RCancelOrder

type_synonym router = "(string \<times> string \<times> route_name) list"

definition health_router :: router where
  "health_router = [(''GET'', ''/health'', RHealth), (''GET'', ''/health/live'', RHealthLive),
     (''GET'', ''/health/ready'', RHealthReady)]"

definition auth_router :: router where
  "auth_router = map (\<lambda>(method, path, f). (method, ''/auth'' @ path, f))
     [(''POST'', ''/register'', RRegister), (''POST'', ''/login'', RLogin)]"

definition products_router :: router where
  "products_router = map (\<lambda>(method, path, f). (method, ''/products'' @ path, f))
     [(''POST'', [], RCreateProduct), (''GET'', ''/{product_id}'', RGetProduct)]"

definition warehouses_router :: router where
  "warehouses_router = map (\<lambda>(method, path, f). (method, ''/warehouses'' @ path, f)) [(''POST'', [], RCreateWarehouse)]"

definition inventory_router :: router where
  "inventory_router = map (\<lambda>(method, path, f). (method, ''/inventory'' @ path, f))
     [(''POST'', ''/adjustments'', RAdjust), (''GET'', ''/low-stock'', RLowStock),
      (''PUT'', ''/{product_id}/warehouses/{warehouse_id}/low-stock-threshold'', RThreshold),
      (''GET'', ''/{product_id}'', RInventory)]"

definition orders_router :: router where
  "orders_router = map (\<lambda>(method, path, f). (method, ''/orders'' @ path, f))
     [(''POST'', [], RCreateOrder), (''GET'', ''/{order_id}'', RGetOrder), (''GET'', [], RListOrders),
      (''POST'', ''/{order_id}/cancel'', RCancelOrder)]"

definition app_routes :: "settings \<Rightarrow> router" where
  "app_routes cfg = health_router @ map (\<lambda>(method, path, f). (method, api_v1_prefix cfg @ path, f))
     (auth_router @ products_router @ warehouses_router @ inventory_router @ orders_router)"

datatype routed = Found route_name "string list" | MethodNotAllowed | RouteNotFound

fun route_parts :: "(string \<times> path_part list \<times> route_name) list \<Rightarrow> bool \<Rightarrow> string \<Rightarrow> string list \<Rightarrow> routed" where
  "route_parts [] partial method path = (if partial then MethodNotAllowed else RouteNotFound)"
| "route_parts ((verb, template, f) # rs) partial method path =
     (case match_parts template path of
        None \<Rightarrow> route_parts rs partial method path
      | Some args \<Rightarrow> if verb = method then Found f args else route_parts rs True method path)"

definition route_request :: "settings \<Rightarrow> string \<Rightarrow> string \<Rightarrow> routed" where
  "route_request cfg method path =
     route_parts (map (\<lambda>(verb, template, f). (verb, compile_path template, f)) (app_routes cfg)) False method
       (split_on (CHR ''/'') path)"

text \<open>The request line of a request: method, path, and the parameters in it.\<close>

fun request_line :: "api_request \<Rightarrow> string \<times> string" where
  "request_line (ReqRegister _) = (''POST'', ''/auth/register'')"
| "request_line (ReqLogin _) = (''POST'', ''/auth/login'')"
| "request_line (ReqCreateProduct _) = (''POST'', ''/products'')"
| "request_line (ReqGetProduct i) = (''GET'', ''/products/'' @ i)"
| "request_line (ReqCreateWarehouse _) = (''POST'', ''/warehouses'')"
| "request_line (ReqAdjust _) = (''POST'', ''/inventory/adjustments'')"
| "request_line (ReqLowStock _) = (''GET'', ''/inventory/low-stock'')"
| "request_line (ReqThreshold p w _) = (''PUT'', ''/inventory/'' @ p @ ''/warehouses/'' @ w @ ''/low-stock-threshold'')"
| "request_line (ReqInventory p) = (''GET'', ''/inventory/'' @ p)"
| "request_line (ReqCreateOrder _ _) = (''POST'', ''/orders'')"
| "request_line (ReqGetOrder i) = (''GET'', ''/orders/'' @ i)"
| "request_line (ReqListOrders _ _ _ _ _) = (''GET'', ''/orders'')"
| "request_line (ReqCancelOrder i) = (''POST'', ''/orders/'' @ i @ ''/cancel'')"

fun route_of :: "api_request \<Rightarrow> route_name \<times> string list" where
  "route_of (ReqRegister _) = (RRegister, [])"
| "route_of (ReqLogin _) = (RLogin, [])"
| "route_of (ReqCreateProduct _) = (RCreateProduct, [])"
| "route_of (ReqGetProduct i) = (RGetProduct, [i])"
| "route_of (ReqCreateWarehouse _) = (RCreateWarehouse, [])"
| "route_of (ReqAdjust _) = (RAdjust, [])"
| "route_of (ReqLowStock _) = (RLowStock, [])"
| "route_of (ReqThreshold p w _) = (RThreshold, [p, w])"
| "route_of (ReqInventory p) = (RInventory, [p])"
| "route_of (ReqCreateOrder _ _) = (RCreateOrder, [])"
| "route_of (ReqGetOrder i) = (RGetOrder, [i])"
| "route_of (ReqListOrders _ _ _ _ _) = (RListOrders, [])"
| "route_of (ReqCancelOrder i) = (RCancelOrder, [i])"

text \<open>The routes of the default settings, compiled.\<close>

lemma compiled_routes:
  "map (\<lambda>(verb, template, f). (verb, compile_path template, f)) (app_routes default_settings) =
   (let api = (\<lambda>ps. Lit [] # Lit ''api'' # Lit ''v1'' # ps) in
    [(''GET'', [Lit [], Lit ''health''], RHealth), (''GET'', [Lit [], Lit ''health'', Lit ''live''], RHealthLive),
     (''GET'', [Lit [], Lit ''health'', Lit ''ready''], RHealthReady),
     (''POST'', api [Lit ''auth'', Lit ''register''], RRegister), (''POST'', api [Lit ''auth'', Lit ''login''], RLogin),
     (''POST'', api [Lit ''products''], RCreateProduct), (''GET'', api [Lit ''products'', Param], RGetProduct),
     (''POST'', api [Lit ''warehouses''], RCreateWarehouse),
     (''POST'', api [Lit ''inventory'', Lit ''adjustments''], RAdjust), (''GET'', api [Lit ''inventory'', Lit ''low-stock''], RLowStock),
     (''PUT'', api [Lit ''inventory'', Param, Lit ''warehouses'', Param, Lit ''low-stock-threshold''], RThreshold),
     (''GET'', api [Lit ''inventory'', Param], RInventory),
     (''POST'', api [Lit ''orders''], RCreateOrder), (''GET'', api [Lit ''orders'', Param], RGetOrder),
     (''GET'', api [Lit ''orders''], RListOrders), (''POST'', api [Lit ''orders'', Param, Lit ''cancel''], RCancelOrder)])"
  by code_simp

lemma path_parts:
  "CHR ''/'' \<notin> set i \<Longrightarrow> split_on (CHR ''/'') (i @ CHR ''/'' # t) = i # split_on (CHR ''/'') t"
  "CHR ''/'' \<notin> set i \<Longrightarrow> split_on (CHR ''/'') i = [i]"
  by (simp_all add: split_on_append split_on_plain)

text \<open>
  C38. Every request reaches its own function with its own parameters, whatever they are, as long as they
  are parts of a path; the one product whose inventory cannot be asked for is the one with the id
  \<open>low-stock\<close>, a path another route has.
\<close>

theorem routes_reach_their_functions:
  assumes "\<forall>x\<in>set (snd (route_of req)). x \<noteq> [] \<and> CHR ''/'' \<notin> set x" and "req \<noteq> ReqInventory ''low-stock''"
  shows "route_request default_settings (fst (request_line req)) (''/api/v1'' @ snd (request_line req)) =
    (case route_of req of (f, args) \<Rightarrow> Found f args)"
  using assms
  by (cases req) (simp_all add: route_request_def compiled_routes path_parts Let_def)

theorem routes_reach_their_functions_witness:
  "route_request default_settings ''POST'' ''/api/v1/orders/order_6/cancel'' = Found RCancelOrder [''order_6'']"
  using routes_reach_their_functions [of "ReqCancelOrder ''order_6''"] by simp

end
