(* ===== verification/Operations.thy ===== *)
theory Operations
  imports Api "HOL-Library.AList"
begin

text \<open>
  What surrounds the routes: the health endpoints of \<open>src/api/health.py\<close>, the request ids of
  \<open>src/middleware/request_id.py\<close> and the log lines of \<open>src/logging_config.py\<close>. The probes of
  PostgreSQL and Redis are arguments: what \<open>conn.execute\<close> and \<open>client.ping\<close> return or raise.
\<close>

section \<open>Health\<close>

definition check_database :: "exn + unit \<Rightarrow> bool" where
  "check_database select_1 = (case select_1 of Inl _ \<Rightarrow> False | Inr _ \<Rightarrow> True)"

definition check_queue :: "exn + bool \<Rightarrow> bool" where
  "check_queue ping = (case ping of Inl _ \<Rightarrow> False | Inr pong \<Rightarrow> pong)"

definition health :: "exn + unit \<Rightarrow> exn + bool \<Rightarrow> http_response" where
  "health select_1 ping =
     (let db_ok = check_database select_1; queue_ok = check_queue ping; healthy = db_ok \<and> queue_ok in
      \<lparr>http_status = (if healthy then 200 else 503), http_body = JObj [
         (''status'', JStr (if healthy then ''healthy'' else ''unhealthy'')),
         (''database'', JStr (if db_ok then ''connected'' else ''unavailable'')),
         (''queue'', JStr (if queue_ok then ''connected'' else ''unavailable''))]\<rparr>)"

definition health_live :: http_response where
  "health_live = \<lparr>http_status = 200, http_body = JObj [(''status'', JStr ''alive'')]\<rparr>"

definition health_ready :: "exn + unit \<Rightarrow> exn + bool \<Rightarrow> http_response" where
  "health_ready select_1 ping =
     (let db_ok = check_database select_1; queue_ok = check_queue ping; ready = db_ok \<and> queue_ok in
      \<lparr>http_status = (if ready then 200 else 503), http_body = JObj [
         (''status'', JStr (if ready then ''ready'' else ''not_ready'')),
         (''database'', JBool db_ok), (''queue'', JBool queue_ok)]\<rparr>)"

lemma health_agrees_with_ready: "http_status (health select_1 ping) = http_status (health_ready select_1 ping)"
  by (simp add: health_def health_ready_def Let_def)

lemma ready_iff: "http_status (health_ready select_1 ping) = 200 \<longleftrightarrow> select_1 = Inr () \<and> ping = Inr True"
  by (cases select_1; cases ping) (simp_all add: health_ready_def check_database_def check_queue_def)

section \<open>Log lines\<close>

text \<open>A record as the formatter reads it; \<open>log_request_id\<close> is there once the filter has run.\<close>

record log_record =
  levelname :: string
  logger_name :: string
  log_message :: string
  log_request_id :: "string option"
  log_event_data :: "(string \<times> json) list option"
  log_exc_info :: "string option"

definition log_event :: "string \<Rightarrow> string \<Rightarrow> string \<Rightarrow> (string \<times> json) list \<Rightarrow> log_record" where
  "log_event logger level event data = \<lparr>levelname = level, logger_name = logger, log_message = event,
     log_request_id = None, log_event_data = Some data, log_exc_info = None\<rparr>"

definition request_id_filter :: "string \<Rightarrow> log_record \<Rightarrow> log_record" where
  "request_id_filter ctx r = r\<lparr>log_request_id := Some ctx\<rparr>"

text \<open>\<open>dict.update\<close>: the later value of a key wins, at the place of the first.\<close>

definition dict_update :: "(string \<times> json) list \<Rightarrow> (string \<times> json) list \<Rightarrow> (string \<times> json) list" where
  "dict_update payload extra = fold (\<lambda>(k, v). AList.update k v) extra payload"

definition json_format :: "string \<Rightarrow> log_record \<Rightarrow> (string \<times> json) list" where
  "json_format timestamp r =
     (let payload = [(''level'', JStr (levelname r)), (''logger'', JStr (logger_name r)),
        (''message'', JStr (log_message r)),
        (''request_id'', JStr (case log_request_id r of None \<Rightarrow> ''-'' | Some i \<Rightarrow> i)),
        (''timestamp'', JStr timestamp)];
          payload = (case log_event_data r of None \<Rightarrow> payload | Some extra \<Rightarrow> dict_update payload extra)
      in case log_exc_info r of None \<Rightarrow> payload | Some e \<Rightarrow> AList.update ''exception'' (JStr e) payload)"

lemma dict_update_lookup:
  "distinct (map fst extra) \<Longrightarrow>
    map_of (dict_update payload extra) k = (case map_of extra k of None \<Rightarrow> map_of payload k | Some v \<Rightarrow> Some v)"
proof (induction extra arbitrary: payload)
  case (Cons x extra)
  obtain k' v where x: "x = (k', v)" by (cases x)
  have "map_of extra k' = None" using Cons.prems x by (simp add: map_of_eq_None_iff)
  with Cons x show ?case by (auto simp: dict_update_def update_conv' split: option.splits)
qed (simp add: dict_update_def)

text \<open>Every line of a request carries its id, unless the event's own fields override it.\<close>

lemma line_carries_request_id:
  assumes "distinct (map fst data)" and "''request_id'' \<notin> fst ` set data"
  shows "map_of (json_format ts (request_id_filter ctx (log_event logger level event data))) ''request_id'' = Some (JStr ctx)"
proof -
  have "map_of data ''request_id'' = None" using assms(2) by (simp add: map_of_eq_None_iff)
  with assms(1) show ?thesis
    by (simp add: json_format_def request_id_filter_def log_event_def dict_update_lookup)
qed

section \<open>Request ids\<close>

text \<open>\<open>request.headers.get(REQUEST_ID_HEADER) or str(uuid.uuid4())\<close>\<close>

definition request_id_of :: "string option \<Rightarrow> string \<Rightarrow> string" where
  "request_id_of header fresh = (case header of None \<Rightarrow> fresh | Some h \<Rightarrow> if h = [] then fresh else h)"

text \<open>The middleware around \<open>call_next\<close>, which sees the context variable; \<open>ctx\<close> is its value before
  and, with \<open>reset\<close> in the \<open>finally\<close>, after. A response gets the header; an exception passes.\<close>

definition dispatch ::
  "string option \<Rightarrow> string \<Rightarrow> (string \<Rightarrow> exn + http_response) \<Rightarrow> string
    \<Rightarrow> (exn + http_response \<times> string) \<times> string" where
  "dispatch header fresh call_next ctx =
     (let request_id = request_id_of header fresh in
      case call_next request_id of
        Inl e \<Rightarrow> (Inl e, ctx)
      | Inr response \<Rightarrow> (Inr (response, request_id), ctx))"

text \<open>Starlette runs the handlers of \<open>AppError\<close> and \<open>RequestValidationError\<close> inside the middlewares and
  the one of \<open>Exception\<close> outside them all.\<close>

definition handlers_inside :: "json \<Rightarrow> api_request \<Rightarrow> exn + outcome \<Rightarrow> exn + http_response" where
  "handlers_inside errors req r = (case r of
     Inl (AppError e) \<Rightarrow> Inr (handle_app_error e)
   | Inl e \<Rightarrow> Inl e
   | Inr Invalid \<Rightarrow> Inr (handle_validation_error errors)
   | Inr (Answer j) \<Rightarrow> Inr \<lparr>http_status = success_status req, http_body = j\<rparr>)"

definition handler_outside :: "exn + http_response \<times> string \<Rightarrow> http_response \<times> string option" where
  "handler_outside r = (case r of Inl _ \<Rightarrow> (handle_unexpected_error, None)
     | Inr (response, request_id) \<Rightarrow> (response, Some request_id))"

definition serve ::
  "settings \<Rightarrow> (string \<Rightarrow> string) \<Rightarrow> crypto \<Rightarrow> (api_request \<Rightarrow> json) \<Rightarrow> string option \<Rightarrow> string
    \<Rightarrow> string option \<Rightarrow> api_request \<Rightarrow> string \<Rightarrow> session \<Rightarrow> (http_response \<times> string option) \<times> string \<times> session" where
  "serve cfg sha c errors header fresh token req ctx s =
     (case with_session (run_endpoint cfg sha c token req) s of (r, s') \<Rightarrow>
        (case dispatch header fresh (\<lambda>_. handlers_inside (errors req) req r) ctx of
           (res, ctx') \<Rightarrow> (handler_outside res, ctx', s')))"

text \<open>The response is the one of \<open>handle_request\<close>; the context variable is restored; the id is echoed on
  every response but the one of an unexpected error.\<close>

lemma serve_response:
  assumes "serve cfg sha c errors header fresh token req ctx s = ((resp, echoed), ctx', s')"
  shows "(resp, s') = handle_request cfg sha c errors token req s" and "ctx' = ctx"
    and "echoed = Some (request_id_of header fresh) \<or> echoed = None \<and> resp = handle_unexpected_error"
proof -
  obtain r t where run: "with_session (run_endpoint cfg sha c token req) s = (r, t)"
    by (cases "with_session (run_endpoint cfg sha c token req) s")
  have "(resp, s') = handle_request cfg sha c errors token req s \<and> ctx' = ctx \<and>
    (echoed = Some (request_id_of header fresh) \<or> echoed = None \<and> resp = handle_unexpected_error)"
  proof (cases r)
    case (Inl e)
    with assms run show ?thesis
      by (cases e) (auto simp: serve_def dispatch_def handlers_inside_def handler_outside_def handle_request_def respond_def Let_def)
  next
    case (Inr out)
    with assms run show ?thesis
      by (cases out) (auto simp: serve_def dispatch_def handlers_inside_def handler_outside_def handle_request_def respond_def Let_def)
  qed
  then show "(resp, s') = handle_request cfg sha c errors token req s" "ctx' = ctx"
    "echoed = Some (request_id_of header fresh) \<or> echoed = None \<and> resp = handle_unexpected_error" by simp_all
qed

end
