(* ===== verification/Processes.thy ===== *)
theory Processes
  imports Operations Outbox_Relay Reservation_Cleanup
begin

text \<open>
  The processes around the core: the Celery application of \<open>src/workers/celery_app.py\<close> with its beat
  schedule and registered tasks, the root logger \<open>configure_logging\<close> of \<open>src/logging_config.py\<close> sets
  up in each of them, and the main loop of the relay. What Celery does with the configuration is
  Celery's; the system theory lets it deliver any task at any time.
\<close>

section \<open>The Celery application\<close>

record celery_config =
  app_name :: string
  app_broker :: string
  app_backend :: string
  app_include :: "string list"
  task_serializer :: string
  accept_content :: "string list"
  result_serializer :: string
  timezone :: string
  enable_utc :: bool
  task_acks_late :: bool
  worker_prefetch_multiplier :: int
  beat_schedule :: "(string \<times> string \<times> int) list"    \<comment> \<open>entry, task, \<open>run_every\<close> in seconds\<close>

definition celery_app :: "settings \<Rightarrow> celery_config" where
  "celery_app cfg = \<lparr>app_name = ''inventory_order_service'', app_broker = celery_broker_url cfg,
     app_backend = celery_result_backend cfg,
     app_include = [''src.workers.order_processor'', ''src.workers.reservation_cleanup'', ''src.workers.low_stock_notifier''],
     task_serializer = ''json'', accept_content = [''json''], result_serializer = ''json'',
     timezone = ''UTC'', enable_utc = True, task_acks_late = True, worker_prefetch_multiplier = 1,
     beat_schedule = [(''expire-reservations'', ''workers.expire_reservations'', reservation_cleanup_interval_seconds cfg)]\<rparr>"

text \<open>The \<open>@celery_app.task(name = ...)\<close> decorators of the included modules.\<close>

definition module_tasks :: "string \<rightharpoonup> string list" where
  "module_tasks = map_of [
     (''src.workers.order_processor'', [''workers.process_order'']),
     (''src.workers.reservation_cleanup'', [''workers.expire_reservations'']),
     (''src.workers.low_stock_notifier'', [''workers.notify_low_stock''])]"

definition registered_tasks :: "celery_config \<Rightarrow> string list" where
  "registered_tasks app = concat (map (\<lambda>m. case module_tasks m of None \<Rightarrow> [] | Some ts \<Rightarrow> ts) (app_include app))"

text \<open>The task each message of the relay names.\<close>

fun task_name :: "task_message \<Rightarrow> string" where
  "task_name (ProcessOrder _) = ''workers.process_order''"
| "task_name (NotifyLowStock _) = ''workers.notify_low_stock''"

text \<open>No message and no entry of the schedule names a task the worker does not know.\<close>

lemma messages_are_registered: "task_name m \<in> set (registered_tasks (celery_app cfg))"
  by (cases m) (simp_all add: registered_tasks_def celery_app_def module_tasks_def)

lemma schedule_is_registered:
  "\<forall>(_, t, _)\<in>set (beat_schedule (celery_app cfg)). t \<in> set (registered_tasks (celery_app cfg))"
  by (simp add: registered_tasks_def celery_app_def module_tasks_def)

section \<open>The root logger\<close>

text \<open>\<open>levels\<close> holds the loggers whose level was set; the root logger has the name \<open>''''\<close>. A handler is
  what its formatter and filter make of a record: here the only kind there is.\<close>

datatype log_handler = JsonHandler

record logging_state =
  root_handlers :: "log_handler list"
  levels :: "string \<rightharpoonup> int"

definition level_number :: "string \<rightharpoonup> int" where
  "level_number = map_of [(''CRITICAL'', 50), (''FATAL'', 50), (''ERROR'', 40), (''WARN'', 30), (''WARNING'', 30),
     (''INFO'', 20), (''DEBUG'', 10), (''NOTSET'', 0)]"

definition upper :: "string \<Rightarrow> string" where
  "upper = map (\<lambda>c. let n = (of_char c :: nat) in if 97 \<le> n \<and> n \<le> 122 then char_of (n - 32) else c)"

text \<open>\<open>setLevel\<close> raises \<open>ValueError\<close> for a name it does not know; the handler is in place by then.\<close>

definition configure_logging :: "settings \<Rightarrow> logging_state \<Rightarrow> (exn + unit) \<times> logging_state" where
  "configure_logging cfg st =
     (let st1 = st\<lparr>root_handlers := [JsonHandler]\<rparr> in
      case level_number (upper (log_level cfg)) of
        None \<Rightarrow> (Inl ValueError, st1)
      | Some n \<Rightarrow> (Inr (), st1\<lparr>levels := (levels st1)
          ([] \<mapsto> n, ''uvicorn.access'' \<mapsto> 30, ''sqlalchemy.engine'' \<mapsto> 30)\<rparr>))"

text \<open>Every process calls it, some through several modules: the second call changes nothing.\<close>

lemma configure_logging_twice:
  "configure_logging cfg st = (r, st') \<Longrightarrow> configure_logging cfg st' = (r, st')"
  by (auto simp: configure_logging_def Let_def fun_upd_twist fun_eq_iff split: option.splits)

text \<open>A logger without a level of its own has its parent's; \<open>rev_parts\<close> is its dotted name, last part
  first. \<open>logger.log\<close> then passes the record to the handlers of the root.\<close>

fun effective_level :: "logging_state \<Rightarrow> string list \<Rightarrow> int" where
  "effective_level st [] = (case levels st [] of None \<Rightarrow> 30 | Some n \<Rightarrow> n)"
| "effective_level st (p # rev_parts) =
     (case levels st (join_with (CHR ''.'') (rev (p # rev_parts))) of
        Some n \<Rightarrow> if n \<noteq> 0 then n else effective_level st rev_parts
      | None \<Rightarrow> effective_level st rev_parts)"

definition emit :: "logging_state \<Rightarrow> string \<Rightarrow> string \<Rightarrow> int \<Rightarrow> log_record \<Rightarrow> (string \<times> json) list list" where
  "emit st ctx timestamp level r =
     (if effective_level st (rev (split_on (CHR ''.'') (logger_name r))) \<le> level
      then map (\<lambda>h. case h of JsonHandler \<Rightarrow> json_format timestamp (request_id_filter ctx r)) (root_handlers st) else [])"

lemma one_line_per_event:
  assumes "configure_logging cfg st = (Inr u, st')"
  shows "length (emit st' ctx ts level r) \<le> 1"
  using assms by (auto simp: configure_logging_def emit_def Let_def split: option.splits)

lemma info_lines:
  "map (\<lambda>name. length (emit (snd (configure_logging default_settings \<lparr>root_handlers = [], levels = Map.empty\<rparr>)) ''-'' ''t'' 20
      (log_event name ''INFO'' ''e'' []))) [''src.services.order_service'', ''uvicorn.access'', ''uvicorn.error'', ''sqlalchemy.engine.Engine''] =
    [1, 0, 1, 0]"
  by code_simp

section \<open>The relay's main loop\<close>

text \<open>
  \<open>signalled\<close> says at each check of the loop whether SIGTERM or SIGINT has arrived: the loop ends at
  the first check after a signal, between two polls and never inside one.
\<close>

fun run_forever :: "bool list \<Rightarrow> broker \<Rightarrow> task_message list \<Rightarrow> session \<Rightarrow> task_message list \<times> session" where
  "run_forever [] broker queue s = (queue, s)"
| "run_forever (signalled # later) broker queue s =
     (if signalled then (queue, s)
      else case relay_once broker queue s of (_, queue', s') \<Rightarrow> run_forever later broker queue' s')"

lemma run_forever_polls:
  "run_forever signalled broker queue s = relay_polls (length (takeWhile Not signalled)) broker queue s"
  by (induction signalled broker queue s rule: run_forever.induct) (auto split: prod.splits)

end
