(* ===== verification/Findings.thy ===== *)
theory Findings
  imports Service_Runs Operations Interleaving_Properties Api_Properties
begin

text \<open>
  Concrete runs on which the code does something a comment, a document or its evident intention does
  not say. Each is an evaluation of the definitions; the general theorems are beside the components.
\<close>

text \<open>The sweep returns the stock of an expired reservation (the pair is at 5, its threshold 2) but the
  low flag stays up, and the next fall below the threshold raises no second alert. A cancellation in
  its place lowers the flag.\<close>

definition order_again :: "api_request" where
  "order_again = ReqCreateOrder \<lparr>req_items = [\<lparr>ol_product_id = ''prod_2'', ol_quantity = 4\<rparr>], req_payment_token = ''success''\<rparr> None"

lemma expiry_leaves_the_low_flag:
  "map (\<lambda>r. (available_quantity r, low_stock_threshold r, is_low_stock r)) (inventory (sys_db (sweeps (waits 900000001 ordered)))) =
     [(5, Some 2, True)]"
  by code_simp

lemma crossing_after_expiry_is_not_alerted:
  "(case calls [(''user_1'', order_again)] (sys_session (sweeps (waits 900000001 ordered))) of
     (statuses, s) \<Rightarrow> (statuses, map available_quantity (inventory (committed s)), length (low_stock_alerts (committed s)))) =
   ([201], [1], 1)"
  by code_simp

lemma crossing_after_cancellation_is_alerted:
  "(case calls [(''user_1'', ReqCancelOrder ''order_6''), (''user_1'', order_again)] (sys_session ordered) of
     (statuses, s) \<Rightarrow> (statuses, map available_quantity (inventory (committed s)), length (low_stock_alerts (committed s)))) =
   ([200, 201], [1], 2)"
  by code_simp

text \<open>A sweep between the two transactions of a worker: the order is COMPLETED, yet its reservation was
  released, and the stock it should have consumed is available again.\<close>

lemma completed_order_without_stock:
  "map ord_status (orders (sys_db overtaken)) = [COMPLETED] \<and>
   map resv_status (reservations (sys_db overtaken)) = [RELEASED] \<and>
   map (\<lambda>r. (available_quantity r, reserved_quantity r)) (inventory (sys_db overtaken)) = [(5, 0)]"
  using overtaken_facts by simp

text \<open>\<open>relay_once\<close> counts the events it skipped for want of a handler.\<close>

definition unknown_event :: outbox_event where
  "unknown_event = \<lparr>evt_id = ''e'', evt_aggregate_type = ''order'', evt_aggregate_id = ''o'', evt_event_type = ''OTHER'',
     evt_payload = JNull, evt_status = OUTBOX_PENDING, evt_created_at = 0, evt_published_at = None\<rparr>"

lemma relay_counts_unpublished_events:
  "fst (relay_once (\<lambda>_ _. None) [] (opened (empty_db\<lparr>outbox_events := [unknown_event]\<rparr>))) = Inr 1 \<and>
   fst (snd (relay_once (\<lambda>_ _. None) [] (opened (empty_db\<lparr>outbox_events := [unknown_event]\<rparr>)))) = []"
  by code_simp

text \<open>A second insert of an SKU, as it runs when a concurrent one slipped past the pre-check, fails in the
  flush, outside the \<open>try\<close>: the error is PostgreSQL's, not \<open>DuplicateSkuError\<close>.\<close>

lemma sku_race_is_an_integrity_error:
  "fst (create_product_insert \<lparr>pcr_sku = ''S1'', pcr_name = ''x'', pcr_price = 1\<rparr> (opened shop)) =
     Inl (IntegrityError ''ix_products_sku'')"
  by code_simp

text \<open>Likewise the insert of a pair that had no row when it was looked up, and of an email that was free then:
  of two first adjustments of a pair, or two registrations of an email, that overlap, one is answered 500.\<close>

lemma first_adjustment_race_is_an_integrity_error:
  "fst (adjust_new_pair \<lparr>adj_product_id = ''p1'', adj_warehouse_id = ''w1'', adj_quantity = 5, adj_reason = ''in''\<rparr> stocked) =
     Inl (IntegrityError ''uq_inventory_product_warehouse'')"
  by code_simp

lemma registration_race_is_an_integrity_error:
  "fst (user_create (client\<lparr>user_id := ''user_e''\<rparr>) (opened shop)) = Inl (IntegrityError ''ix_users_email'')"
  by code_simp

text \<open>An adjustment whose reason has 65 characters is valid and answered 500: the reason becomes the
  reference of the audit record, a \<open>String(64)\<close>.\<close>

definition long_reason :: adjustment_request where
  "long_reason = \<lparr>adj_product_id = ''p1'', adj_warehouse_id = ''w1'', adj_quantity = 5, adj_reason = replicate 65 CHR ''x''\<rparr>"

lemma long_reason_is_an_unexpected_error:
  "valid_request (ReqAdjust long_reason) \<and> http_status (fst (call ''user_a'' (ReqAdjust long_reason) (opened shop))) = 500"
  by code_simp

text \<open>Likewise a payment token of 33 characters.\<close>

lemma long_token_is_an_unexpected_error:
  "http_status (fst (call ''user_c'' (ReqCreateOrder ((buy 1)\<lparr>req_payment_token := replicate 33 CHR ''x''\<rparr>) None) stocked)) = 500"
  by code_simp

text \<open>An idempotency key is not bound to its user: another client with the same key and body is answered
  with the first client's order, which it may not read.\<close>

lemma key_answers_another_user:
  "fst (calls [(''user_d'', ReqCreateOrder (buy 4) (Some ''k'')), (''user_d'', ReqGetOrder ''order_2'')] held_shop) = [201, 403] \<and>
   length (orders (committed (snd (calls [(''user_d'', ReqCreateOrder (buy 4) (Some ''k''))] held_shop)))) = 1"
  by code_simp

text \<open>An empty \<open>Idempotency-Key\<close> claims nothing but is stored in the unique column of the order: the next
  order with an empty key is answered 500.\<close>

lemma empty_key_blocks_the_next_order:
  "fst (calls [(''user_c'', ReqCreateOrder (buy 1) (Some [])), (''user_d'', ReqCreateOrder (buy 1) (Some []))] stocked) = [201, 500]"
  by code_simp

text \<open>With no delays configured, a transient failure raises \<open>IndexError\<close> after the order was put back to
  RESERVED: no retry is scheduled.\<close>

definition undecided :: session where
  "undecided = snd (calls [(''user_c'', ReqCreateOrder ((buy 4)\<lparr>req_payment_token := ''fail_retryable''\<rparr>) None)] stocked)"

lemma no_delays_no_retry:
  "(case process_order_task (default_settings\<lparr>payment_retry_backoff_seconds := []\<rparr>) ''order_2'' undecided of
     (res, s) \<Rightarrow> (res, map (\<lambda>r. (ord_status r, ord_processing_attempts r)) (orders (committed s)))) =
   (Inl IndexError, [(RESERVED, 1)])"
  by code_simp

text \<open>The response of an unexpected error carries no request id.\<close>

lemma unexpected_error_has_no_request_id:
  "fst (serve default_settings (\<lambda>x. []) toy_crypto no_detail (Some ''rid'') ''fresh'' (Some ''user_a'') (ReqAdjust long_reason) ''-'' (opened shop)) =
     (handle_unexpected_error, None)"
  by code_simp

text \<open>Orders lock the rows of their lines in the order of the request, and until they commit: two orders with the
  same two products in opposite order wait for each other.\<close>

lemma opposite_orders_deadlock:
  "\<exists>w. steps_to (rc_step stock_sem) (row_server (stock_rows (working shelves))) w \<and>
     deadlocked w [1 \<mapsto> (''p2'', ''w1''), 2 \<mapsto> (''p1'', ''w1'')] {1, 2}"
  using crossed_orders_deadlock by blast

text \<open>An administrator cancels a client's order; the module of the routes calls cancellation a CLIENT action.\<close>

lemma administrator_cancels_an_order:
  "(case calls [(''user_a'', ReqCancelOrder ''order_2'')] held_shop of
     (statuses, s) \<Rightarrow> (statuses, map (\<lambda>r. (ord_created_by_user_id r, ord_status r)) (orders (committed s)))) =
   ([200], [(''user_c'', CANCELLED)])"
  by code_simp

text \<open>Of two orders created at the same time, SQL may answer both pages of length one with the same one: the
  other is on no page.\<close>

lemma tied_pages_may_repeat:
  assumes "ord_created_at a = ord_created_at b"
  shows "sql_page [a, b] 1 1 [a] \<and> sql_page [a, b] 2 1 [a]"
proof
  show "sql_page [a, b] 1 1 [a]"
    unfolding sql_page_def by (rule exI [of _ "[a, b]"]) (simp add: assms)
  show "sql_page [a, b] 2 1 [a]"
    unfolding sql_page_def by (rule exI [of _ "[b, a]"]) (simp add: assms)
qed

text \<open>The worker dies between the commit of a failure and that of its dead letter: the order is FAILED after the
  last attempt, no dead letter was recorded, and the message that comes again records none.\<close>

definition last_attempt :: session where
  "last_attempt = snd (begin_transaction ''order_2'' (snd (process_order default_settings ''order_2''
     (snd (process_order default_settings ''order_2'' undecided)))))"

lemma dead_letter_is_lost:
  "(case process_order default_settings ''order_2'' (snd (fail_transaction ''order_2'' last_attempt)) of
     (res, s) \<Rightarrow> (res, map (\<lambda>r. (ord_status r, ord_processing_attempts r)) (orders (committed s)), dead_letters (committed s))) =
   (Inr (), [(FAILED, 3)], [])"
  by code_simp

lemma dead_letter_is_recorded:
  "(case finish_transaction default_settings ''order_2'' 3 (charge ''fail_retryable'') last_attempt of
     (res, s) \<Rightarrow> (res, map ord_status (orders (committed s)), map dlq_attempts (dead_letters (committed s)))) =
   (Inr (), [FAILED], [3])"
  by code_simp

end
