(* ===== verification/Spec2Isabelle.thy ===== *)
theory Spec2Isabelle
  imports Stock_Properties Order_Properties Worker_Properties Relay_Properties Access_Properties Api_Properties
    Schema_Equivalence Interleaving_Properties Routing Processes Findings
begin

text \<open>
  The inventory reservation and order processing service: a FastAPI application over PostgreSQL, an
  outbox relay, Celery workers and a periodic sweep (\<open>src/\<close>), with the Alembic migrations of its
  schema (\<open>migrations/\<close>).

  \<^bold>\<open>How the program is modelled.\<close> A database (\<open>Models\<close>) is a record of tables, a table the list of its
  rows; \<open>check_*\<close> is what PostgreSQL verifies of a new row. A SQLAlchemy session (\<open>Session\<close>) holds the
  committed database and its own view; an operation takes a session to an exception or a value and
  the next session, \<open>and_then\<close> skips the rest after an exception, \<open>exec_insert\<close> and \<open>exec_update\<close> are
  atomic statements, \<open>commit\<close>, \<open>rollback\<close> and \<open>with_session\<close> are the session's. Every function of the
  repositories, services, routes and workers is one definition with the source's branches, and is
  executable. Integers are unbounded as in Python; the width of a column is a row check. Money is in
  hundredths, time in microseconds.

  \<^bold>\<open>Theories and the code they model.\<close>
  \<^item> \<open>Prelude\<close>, \<open>Enums\<close> (\<open>models/enums.py\<close>), \<open>Errors\<close> (\<open>core/exceptions.py\<close>,
    \<open>middleware/error_handler.py\<close>), \<open>Config\<close> (\<open>config.py\<close>), \<open>Models\<close> (\<open>models/\<close>), \<open>Session\<close>
    (\<open>database.py\<close>, \<open>core/ids.py\<close>, the locale \<open>keyed_table\<close> of a table with a key, interpreted on every
    table).
  \<^item> \<open>Inventory_Repository\<close>, \<open>Reservation_Repository\<close>, \<open>Log_Repositories\<close>, \<open>Catalog\<close>, \<open>Orders\<close>,
    \<open>Idempotency\<close>: the repositories, with the product, warehouse, payment and idempotency services. The
    statements that move stock are one locale, interpreted on reserve, release, consume and adjust.
  \<^item> \<open>Inventory_Service\<close>, \<open>Stock_Events\<close>, \<open>Settlement\<close>, \<open>Stock_Admin\<close> (\<open>services/inventory_service.py\<close>,
    \<open>services/low_stock_service.py\<close>), \<open>Order_Service\<close> (\<open>services/order_service.py\<close>), \<open>Access\<close>
    (\<open>services/auth_service.py\<close>, \<open>core/security.py\<close>, \<open>api/deps.py\<close>), \<open>Api\<close> (\<open>api/\<close>, \<open>schemas/\<close>),
    \<open>Routing\<close> (the paths of \<open>api/\<close> as \<open>main.py\<close> mounts them), \<open>Operations\<close> (\<open>api/health.py\<close>,
    \<open>middleware/request_id.py\<close>, \<open>logging_config.py\<close>), \<open>Bootstrap\<close> (\<open>bootstrap.py\<close>).
  \<^item> \<open>Order_Processor\<close>, \<open>Reservation_Cleanup\<close>, \<open>Outbox_Relay\<close> (\<open>workers/\<close>), \<open>Processes\<close>
    (\<open>workers/celery_app.py\<close>, \<open>configure_logging\<close>, the relay's main loop).
  \<^item> \<open>Locking\<close>, \<open>Interleaving\<close>, \<open>Interleaving_Properties\<close>: the statements of
    \<open>repositories/inventory_repository.py\<close> under concurrent transactions.
  \<^item> \<open>Schema\<close>, \<open>Migrations\<close>, \<open>Schema_Equivalence\<close> (\<open>migrations/versions/\<close>): the statements of the two
    migrations, the schema they build, and that it accepts exactly the rows the model's checks accept.

  \<^bold>\<open>From the code to the system.\<close> \<open>Transitions\<close> is an abstract transition system on databases,
  \<open>db_change\<close>: one order, one cancellation, one adjustment, one outcome of a worker, one batch of the
  sweep, and so on, described by what they do and not by statements; \<open>db_ok\<close> is its inductive invariant.
  \<open>Refinement\<close> proves that every request and every worker transaction commits exactly one such change.
  \<open>System\<close> is the service as a step relation \<open>sys_step\<close> over a session, the Celery queue and the workers
  between their two transactions: any request, any delivery to any worker at any moment, any death of
  a worker, any poll against any broker, a sweep, the bootstrap, the passing of time. There the
  transactions are serialised. \<open>Locking\<close> is the other view: transactions interleaved statement by
  statement, each UPDATE that changes a row holding it until its transaction ends (PostgreSQL's READ
  COMMITTED), and a log of every committed statement with the number of transactions that were
  committed when it ran. \<open>Interleaving_Properties\<close> shows that on the stock the statements that changed a
  row, or missed one their transaction holds, are serial in the order of commit, results included. A
  statement that missed a row its transaction does not hold was answered from what was committed when
  it ran; the order of commit may contradict it (\<open>refusal_is_not_serial\<close>). \<open>History\<close> instantiates the locale \<open>transition_system\<close>
  with what is only ever appended to, \<open>Catalog_History\<close> with the typing of the catalog. A worker may
  die before its second transaction, or between the two commits of an order that fails for good
  (\<open>fail_transaction\<close>); the second of these, the dead letter, otherwise follows the first at once.

  \<^bold>\<open>Properties.\<close> This theory: invariants of every reachable state and safety along every run.
  \<open>Stock_Properties\<close>: the statements on stock, contention, alerts, adjustments, thresholds.
  \<open>Order_Properties\<close>: placing, replaying, refusing and cancelling orders. \<open>Worker_Properties\<close>: deliveries,
  retries, the sweep. \<open>Relay_Properties\<close>: the outbox drains. \<open>Access_Properties\<close>: accounts, tokens and the
  administrator. \<open>Api_Properties\<close>: roles, pages, the retry delays. \<open>Routing\<close>: paths.
  \<open>Interleaving_Properties\<close>: serialisability, overselling and alerts under interleaving. \<open>Migrations\<close> and
  \<open>Schema_Equivalence\<close>: the schema. \<open>Findings\<close>: concrete runs on which the code departs from its
  comments or its evident intention. \<open>Sample\<close> and \<open>Service_Runs\<close> hold the concrete shops and runs of the
  witnesses.

  \<^bold>\<open>Bounds and fuel.\<close> The loop of the sweep, \<open>expire_loop\<close>, takes a number of passes; \<open>sweep_ends\<close>
  shows that one more than the active reservations is enough. The relay's endless loop is the number
  of its polls, \<open>relay_polls\<close>. Nothing else loops over more than a list.

  \<^bold>\<open>Parameters.\<close> SHA-256 (\<open>sha\<close>), bcrypt and JWT (\<open>crypto\<close>, with the hypothesis \<open>crypto_laws\<close> where a
  token has to be accepted), the broker behind Celery's \<open>delay\<close> (\<open>broker\<close>), the text of pydantic's
  errors (\<open>errors\<close>), the probes of the health checks and the draws of \<open>uuid4\<close> are arguments.

  \<^bold>\<open>Not modelled.\<close> The parsing of HTTP headers and bodies into the fields of a request and of JSON into
  text, connection pools and connection failures, the sleeping of the relay, what Celery does with its
  configuration (its deliveries are arbitrary), and the Alembic environment (\<open>migrations/env.py\<close>, calls of
  a third-party tool). The interleaving of statements is modelled for the rows of the inventory that
  exist: the choice of a warehouse and the reads of other tables between them are not, nor is the
  insertion of a new pair. Where SQL leaves a choice open the definitions take the order of the table:
  the row \<open>find_best_warehouse\<close> picks of several that tie, the events and orders of the same time in
  \<open>claim_pending_batch\<close> and \<open>order_list\<close>, and the batch \<open>claim_expired_batch\<close> takes when more than its limit
  have expired; rows locked by others are not skipped. \<open>sql_page\<close> in \<open>Api_Properties\<close> is what SQL promises of
  a page of orders, and the property of the pages holds for every answer it allows. The lengths of ids
  are checked for users, products, warehouses and stock; the ids the service draws for its other rows
  fit their columns.
\<close>

section \<open>Requests\<close>

text \<open>
  C2. Whatever an HTTP request asks and whatever it is answered, what it commits is one of the
  changes of the abstract system (one order, one cancellation, one adjustment, one threshold, one
  catalog row, or nothing), and it keeps the invariant of the database.
\<close>

theorem request_commits_one_change:
  assumes "handle_request cfg sha c errors token req s = (resp, s')" and "db_ok cfg (committed s)"
  shows "db_change cfg sha (clock s) Quiet (committed s) (committed s') \<and> db_ok cfg (committed s')"
  using handle_request_refines(1) [OF assms] db_change_ok [OF _ assms(2)] by blast

theorem request_commits_one_change_witness:
  "db_ok default_settings (committed (snd (call ''user_c'' (ReqCreateOrder (buy 4) None) stocked)))"
  using request_commits_one_change [OF _ stocked_ok, of "\<lambda>x. []" toy_crypto no_detail "Some ''user_c''"
      "ReqCreateOrder (buy 4) None"]
  by (metis call_def prod.collapse)

section \<open>Every reachable state of the service\<close>

text \<open>
  In what follows the service starts with an empty database and runs in any way: any requests with
  any tokens, deliveries of any order to any number of workers at any moment, workers that die, polls
  of the relay against any broker, sweeps, the bootstrap, and the passing of time.
\<close>

text \<open>
  C1. Stock is never oversold and never lost. In every reachable state no pair of product and
  warehouse has two rows, no quantity is negative, and what each row says is reserved is exactly the
  sum of the active reservations of the pair.
\<close>

theorem stock_is_conserved:
  assumes "committed s = empty_db" and "steps_to (sys_step cfg sha c errors) (service_start s) st"
  shows "unique_pairs (sys_db st) \<and>
    (\<forall>r\<in>set (inventory (sys_db st)). 0 \<le> available_quantity r \<and> 0 \<le> reserved_quantity r \<and>
       reserved_quantity r = held (sys_db st) (inv_key r))"
proof -
  note sound = reachable_db_ok(1) [OF assms]
  have pairs: "unique_pairs (sys_db st)" by (rule stock_soundD(4) [OF sound])
  have "reserved_quantity r = held (sys_db st) (inv_key r)" if "r \<in> set (inventory (sys_db st))" for r
    using spec [OF stock_soundD(3) [OF sound, unfolded conserved_def], of "inv_key r"] account_row [OF pairs that]
    by (simp add: reserved_of_def row_account_def)
  moreover have "row_ok r" if "r \<in> set (inventory (sys_db st))" for r
    using stock_soundD(1) [OF sound] that by (simp add: stock_base_def)
  ultimately show ?thesis using pairs by (auto simp: row_ok_def check_inventory_row_None)
qed

theorem stock_is_conserved_witness:
  "held (sys_db ordered) (''prod_2'', ''wh_3'') = 4"
proof -
  have "map (\<lambda>r. (inv_key r, reserved_quantity r)) (inventory (sys_db ordered)) = [((''prod_2'', ''wh_3''), 4)]" by code_simp
  then obtain r where "r \<in> set (inventory (sys_db ordered))" "inv_key r = (''prod_2'', ''wh_3'')" "reserved_quantity r = 4"
    by auto
  with stock_is_conserved [OF start_facts(1) serves_ordered [unfolded start_def]] show ?thesis by metis
qed



text \<open>
  C13. Alerts are neither lost nor doubled. In every reachable state the alert rows and the alert
  events of the outbox correspond one to one, in order; an alert was raised at or below its
  threshold; and a pair whose low flag is down has more than its threshold, so its next crossing
  will raise one.
\<close>

theorem alerts_match_their_events:
  assumes "committed s = empty_db" and "steps_to (sys_step cfg sha c errors) (service_start s) st"
  shows "list_all2 announces (low_stock_alerts (sys_db st)) (filter is_alert_event (outbox_events (sys_db st))) \<and>
    (\<forall>a\<in>set (low_stock_alerts (sys_db st)). lsa_quantity_at_alert a \<le> lsa_threshold a) \<and>
    (\<forall>r\<in>set (inventory (sys_db st)). \<forall>t. low_stock_threshold r = Some t \<and> \<not> is_low_stock r \<longrightarrow> t < available_quantity r)"
  using stock_soundD(1) [OF reachable_db_ok(1) [OF assms]]
  by (auto simp: stock_base_def alerts_announced_def flag_safe_def)

theorem alerts_match_their_events_witness:
  "list_all2 announces (low_stock_alerts (sys_db ordered)) (filter is_alert_event (outbox_events (sys_db ordered))) \<and>
   length (low_stock_alerts (sys_db ordered)) = 1"
proof -
  have "length (low_stock_alerts (sys_db ordered)) = 1" by code_simp
  with alerts_match_their_events [OF start_facts(1) serves_ordered [unfolded start_def]] show ?thesis by blast
qed

text \<open>
  C14. Orders are well formed. In every reachable state order ids are distinct, no order is PENDING,
  no order has more processing attempts than the maximum, a RESERVED order has attempts left, and an
  active reservation belongs to an order that is RESERVED, PROCESSING or EXPIRED: never to one that
  was completed, failed or cancelled.
\<close>

theorem orders_are_well_formed:
  assumes "committed s = empty_db" and "steps_to (sys_step cfg sha c errors) (service_start s) st"
  shows "distinct (map ord_id (orders (sys_db st))) \<and>
    (\<forall>r\<in>set (orders (sys_db st)). ord_status r \<noteq> PENDING \<and> ord_processing_attempts r \<le> max_attempts cfg \<and>
       (ord_status r = RESERVED \<longrightarrow> ord_processing_attempts r < max_attempts cfg)) \<and>
    (\<forall>x\<in>set (reservations (sys_db st)). \<exists>r\<in>set (orders (sys_db st)). ord_id r = resv_order_id x \<and>
       (resv_status x = ACTIVE \<longrightarrow> ord_status r \<in> {RESERVED, PROCESSING, EXPIRED}))"
  using reachable_db_ok(2) [OF assms]
  by (auto simp: orders_ok_def unique_orders_def order_ok_def reservation_ok_def)

theorem orders_are_well_formed_witness:
  "\<exists>r\<in>set (orders (sys_db ordered)). ord_id r = ''order_6'' \<and> ord_processing_attempts r < 3"
proof -
  from ordered_facts(3) obtain r where "r \<in> set (orders (sys_db ordered))" "ord_id r = ''order_6''" "ord_status r = RESERVED"
    by auto
  with orders_are_well_formed [OF start_facts(1) serves_ordered [unfolded start_def]]
  have "ord_processing_attempts r < max_attempts default_settings" by blast
  moreover have "max_attempts default_settings = 3" by (simp add: max_attempts_def default_settings_def)
  ultimately show ?thesis
    using \<open>r \<in> set (orders (sys_db ordered))\<close> \<open>ord_id r = ''order_6''\<close> by (intro bexI [of _ r]) simp_all
qed

text \<open>
  C15. One order per idempotency key. In every reachable state the keys are distinct, every committed
  key is COMPLETED with its answer stored, and names an order that carries that key; in particular no
  key is ever left IN_PROGRESS, so the conflict answer of \<open>begin\<close> is never given.
\<close>

theorem keys_name_their_orders:
  assumes "committed s = empty_db" and "steps_to (sys_step cfg sha c errors) (service_start s) st"
    and "e \<in> set (idempotency_keys (sys_db st))"
  shows "distinct (map idem_key (idempotency_keys (sys_db st))) \<and> idem_status e = IDEM_COMPLETED \<and>
    idem_response_body e \<noteq> None \<and>
    (\<exists>r\<in>set (orders (sys_db st)). idem_order_id e = Some (ord_id r) \<and> ord_idempotency_key r = Some (idem_key e))"
  using reachable_db_ok(3) [OF assms(1,2)] assms(3) by (simp add: idem_ok_def unique_keys_def)

theorem keys_name_their_orders_witness:
  "\<exists>e\<in>set (idempotency_keys (sys_db ordered)). idem_key e = ''k'' \<and> idem_status e = IDEM_COMPLETED"
proof -
  have "map idem_key (idempotency_keys (sys_db ordered)) = [''k'']" by code_simp
  then obtain e where e: "e \<in> set (idempotency_keys (sys_db ordered))" "idem_key e = ''k''" by auto
  from keys_name_their_orders [OF start_facts(1) serves_ordered [unfolded start_def] e(1)] e show ?thesis by blast
qed

text \<open>
  C16. Nothing is published without its message. In every reachable state the outbox holds exactly one
  ORDER_RESERVED event per order, in the order of the orders, every event has a handler, and the
  message of every event marked PUBLISHED has been put on the queue.
\<close>

theorem published_events_are_enqueued:
  assumes "committed s = empty_db" and "steps_to (sys_step cfg sha c errors) (service_start s) st"
  shows "map evt_aggregate_id (filter is_order_event (outbox_events (sys_db st))) = map ord_id (orders (sys_db st)) \<and>
    (\<forall>e\<in>set (outbox_events (sys_db st)). message_of e \<noteq> None) \<and>
    (\<forall>e\<in>set (outbox_events (sys_db st)). evt_status e = OUTBOX_PUBLISHED \<longrightarrow>
       (\<exists>m. message_of e = Some m \<and> m \<in> set (sys_queue st)))"
proof -
  have "message_of e \<noteq> None" if "e \<in> set (outbox_events (sys_db st))" for e
    using reachable_db_ok(4) [OF assms] that
    by (auto simp: events_ok_def is_order_event_def is_alert_event_def message_of_def handlers_def json_item_def)
  with reachable_db_ok(4) [OF assms] sys_okD(2) [OF reachable_ok [OF assms]] show ?thesis
    by (simp add: events_ok_def published_enqueued_def)
qed

theorem published_events_are_enqueued_witness:
  "\<exists>e m. e \<in> set (outbox_events (sys_db relayed)) \<and> message_of e = Some m \<and> m \<in> set (sys_queue relayed)"
proof -
  from relayed_facts(1) have "\<exists>e\<in>set (outbox_events (sys_db relayed)). evt_status e = OUTBOX_PUBLISHED"
    by (auto simp: map_eq_Cons_conv)
  with published_events_are_enqueued [OF start_facts(1) serves_relayed [unfolded start_def]] show ?thesis by blast
qed

text \<open>
  C17. No order is processed twice at the same time. In every reachable state the workers that are
  between their two transactions hold different orders, and each order so held is PROCESSING, in the
  attempt its worker began.
\<close>

theorem one_worker_per_order:
  assumes "committed s = empty_db" and "steps_to (sys_step cfg sha c errors) (service_start s) st"
  shows "distinct (map job_order (sys_jobs st)) \<and> (\<forall>j\<in>set (sys_jobs st). \<exists>r\<in>set (orders (sys_db st)).
    ord_id r = job_order j \<and> ord_status r = PROCESSING \<and> ord_processing_attempts r = job_attempt j)"
  using sys_okD(3,4) [OF reachable_ok [OF assms]] by (auto simp: job_ok_def)

theorem one_worker_per_order_witness:
  "\<exists>j r. sys_jobs taken = [j] \<and> r \<in> set (orders (sys_db taken)) \<and> ord_id r = job_order j \<and> ord_status r = PROCESSING"
proof -
  from taken_facts(1) obtain j where "sys_jobs taken = [j]" by auto
  with one_worker_per_order [OF start_facts(1) serves_taken [unfolded start_def]] show ?thesis by auto
qed

section \<open>Along every run\<close>

text \<open>
  C18. History is kept. From any reachable state on, whatever happens: audit records, alerts, dead
  letters, order items, answered keys, users, products and warehouses are only appended to; an order
  keeps its id, total, owner, payment token, key and creation time, and once terminal never changes
  again; a reservation that is no longer active never changes again, and neither does an event that
  is published: the relay never marks it a second time.
\<close>

theorem history_is_kept:
  assumes "committed s = empty_db" and "steps_to (sys_step cfg sha c errors) (service_start s) st"
    and "steps_to (sys_step cfg sha c errors) st st'"
  shows "(\<exists>l. audit_logs (sys_db st') = audit_logs (sys_db st) @ l) \<and>
    (\<exists>l. low_stock_alerts (sys_db st') = low_stock_alerts (sys_db st) @ l) \<and>
    (\<exists>l. dead_letters (sys_db st') = dead_letters (sys_db st) @ l) \<and>
    (\<exists>l. order_items (sys_db st') = order_items (sys_db st) @ l) \<and>
    (\<exists>l. idempotency_keys (sys_db st') = idempotency_keys (sys_db st) @ l) \<and>
    (\<exists>l. users (sys_db st') = users (sys_db st) @ l) \<and> (\<exists>l. products (sys_db st') = products (sys_db st) @ l) \<and>
    (\<exists>l. warehouses (sys_db st') = warehouses (sys_db st) @ l) \<and>
    (\<forall>r\<in>set (orders (sys_db st)). \<exists>r'\<in>set (orders (sys_db st')). same_order r r' \<and>
       (ord_status r \<in> TERMINAL_ORDER_STATUSES \<longrightarrow> r' = r)) \<and>
    (\<forall>x\<in>set (reservations (sys_db st)). resv_status x \<noteq> ACTIVE \<longrightarrow> x \<in> set (reservations (sys_db st'))) \<and>
    (\<forall>e\<in>set (outbox_events (sys_db st)). evt_status e = OUTBOX_PUBLISHED \<longrightarrow> e \<in> set (outbox_events (sys_db st')))"
proof -
  from service.run_rel [OF assms(3) reachable_ok [OF assms(1,2)]]
  have h: "history (sys_db st) (sys_db st')" .
  have "\<exists>r'\<in>set (orders (sys_db st')). same_order r r' \<and> (ord_status r \<in> TERMINAL_ORDER_STATUSES \<longrightarrow> r' = r)"
    if "r \<in> set (orders (sys_db st))" for r
    using extends_member [OF historyD(1) [OF h] that] unfolding order_kept_def by blast
  moreover have "x \<in> set (reservations (sys_db st'))" if "x \<in> set (reservations (sys_db st))" "resv_status x \<noteq> ACTIVE" for x
    using extends_member [OF historyD(2) [OF h] that(1)] that(2) unfolding resv_kept_def by blast
  moreover have "e \<in> set (outbox_events (sys_db st'))"
    if "e \<in> set (outbox_events (sys_db st))" "evt_status e = OUTBOX_PUBLISHED" for e
    using extends_member [OF historyD(3) [OF h] that(1)] that(2) unfolding event_kept_def by blast
  moreover note historyD(4) [OF h]
  ultimately show ?thesis by blast
qed

theorem history_is_kept_witness:
  "\<exists>l. audit_logs (sys_db relayed) = audit_logs (sys_db ordered) @ l"
  using history_is_kept [OF start_facts(1) serves_ordered [unfolded start_def] ordered_to_relayed] by blast

text \<open>
  C3. Orders move along their life cycle only. In one step of the service an order is left as it is or
  moves along \<open>lifecycle\<close>, and only a move to PROCESSING counts an attempt; an order leaves PROCESSING
  only when the worker that holds it finishes; an order that is new is RESERVED, with no attempt.
\<close>

theorem orders_follow_their_lifecycle:
  assumes "committed s = empty_db" and "steps_to (sys_step cfg sha c errors) (service_start s) st"
    and "sys_step cfg sha c errors st st'"
  shows "(\<forall>r\<in>set (orders (sys_db st)). \<exists>r'\<in>set (orders (sys_db st')). ord_id r' = ord_id r \<and> (r' = r \<or>
      lifecycle (ord_status r) (ord_status r') \<and>
      ord_processing_attempts r' = ord_processing_attempts r + (if ord_status r' = PROCESSING then 1 else 0) \<and>
      (ord_status r = PROCESSING \<longrightarrow>
        ord_id r \<in> job_order ` set (sys_jobs st) \<and> ord_id r \<notin> job_order ` set (sys_jobs st')))) \<and>
    (\<forall>r\<in>set (orders (sys_db st')). ord_id r \<notin> ord_id ` set (orders (sys_db st)) \<longrightarrow>
      ord_status r = RESERVED \<and> ord_processing_attempts r = 0)"
proof -
  note ok = reachable_ok [OF assms(1,2)]
  have "\<exists>r'\<in>set (orders (sys_db st')). ord_id r' = ord_id r \<and> (r' = r \<or>
      lifecycle (ord_status r) (ord_status r') \<and>
      ord_processing_attempts r' = ord_processing_attempts r + (if ord_status r' = PROCESSING then 1 else 0) \<and>
      (ord_status r = PROCESSING \<longrightarrow>
        ord_id r \<in> job_order ` set (sys_jobs st) \<and> ord_id r \<notin> job_order ` set (sys_jobs st')))"
    if "r \<in> set (orders (sys_db st))" for r
    using sys_step_orders [OF assms(3) ok that] unfolding same_order_def by blast
  with new_orders_reserved [OF assms(3) ok] show ?thesis by blast
qed

theorem orders_follow_their_lifecycle_witness:
  "\<exists>r\<in>set (orders (sys_db taken)). ord_id r = ''order_6'' \<and> ord_processing_attempts r = 1"
proof -
  have "map (\<lambda>r. (ord_id r, ord_status r, ord_processing_attempts r)) (orders (sys_db ordered)) = [(''order_6'', RESERVED, 0)]"
    by code_simp
  then obtain r where r: "r \<in> set (orders (sys_db ordered))" "ord_id r = ''order_6''" "ord_status r = RESERVED"
    "ord_processing_attempts r = 0" by auto
  with orders_follow_their_lifecycle [OF start_facts(1) serves_ordered [unfolded start_def] ordered_step_taken]
  obtain r' where "r' \<in> set (orders (sys_db taken))" "ord_id r' = ord_id r"
    "r' = r \<or> ord_processing_attempts r' = ord_processing_attempts r + (if ord_status r' = PROCESSING then 1 else 0)"
    by blast
  moreover from this(1) taken_facts(2) have "(ord_id r', ord_status r') \<in> set [(''order_6'', PROCESSING)]"
    by (metis (mono_tags, lifting) image_eqI list.set_map)
  ultimately show ?thesis using r by auto
qed

text \<open>
  C19. An order whose worker died stays PROCESSING. When no worker holds an order that is PROCESSING,
  no delivery, sweep, request or poll ever changes the order again: a second delivery does not heal it.
\<close>

theorem abandoned_order_is_never_decided:
  assumes "committed s = empty_db" and "steps_to (sys_step cfg sha c errors) (service_start s) st"
    and "r \<in> set (orders (sys_db st))" and "ord_status r = PROCESSING" and "ord_id r \<notin> job_order ` set (sys_jobs st)"
    and "steps_to (sys_step cfg sha c errors) st st'"
  shows "r \<in> set (orders (sys_db st')) \<and> ord_id r \<notin> job_order ` set (sys_jobs st')"
proof -
  have "sys_ok cfg st \<and> forsaken r st" using reachable_ok [OF assms(1,2)] assms(3-5) by (simp add: forsaken_def)
  from forsaken.run_inv [OF assms(6) this] show ?thesis by (simp add: forsaken_def)
qed

theorem abandoned_order_is_never_decided_witness:
  "\<exists>r\<in>set (orders (sys_db redelivered)). ord_id r = ''order_6'' \<and> ord_status r = PROCESSING"
proof -
  from abandoned_facts(2) obtain r where r: "r \<in> set (orders (sys_db abandoned))" "ord_id r = ''order_6''" "ord_status r = PROCESSING"
    by auto
  with abandoned_order_is_never_decided [OF start_facts(1) serves_abandoned [unfolded start_def] r(1,3) _ abandoned_to_redelivered]
  show ?thesis by (auto simp: abandoned_facts(1))
qed

section \<open>The catalog\<close>

text \<open>
  C37. The catalog and the stock are typed and their keys are unique. In every reachable state no two
  users share an email, no two products an SKU, no two rows of stock a pair of product and warehouse,
  and no two rows of any of these tables and of the warehouses an id; every id, email, password hash,
  SKU, name and location fits its column, every price its \<open>Numeric(12, 2)\<close>, and every row of stock
  its integers and CHECK constraints.
\<close>

theorem catalog_is_typed:
  assumes "committed s = empty_db" and "steps_to (sys_step cfg sha c errors) (service_start s) st"
  shows "distinct (map user_id (users (sys_db st))) \<and> distinct (map user_email (users (sys_db st))) \<and>
    distinct (map prod_id (products (sys_db st))) \<and> distinct (map prod_sku (products (sys_db st))) \<and>
    distinct (map wh_id (warehouses (sys_db st))) \<and> distinct (map inv_id (inventory (sys_db st))) \<and>
    distinct (map inv_key (inventory (sys_db st))) \<and>
    (\<forall>u\<in>set (users (sys_db st)). varchar 64 (user_id u) \<and> varchar 255 (user_email u) \<and> varchar 255 (user_hashed_password u)) \<and>
    (\<forall>p\<in>set (products (sys_db st)). varchar 64 (prod_id p) \<and> varchar 64 (prod_sku p) \<and> varchar 255 (prod_name p) \<and>
       numeric_12_2 (prod_price p)) \<and>
    (\<forall>w\<in>set (warehouses (sys_db st)). varchar 64 (wh_id w) \<and> varchar 255 (wh_name w) \<and> varchar 255 (wh_location w)) \<and>
    (\<forall>r\<in>set (inventory (sys_db st)). varchar 64 (inv_id r) \<and> check_inventory_row r = None)"
  using reachable_typed_ok [OF assms] stock_soundD(1) [OF reachable_db_ok(1) [OF assms]]
  by (auto simp: typed_ok_def ids_ok_def catalog_ok_def stock_base_def unique_pairs_def row_ok_def)

theorem catalog_is_typed_witness:
  "\<exists>p. products (sys_db ordered) = [p] \<and> prod_sku p = ''S'' \<and> numeric_12_2 (prod_price p)"
proof -
  have "map prod_sku (products (sys_db ordered)) = [''S'']" by code_simp
  then obtain p where p: "products (sys_db ordered) = [p]" "prod_sku p = ''S''" by auto
  with catalog_is_typed [OF start_facts(1) serves_ordered [unfolded start_def]] show ?thesis by simp
qed

end
